(* ===== verification/Prelude.thy ===== *)
theory Prelude
  imports Main "HOL-Library.Word" "HOL-Library.Sublist"
begin

text \<open>
  Shared vocabulary of the development: results with errors as values (a Go function
  returning \<open>(T, error)\<close> is an \<open>error + T\<close>), bytes and strings, generic lemmas on lists that
  several components use, and the collections the components add their facts to.
  A Go string or byte slice is a \<^typ>\<open>string\<close>: a list of 8-bit characters.
\<close>

named_theorems validate_simps \<open>characterisations of the validating constructors\<close>
named_theorems row_simps \<open>what the row-level operations of the store compute\<close>
named_theorems frame_simps \<open>tables an operation leaves alone\<close>

section \<open>Results\<close>

definition and_then :: "'e + 'a \<Rightarrow> ('a \<Rightarrow> 'e + 'b) \<Rightarrow> 'e + 'b" where
  "and_then r f = (case r of Inl e \<Rightarrow> Inl e | Inr a \<Rightarrow> f a)"

lemma and_then_Inl [simp]: "and_then (Inl e) f = Inl e"
  by (simp add: and_then_def)

lemma and_then_Inr [simp]: "and_then (Inr a) f = f a"
  by (simp add: and_then_def)

lemma and_then_eq_Inr_iff:
  "and_then r f = Inr b \<longleftrightarrow> (\<exists>a. r = Inr a \<and> f a = Inr b)"
  by (cases r) auto

definition is_ok :: "'e + 'a \<Rightarrow> bool" where
  "is_ok r = (case r of Inl _ \<Rightarrow> False | Inr _ \<Rightarrow> True)"

lemma is_ok_simps [simp]: "is_ok (Inl e) = False" "is_ok (Inr a) = True"
  by (simp_all add: is_ok_def)

lemma is_ok_iff: "is_ok r \<longleftrightarrow> (\<exists>a. r = Inr a)"
  by (cases r) auto

definition ensure :: "bool \<Rightarrow> 'e \<Rightarrow> 'e + unit" where
  "ensure c e = (if c then Inr () else Inl e)"

lemma ensure_simps [simp]: "ensure True e = Inr ()" "ensure False e = Inl e"
  by (simp_all add: ensure_def)

text \<open>The error of a nullable value, and traversal of a list that stops at the first error.\<close>

definition of_option :: "'e \<Rightarrow> 'a option \<Rightarrow> 'e + 'a" where
  "of_option e x = (case x of None \<Rightarrow> Inl e | Some a \<Rightarrow> Inr a)"

lemma of_option_simps [simp]: "of_option e None = Inl e" "of_option e (Some a) = Inr a"
  by (simp_all add: of_option_def)

lemma of_option_Inr_iff: "of_option e x = Inr a \<longleftrightarrow> x = Some a"
  by (cases x) auto

primrec map_result :: "('a \<Rightarrow> 'e + 'b) \<Rightarrow> 'a list \<Rightarrow> 'e + 'b list" where
  "map_result f [] = Inr []"
| "map_result f (x # xs) =
     (case f x of
        Inl e \<Rightarrow> Inl e
      | Inr y \<Rightarrow> (case map_result f xs of Inl e \<Rightarrow> Inl e | Inr ys \<Rightarrow> Inr (y # ys)))"

lemma map_result_Inr:
  "(\<And>x. x \<in> set xs \<Longrightarrow> f x = Inr (g x)) \<Longrightarrow> map_result f xs = Inr (map g xs)"
  by (induction xs) auto

lemma map_result_Inr_iff:
  "map_result f xs = Inr ys \<longleftrightarrow> list_all2 (\<lambda>x y. f x = Inr y) xs ys"
proof (induction xs arbitrary: ys)
  case Nil
  show ?case by auto
next
  case (Cons x xs)
  show ?case
  proof (cases "f x")
    case (Inl e)
    then show ?thesis by (auto simp: list_all2_Cons1)
  next
    case y: (Inr y)
    have "list_all2 (\<lambda>x y. f x = Inr y) (x # xs) ys \<longleftrightarrow>
        (\<exists>zs. ys = y # zs \<and> map_result f xs = Inr zs)"
      using y Cons.IH by (auto simp: list_all2_Cons1)
    then show ?thesis
      using y by (cases "map_result f xs") auto
  qed
qed

lemma map_result_member:
  assumes "map_result f xs = Inr ys" and "y \<in> set ys"
  shows "\<exists>x \<in> set xs. f x = Inr y"
proof -
  from assms(2) obtain i where i: "i < length ys" "ys ! i = y" by (auto simp: in_set_conv_nth)
  with assms(1) have "i < length xs" "f (xs ! i) = Inr y"
    by (auto simp: map_result_Inr_iff list_all2_conv_all_nth)
  then show ?thesis by (metis nth_mem)
qed

section \<open>Lists\<close>

lemma filter_filter_comm: "filter P (filter Q xs) = filter Q (filter P xs)"
  by (induction xs) auto

lemma filter_eq_self: "(\<And>x. x \<in> set xs \<Longrightarrow> P x) \<Longrightarrow> filter P xs = xs"
  by (induction xs) auto

lemma distinct_map_filter_sub: "distinct (map f xs) \<Longrightarrow> distinct (map f (filter P xs))"
  by (induction xs) auto

lemma map_if_filter_neg:
  "filter (\<lambda>x. \<not> P x) (map (\<lambda>x. if P x then f x else x) xs) =
     filter (\<lambda>x. \<not> P x) xs"
  if "\<And>x. P x \<Longrightarrow> P (f x)"
  using that by (induction xs) auto

lemma list_all_filter_sub: "list_all P xs \<Longrightarrow> list_all P (filter Q xs)"
  by (induction xs) auto

lemma length_filter_imp_le:
  "(\<And>x. x \<in> set xs \<Longrightarrow> P x \<Longrightarrow> Q x) \<Longrightarrow> length (filter P xs) \<le> length (filter Q xs)"
  by (induction xs) (auto simp: le_SucI)

text \<open>The first row of a query result: \<open>QueryRow(...).Scan\<close> without and with a row.\<close>

definition first_row :: "'a list \<Rightarrow> 'a option" where
  "first_row xs = (case xs of [] \<Rightarrow> None | x # _ \<Rightarrow> Some x)"

lemma first_row_simps [simp]: "first_row [] = None" "first_row (x # xs) = Some x"
  by (simp_all add: first_row_def)

lemma first_row_SomeD: "first_row xs = Some x \<Longrightarrow> x \<in> set xs"
  by (cases xs) auto

lemma first_row_filterD: "first_row (filter P xs) = Some x \<Longrightarrow> x \<in> set xs \<and> P x"
  by (auto dest!: first_row_SomeD)

lemma first_row_None_iff [simp]: "first_row xs = None \<longleftrightarrow> xs = []"
  by (cases xs) auto

lemma first_row_filter_distinct:
  assumes "distinct (map k xs)" and "x \<in> set xs"
  shows "filter (\<lambda>y. k y = k x) xs = [x]"
  using assms
proof (induction xs)
  case (Cons y ys)
  show ?case
  proof (cases "x = y")
    case True
    with Cons.prems have "filter (\<lambda>z. k z = k x) ys = []"
      by (auto simp: filter_empty_conv image_iff)
    with True show ?thesis by simp
  next
    case False
    with Cons.prems have "k y \<noteq> k x" by auto
    with False Cons show ?thesis by simp
  qed
qed simp

section \<open>Machine integers\<close>

type_synonym u16 = "16 word"
type_synonym u64 = "64 word"

abbreviation "max_int64 \<equiv> (9223372036854775807 :: int)"
abbreviation "min_int64 \<equiv> (-9223372036854775808 :: int)"

text \<open>Go's integer division and remainder truncate towards zero.\<close>

definition quot :: "int \<Rightarrow> int \<Rightarrow> int" where
  "quot a b = sgn a * sgn b * (\<bar>a\<bar> div \<bar>b\<bar>)"

definition remnd :: "int \<Rightarrow> int \<Rightarrow> int" where
  "remnd a b = a - quot a b * b"

lemma quot_nonneg [simp]: "0 \<le> a \<Longrightarrow> 0 < b \<Longrightarrow> quot a b = a div b"
  by (cases "a = 0") (simp_all add: quot_def)

lemma remnd_nonneg [simp]: "0 \<le> a \<Longrightarrow> 0 < b \<Longrightarrow> remnd a b = a mod b"
  by (simp add: remnd_def minus_div_mult_eq_mod)

end
