(* ===== verification/GoText.thy ===== *)
theory GoText
  imports Prelude "HOL-Library.Char_ord"
begin

text \<open>
  What the program uses of Go's string packages: decimal numbers (\<open>strconv\<close>, \<open>fmt\<close>),
  UTF-8 decoding (\<open>range\<close> over a string, \<open>unicode/utf8\<close>), searching and splitting
  (\<open>strings\<close>), and the byte order on text that SQLite compares by.
\<close>

section \<open>Decimal digits\<close>

abbreviation byte_of :: "char \<Rightarrow> nat" where
  "byte_of c \<equiv> of_char c"

definition digit_char :: "nat \<Rightarrow> char" where
  "digit_char n = char_of (48 + n)"

definition is_digit :: "char \<Rightarrow> bool" where
  "is_digit c \<longleftrightarrow> 48 \<le> byte_of c \<and> byte_of c \<le> 57"

definition digit_val :: "char \<Rightarrow> nat" where
  "digit_val c = byte_of c - 48"

lemma byte_digit_char: "n < 10 \<Longrightarrow> byte_of (digit_char n) = 48 + n"
  by (simp add: digit_char_def)

lemma is_digit_digit_char [simp]: "n < 10 \<Longrightarrow> is_digit (digit_char n)"
  by (simp add: is_digit_def byte_digit_char)

lemma digit_val_digit_char [simp]: "n < 10 \<Longrightarrow> digit_val (digit_char n) = n"
  by (simp add: digit_val_def byte_digit_char)

lemma digit_char_neq [simp]:
  "n < 10 \<Longrightarrow> byte_of c < 48 \<or> 57 < byte_of c \<Longrightarrow> digit_char n \<noteq> c"
  using byte_digit_char [of n] by auto

fun show_nat :: "nat \<Rightarrow> string" where
  "show_nat n = (if n < 10 then [digit_char n] else show_nat (n div 10) @ [digit_char (n mod 10)])"

declare show_nat.simps [simp del]

lemma show_nat_small: "n < 10 \<Longrightarrow> show_nat n = [digit_char n]"
  by (simp add: show_nat.simps)

lemma show_nat_nonempty [simp]: "show_nat n \<noteq> []"
  by (subst show_nat.simps) simp

lemma show_nat_digits: "list_all is_digit (show_nat n)"
proof (induction n rule: show_nat.induct)
  case (1 n)
  then show ?case by (cases "n < 10") (simp_all add: show_nat.simps [of n])
qed

text \<open>Reading a run of digits, most significant first.\<close>

definition digits_val :: "nat \<Rightarrow> string \<Rightarrow> nat" where
  "digits_val acc s = foldl (\<lambda>a c. a * 10 + digit_val c) acc s"

lemma digits_val_simps [simp]:
  "digits_val a [] = a"
  "digits_val a (c # s) = digits_val (a * 10 + digit_val c) s"
  "digits_val a (s @ t) = digits_val (digits_val a s) t"
  by (simp_all add: digits_val_def)

lemma digits_val_show_nat: "digits_val 0 (show_nat n) = n"
proof (induction n rule: show_nat.induct)
  case (1 n)
  then show ?case by (cases "n < 10") (simp_all add: show_nat.simps [of n])
qed

lemma show_nat_inj: "show_nat m = show_nat n \<Longrightarrow> m = n"
  by (metis digits_val_show_nat)

text \<open>\<open>strconv.FormatInt(v, 10)\<close> and \<open>strconv.ParseInt(s, 10, 64)\<close>.\<close>

definition format_int :: "int \<Rightarrow> string" where
  "format_int v = (if v < 0 then CHR ''-'' # show_nat (nat (- v)) else show_nat (nat v))"

definition parse_uint :: "string \<Rightarrow> nat option" where
  "parse_uint s = (if s \<noteq> [] \<and> list_all is_digit s then Some (digits_val 0 s) else None)"

definition parse_int64 :: "string \<Rightarrow> int option" where
  "parse_int64 s =
     (case s of
        [] \<Rightarrow> None
      | c # rest \<Rightarrow>
          (let neg = (c = CHR ''-'');
               body = (if c = CHR ''-'' \<or> c = CHR ''+'' then rest else s)
           in case parse_uint body of
                None \<Rightarrow> None
              | Some u \<Rightarrow>
                  (if \<not> neg \<and> int u \<le> max_int64 then Some (int u)
                   else if neg \<and> min_int64 \<le> - int u then Some (- int u)
                   else None)))"

lemma parse_uint_show_nat [simp]: "parse_uint (show_nat n) = Some n"
  by (simp add: parse_uint_def show_nat_digits digits_val_show_nat)

lemma show_nat_hd_digit: "\<exists>c rest. show_nat n = c # rest \<and> is_digit c"
  using show_nat_digits [of n] by (cases "show_nat n") auto

lemma parse_format_int64:
  assumes "min_int64 \<le> v" and "v \<le> max_int64"
  shows "parse_int64 (format_int v) = Some v"
proof (cases "v < 0")
  case True
  with assms show ?thesis by (simp add: parse_int64_def format_int_def)
next
  case False
  obtain c rest where c: "show_nat (nat v) = c # rest" "is_digit c"
    using show_nat_hd_digit by blast
  then have "c \<noteq> CHR ''-''" "c \<noteq> CHR ''+''" by (auto simp: is_digit_def)
  with False assms c parse_uint_show_nat [of "nat v"] show ?thesis
    by (simp add: parse_int64_def format_int_def)
qed

text \<open>\<open>appendInt\<close> of package \<open>time\<close>: a number padded with zeros to a width.\<close>

definition append_int :: "int \<Rightarrow> nat \<Rightarrow> string" where
  "append_int x w =
     (if x < 0 then ''-'' else []) @
     (let s = show_nat (nat \<bar>x\<bar>) in replicate (w - length s) (CHR ''0'') @ s)"

lemma zero_digit_char: "CHR ''0'' = digit_char 0"
proof -
  have "byte_of (CHR ''0'') = 48" by simp
  then show ?thesis by (metis add.right_neutral char_of_char digit_char_def)
qed

text \<open>The last \<open>w\<close> digits of a number, zeros in front: what padding gives when they suffice.\<close>

primrec pad_digits :: "nat \<Rightarrow> nat \<Rightarrow> string" where
  "pad_digits 0 n = []"
| "pad_digits (Suc w) n = pad_digits w (n div 10) @ [digit_char (n mod 10)]"

lemma pad_digits_0 [simp]: "pad_digits w 0 = replicate w (digit_char 0)"
  by (induction w) (simp_all add: replicate_append_same)

lemma length_pad_digits [simp]: "length (pad_digits w n) = w"
  by (induction w arbitrary: n) simp_all

lemma pad_digits_is_digit: "list_all is_digit (pad_digits w n)"
  by (induction w arbitrary: n) simp_all

lemma pad_digits_show_nat:
  "n < 10 ^ Suc w \<Longrightarrow>
     replicate (Suc w - length (show_nat n)) (digit_char 0) @ show_nat n = pad_digits (Suc w) n"
proof (induction w arbitrary: n)
  case 0
  then show ?case by (simp add: show_nat_small)
next
  case (Suc w)
  show ?case
  proof (cases "n < 10")
    case True
    then show ?thesis by (simp add: show_nat_small replicate_append_same)
  next
    case False
    from Suc.prems have "n div 10 < 10 ^ Suc w" by auto
    then have "replicate (Suc w - length (show_nat (n div 10))) (digit_char 0) @
        show_nat (n div 10) = pad_digits (Suc w) (n div 10)"
      by (rule Suc.IH)
    with False show ?thesis by (simp add: show_nat.simps [of n])
  qed
qed

lemma append_int_pad:
  "0 \<le> x \<Longrightarrow> x < 10 ^ Suc w \<Longrightarrow> append_int x (Suc w) = pad_digits (Suc w) (nat x)"
  using pad_digits_show_nat [of "nat x" w]
  by (simp add: append_int_def zero_digit_char Let_def nat_less_iff)

lemma append_int_2: "0 \<le> x \<Longrightarrow> x < 100 \<Longrightarrow> append_int x 2 = pad_digits 2 (nat x)"
  using append_int_pad [of x 1] by (simp add: numeral_2_eq_2 del: pad_digits.simps)

lemma append_int_4: "0 \<le> x \<Longrightarrow> x < 10000 \<Longrightarrow> append_int x 4 = pad_digits 4 (nat x)"
  using append_int_pad [of x 3] by (simp del: pad_digits.simps)

lemma digits_val_pad: "digits_val a (pad_digits w n) = a * 10 ^ w + n mod 10 ^ w"
proof (induction w arbitrary: n a)
  case (Suc w)
  have "n mod (10 * 10 ^ w) = 10 * (n div 10 mod 10 ^ w) + n mod 10"
    by (rule mod_mult2_eq)
  with Suc show ?case by (simp add: algebra_simps)
qed simp

section \<open>Searching and splitting\<close>

text \<open>\<open>strings.HasPrefix\<close>, \<open>strings.HasSuffix\<close>, \<open>strings.Contains\<close>, \<open>strings.ContainsAny\<close>.\<close>

definition has_prefix :: "string \<Rightarrow> string \<Rightarrow> bool" where
  "has_prefix s p \<longleftrightarrow> take (length p) s = p"

definition has_suffix :: "string \<Rightarrow> string \<Rightarrow> bool" where
  "has_suffix s p \<longleftrightarrow> length p \<le> length s \<and> drop (length s - length p) s = p"

fun contains_str :: "string \<Rightarrow> string \<Rightarrow> bool" where
  "contains_str s p = (has_prefix s p \<or> (case s of [] \<Rightarrow> False | _ # t \<Rightarrow> contains_str t p))"

declare contains_str.simps [simp del]

definition contains_any :: "string \<Rightarrow> string \<Rightarrow> bool" where
  "contains_any s cs \<longleftrightarrow> list_ex (\<lambda>c. c \<in> set cs) s"

lemma has_prefix_append [simp]: "has_prefix (p @ s) p"
  by (simp add: has_prefix_def)

lemma has_prefix_iff: "has_prefix s p \<longleftrightarrow> (\<exists>t. s = p @ t)"
  by (metis append_take_drop_id has_prefix_append has_prefix_def)

lemma has_suffix_append [simp]: "has_suffix (s @ p) p"
  by (simp add: has_suffix_def)

lemma contains_str_iff: "contains_str s p \<longleftrightarrow> (\<exists>a b. s = a @ p @ b)"
proof (induction s)
  case Nil
  show ?case by (subst contains_str.simps) (auto simp: has_prefix_iff)
next
  case (Cons c s)
  have "contains_str (c # s) p \<longleftrightarrow> has_prefix (c # s) p \<or> (\<exists>a b. s = a @ p @ b)"
    by (subst contains_str.simps) (simp add: Cons.IH)
  also have "\<dots> \<longleftrightarrow> (\<exists>a b. c # s = a @ p @ b)"
    unfolding has_prefix_iff by (metis append_Cons append_Nil list.exhaust list.inject)
  finally show ?case .
qed

lemma contains_char_iff: "contains_str s [c] \<longleftrightarrow> c \<in> set s"
  by (auto simp: contains_str_iff in_set_conv_decomp)

lemma contains_any_iff: "contains_any s cs \<longleftrightarrow> set s \<inter> set cs \<noteq> {}"
  by (auto simp: contains_any_def list_ex_iff)

text \<open>\<open>strings.Split(s, sep)\<close> for a one-byte separator, and \<open>strings.Join\<close>.\<close>

fun split_on :: "char \<Rightarrow> string \<Rightarrow> string list" where
  "split_on c [] = [[]]"
| "split_on c (x # xs) =
     (if x = c then [] # split_on c xs
      else (case split_on c xs of [] \<Rightarrow> [[x]] | p # ps \<Rightarrow> (x # p) # ps))"

fun join_with :: "string \<Rightarrow> string list \<Rightarrow> string" where
  "join_with sep [] = []"
| "join_with sep [p] = p"
| "join_with sep (p # q # ps) = p @ sep @ join_with sep (q # ps)"

lemma split_on_nonempty [simp]: "split_on c s \<noteq> []"
  by (induction s) (auto split: list.splits)

lemma split_on_no_sep: "c \<notin> set p \<Longrightarrow> split_on c p = [p]"
  by (induction p) auto

lemma split_on_sep: "c \<notin> set p \<Longrightarrow> split_on c (p @ c # s) = p # split_on c s"
  by (induction p) auto

lemma split_join:
  "ps \<noteq> [] \<Longrightarrow> list_all (\<lambda>p. c \<notin> set p) ps \<Longrightarrow> split_on c (join_with [c] ps) = ps"
  by (induction "[c]" ps rule: join_with.induct) (auto simp: split_on_no_sep split_on_sep)

section \<open>The byte order on text\<close>

text \<open>SQLite's default (BINARY) collation: \<open>memcmp\<close>, a proper prefix comes first.\<close>

fun text_less :: "string \<Rightarrow> string \<Rightarrow> bool" where
  "text_less [] [] = False"
| "text_less [] (_ # _) = True"
| "text_less (_ # _) [] = False"
| "text_less (a # s) (b # t) =
     (byte_of a < byte_of b \<or> (a = b \<and> text_less s t))"

lemma text_less_irrefl [simp]: "\<not> text_less s s"
  by (induction s) auto

lemma text_less_trans: "text_less s t \<Longrightarrow> text_less t u \<Longrightarrow> text_less s u"
proof (induction s t arbitrary: u rule: text_less.induct)
  case (2 c s)
  then show ?case by (cases u) auto
next
  case (4 a s b t)
  then show ?case by (cases u) auto
qed auto

lemma text_less_linear: "text_less s t \<or> s = t \<or> text_less t s"
proof (induction s t rule: text_less.induct)
  case (4 a s b t)
  then show ?case
    by (cases "byte_of a" "byte_of b" rule: linorder_cases) auto
qed auto

lemma digit_char_eq_iff: "m < 10 \<Longrightarrow> n < 10 \<Longrightarrow> digit_char m = digit_char n \<longleftrightarrow> m = n"
  by (metis digit_val_digit_char)

lemma less_by_digit: "(m :: nat) < n \<longleftrightarrow> m div 10 < n div 10 \<or> (m div 10 = n div 10 \<and> m mod 10 < n mod 10)"
proof -
  define q r q' r' where "q = m div 10" "r = m mod 10" "q' = n div 10" "r' = n mod 10"
  then have "m = 10 * q + r" "r < 10" "n = 10 * q' + r'" "r' < 10" by auto
  then show ?thesis unfolding q_r_q'_r'_def [symmetric] by auto
qed

lemma eq_by_digit: "(m :: nat) = n \<longleftrightarrow> m div 10 = n div 10 \<and> m mod 10 = n mod 10"
  by (metis div_mult_mod_eq)

text \<open>Numbers of the same number of digits compare as text the way they compare as numbers.\<close>

lemma text_less_pad:
  "m < 10 ^ w \<Longrightarrow> n < 10 ^ w \<Longrightarrow>
     text_less (pad_digits w m @ s) (pad_digits w n @ t) \<longleftrightarrow> m < n \<or> (m = n \<and> text_less s t)"
proof (induction w arbitrary: m n s t)
  case (Suc w)
  have "m div 10 < 10 ^ w" "n div 10 < 10 ^ w" using Suc.prems by auto
  then have "text_less (pad_digits (Suc w) m @ s) (pad_digits (Suc w) n @ t) \<longleftrightarrow>
      m div 10 < n div 10 \<or>
      (m div 10 = n div 10 \<and> (m mod 10 < n mod 10 \<or> (m mod 10 = n mod 10 \<and> text_less s t)))"
    by (simp add: Suc.IH byte_digit_char digit_char_eq_iff)
  then show ?case
    using less_by_digit [of m n] eq_by_digit [of m n] by blast
qed simp

lemma text_less_digits_2:
  assumes "0 \<le> a" "a < 100" "0 \<le> b" "b < 100"
  shows "text_less (append_int a 2 @ s) (append_int b 2 @ t) \<longleftrightarrow>
           a < b \<or> (a = b \<and> text_less s t)"
  using assms by (auto simp: append_int_2 text_less_pad nat_less_iff)

lemma text_less_digits_4:
  assumes "0 \<le> a" "a < 10000" "0 \<le> b" "b < 10000"
  shows "text_less (append_int a 4 @ s) (append_int b 4 @ t) \<longleftrightarrow>
           a < b \<or> (a = b \<and> text_less s t)"
  using assms by (auto simp: append_int_4 text_less_pad nat_less_iff)

section \<open>UTF-8\<close>

text \<open>
  One step of Go's UTF-8 decoder: the code point at the front of a string and the number of
  bytes it takes, or \<^const>\<open>None\<close> where the bytes are not valid UTF-8 (truncated or overlong
  sequences, surrogates, code points above U+10FFFF). A loop over such a string sees the
  replacement character U+FFFD and advances by one byte.
\<close>

definition in_range :: "nat \<Rightarrow> nat \<Rightarrow> char \<Rightarrow> bool" where
  "in_range lo hi c \<longleftrightarrow> lo \<le> byte_of c \<and> byte_of c \<le> hi"

definition decode_rune :: "string \<Rightarrow> (nat \<times> nat) option" where
  "decode_rune s =
     (case s of
        [] \<Rightarrow> None
      | a # t \<Rightarrow>
          (let x = byte_of a in
           if x < 128 then Some (x, 1)
           else if 194 \<le> x \<and> x \<le> 223 then
             (case t of b # _ \<Rightarrow>
                if in_range 128 191 b then Some ((x - 192) * 64 + (byte_of b - 128), 2) else None
              | _ \<Rightarrow> None)
           else if 224 \<le> x \<and> x \<le> 239 then
             (case t of b # c # _ \<Rightarrow>
                if in_range (if x = 224 then 160 else 128) (if x = 237 then 159 else 191) b \<and>
                   in_range 128 191 c
                then Some ((x - 224) * 4096 + (byte_of b - 128) * 64 + (byte_of c - 128), 3) else None
              | _ \<Rightarrow> None)
           else if 240 \<le> x \<and> x \<le> 244 then
             (case t of b # c # d # _ \<Rightarrow>
                if in_range (if x = 240 then 144 else 128) (if x = 244 then 143 else 191) b \<and>
                   in_range 128 191 c \<and> in_range 128 191 d
                then Some ((x - 240) * 262144 + (byte_of b - 128) * 4096 +
                           (byte_of c - 128) * 64 + (byte_of d - 128), 4) else None
              | _ \<Rightarrow> None)
           else None))"

lemma decode_rune_size: "decode_rune s = Some (r, n) \<Longrightarrow> 1 \<le> n \<and> s \<noteq> []"
  by (auto simp: decode_rune_def Let_def split: list.splits if_splits)

definition rune_error :: nat where
  "rune_error = 65533"

text \<open>\<open>for _, r := range s\<close>; \<open>utf8.ValidString\<close>; \<open>utf8.RuneCountInString\<close>.\<close>

function runes :: "string \<Rightarrow> nat list" where
  "runes s =
     (if s = [] then []
      else case decode_rune s of
             Some (r, n) \<Rightarrow> r # runes (drop n s)
           | None \<Rightarrow> rune_error # runes (drop 1 s))"
  by pat_completeness auto
termination
  by (relation "measure length") (auto dest: decode_rune_size)

declare runes.simps [simp del]

function valid_utf8 :: "string \<Rightarrow> bool" where
  "valid_utf8 s =
     (if s = [] then True
      else case decode_rune s of
             Some (r, n) \<Rightarrow> valid_utf8 (drop n s)
           | None \<Rightarrow> False)"
  by pat_completeness auto
termination
  by (relation "measure length") (auto dest: decode_rune_size)

declare valid_utf8.simps [simp del]

definition rune_count :: "string \<Rightarrow> nat" where
  "rune_count s = length (runes s)"

lemma runes_Nil [simp]: "runes [] = []" and valid_utf8_Nil [simp]: "valid_utf8 []"
  by (simp_all add: runes.simps valid_utf8.simps)

lemma decode_rune_ascii: "byte_of c < 128 \<Longrightarrow> decode_rune (c # s) = Some (byte_of c, 1)"
  by (simp add: decode_rune_def)

lemma runes_ascii_Cons: "byte_of c < 128 \<Longrightarrow> runes (c # s) = byte_of c # runes s"
  by (subst runes.simps) (simp add: decode_rune_ascii)

lemma valid_utf8_ascii_Cons: "byte_of c < 128 \<Longrightarrow> valid_utf8 (c # s) = valid_utf8 s"
  by (subst valid_utf8.simps) (simp add: decode_rune_ascii)

definition ascii :: "string \<Rightarrow> bool" where
  "ascii s \<longleftrightarrow> list_all (\<lambda>c. byte_of c < 128) s"

lemma runes_ascii: "ascii s \<Longrightarrow> runes s = map byte_of s"
  by (induction s) (auto simp: ascii_def runes_ascii_Cons)

lemma valid_utf8_ascii: "ascii s \<Longrightarrow> valid_utf8 s"
  by (induction s) (auto simp: ascii_def valid_utf8_ascii_Cons)

lemma rune_count_ascii: "ascii s \<Longrightarrow> rune_count s = length s"
  by (simp add: rune_count_def runes_ascii)

text \<open>A code point below 128 comes from the byte of that value, in valid and invalid text alike.\<close>

lemma decode_rune_small:
  "decode_rune (c # s) = Some (r, n) \<Longrightarrow> r < 128 \<Longrightarrow> byte_of c < 128"
  by (auto simp: decode_rune_def Let_def in_range_def split: list.splits if_splits)

lemma runes_all_ascii: "list_all (\<lambda>r. r < 128) (runes s) \<Longrightarrow> ascii s"
proof (induction s)
  case (Cons c s)
  have c: "byte_of c < 128"
  proof (rule ccontr)
    assume "\<not> byte_of c < 128"
    then have "\<not> list_all (\<lambda>r. r < 128) (runes (c # s))"
      by (subst runes.simps)
        (auto simp: rune_error_def split: option.splits dest: decode_rune_small)
    with Cons.prems show False by simp
  qed
  with Cons show ?case by (simp add: runes_ascii_Cons ascii_def)
qed (simp add: ascii_def)

text \<open>
  A loop that checks every code point of a string for membership in an ASCII alphabet
  accepts exactly the strings whose bytes are all in it.
\<close>

lemma runes_in_ascii_alphabet:
  assumes "ascii al"
  shows "list_all (\<lambda>r. r \<in> byte_of ` set al) (runes s) \<longleftrightarrow> set s \<subseteq> set al"
proof
  assume l: "list_all (\<lambda>r. r \<in> byte_of ` set al) (runes s)"
  have "list_all (\<lambda>r. r < 128) (runes s)"
    using l assms by (auto simp: ascii_def list_all_iff)
  then have "runes s = map byte_of s" by (rule runes_ascii [OF runes_all_ascii])
  with l show "set s \<subseteq> set al" by (auto simp: list_all_iff)
next
  assume s: "set s \<subseteq> set al"
  with assms have "ascii s" by (auto simp: ascii_def list_all_iff)
  with s show "list_all (\<lambda>r. r \<in> byte_of ` set al) (runes s)"
    by (auto simp: runes_ascii list_all_iff)
qed

lemma rune_count_pos: "s \<noteq> [] \<Longrightarrow> 0 < rune_count s"
  unfolding rune_count_def by (subst runes.simps) (simp split: option.splits prod.splits)

lemma rune_count_0_iff: "rune_count s = 0 \<longleftrightarrow> s = []"
  using rune_count_pos by (cases s) (auto simp: rune_count_def)

lemma rune_count_le_length: "rune_count s \<le> length s"
proof (induction s rule: runes.induct)
  case (1 s)
  show ?case
  proof (cases "s = []")
    case False
    show ?thesis
    proof (cases "decode_rune s")
      case None
      have "length (runes (drop 1 s)) \<le> length (drop 1 s)"
        using "1.IH"(1) [OF False None] by (simp add: rune_count_def)
      moreover have "length (drop 1 s) < length s" using False by (cases s) auto
      ultimately have "length (runes (drop 1 s)) < length s" by linarith
      then show ?thesis
        using False None by (simp add: rune_count_def runes.simps [of s])
    next
      case (Some p)
      obtain r n where p: "p = (r, n)" by (cases p)
      with Some have n: "1 \<le> n" by (auto dest: decode_rune_size)
      have "length (runes (drop n s)) \<le> length (drop n s)"
        using "1.IH"(2) [OF False Some p [symmetric]] by (simp add: rune_count_def)
      moreover have "length (drop n s) < length s" using n False by (cases s) auto
      ultimately have "length (runes (drop n s)) < length s" by linarith
      then show ?thesis
        using False Some p by (simp add: rune_count_def runes.simps [of s])
    qed
  qed (simp add: rune_count_def)
qed

end
