(* ===== verification/GoTime.thy ===== *)
theory GoTime
  imports GoText "HOL-Library.Monad_Syntax"
begin

text \<open>
  What the program uses of Go's package \<open>time\<close>: instants in nanoseconds since the Unix epoch
  with the location they are displayed in, durations in nanoseconds (an \<open>int64\<close>; subtraction
  of instants saturates), the proleptic Gregorian calendar, and the RFC 3339 layout in both
  directions. Monotonic clock readings are not modelled: every comparison is of wall times.
\<close>

section \<open>Durations\<close>

definition second :: int where "second = 1000000000"
definition minute :: int where "minute = 60 * second"
definition hour :: int where "hour = 60 * minute"

lemmas duration_defs = hour_def minute_def second_def

section \<open>The calendar\<close>

definition leap :: "int \<Rightarrow> bool" where
  "leap y \<longleftrightarrow> y mod 4 = 0 \<and> (y mod 100 \<noteq> 0 \<or> y mod 400 = 0)"

text \<open>Days from 1 January of year 1 to 1 January of year \<open>y\<close>, and to the first of a month.\<close>

definition days_before_year :: "int \<Rightarrow> int" where
  "days_before_year y = 365 * (y - 1) + (y - 1) div 4 - (y - 1) div 100 + (y - 1) div 400"

definition days_before_month :: "bool \<Rightarrow> int \<Rightarrow> int" where
  "days_before_month l m =
     (if m \<le> 1 then 0 else if m = 2 then 31
      else (if l then 1 else 0) +
        (if m = 3 then 59 else if m = 4 then 90 else if m = 5 then 120 else if m = 6 then 151
         else if m = 7 then 181 else if m = 8 then 212 else if m = 9 then 243
         else if m = 10 then 273 else if m = 11 then 304 else if m = 12 then 334 else 365))"

definition days_in_month :: "int \<Rightarrow> int \<Rightarrow> int" where
  "days_in_month y m = days_before_month (leap y) (m + 1) - days_before_month (leap y) m"

abbreviation "unix_epoch_days \<equiv> (719162 :: int)"

lemma unix_epoch_days: "days_before_year 1970 = unix_epoch_days"
  by (simp add: days_before_year_def)

definition days_of_date :: "int \<Rightarrow> int \<Rightarrow> int \<Rightarrow> int" where
  "days_of_date y m d =
     days_before_year y + days_before_month (leap y) m + (d - 1) - unix_epoch_days"

text \<open>The inverse: estimate the year from the mean length, then correct by one.\<close>

definition year_of_day :: "int \<Rightarrow> int" where
  "year_of_day n =
     (let e = (400 * n) div 146097 in
      if days_before_year (e + 2) \<le> n then e + 2 else e + 1)"

definition month_starts :: "bool \<Rightarrow> int list" where
  "month_starts l =
     (let k = (if l then 1 else 0)
      in [31, 59 + k, 90 + k, 120 + k, 151 + k, 181 + k, 212 + k, 243 + k, 273 + k, 304 + k, 334 + k])"

definition month_of_yday :: "bool \<Rightarrow> int \<Rightarrow> int" where
  "month_of_yday l n = 1 + int (length (filter (\<lambda>c. c \<le> n) (month_starts l)))"

definition date_of_days :: "int \<Rightarrow> int \<times> int \<times> int" where
  "date_of_days n =
     (let a = n + unix_epoch_days; y = year_of_day a; yd = a - days_before_year y;
          m = month_of_yday (leap y) yd
      in (y, m, yd - days_before_month (leap y) m + 1))"

lemma cycle_arith:
  assumes "n = 4 * a + (r :: int)" and "n = 100 * b + (s :: int)" and "n = 400 * c + (t :: int)"
  shows "400 * (365 * n + a - b + c) = 146097 * n - 100 * r + 4 * s - t"
proof -
  have "400 * (365 * n + a - b + c) = 146000 * n + 100 * (4 * a) - 4 * (100 * b) + 400 * c"
    by simp
  moreover have "4 * a = n - r" "100 * b = n - s" "400 * c = n - t" using assms by simp_all
  ultimately show ?thesis by simp
qed

lemma year_step_arith:
  "a = a' + i \<Longrightarrow> b = b' + j \<Longrightarrow> c = c' + k \<Longrightarrow>
     365 * y + a - b + c = 365 * (y - 1) + a' - b' + c' + 365 + i - j + (k :: int)"
  by simp

lemma leap_arith:
  "(C \<Longrightarrow> B) \<Longrightarrow> (B \<Longrightarrow> A) \<Longrightarrow>
     x + 365 + (if A then 1 else 0) - (if B then 1 else 0) + (if C then 1 else 0) =
     x + (if A \<and> (\<not> B \<or> C) then 366 else (365 :: int))"
  by (cases A; cases B; cases C) simp_all

lemma days_before_year_bounds:
  "146097 * (y - 1) - 699 \<le> 400 * days_before_year y"
  "400 * days_before_year y \<le> 146097 * (y - 1) + 396"
proof -
  define n where "n = y - 1"
  have "400 * (365 * n + n div 4 - n div 100 + n div 400) =
      146097 * n - 100 * (n mod 4) + 4 * (n mod 100) - n mod 400"
    by (rule cycle_arith) simp_all
  then have eq: "400 * days_before_year y =
      146097 * n - 100 * (n mod 4) + 4 * (n mod 100) - n mod 400"
    unfolding days_before_year_def n_def [symmetric] .
  have bounds: "0 \<le> n mod 4" "n mod 4 \<le> 3" "0 \<le> n mod 100" "n mod 100 \<le> 99"
    "0 \<le> n mod 400" "n mod 400 \<le> 399"
    using pos_mod_bound [of 4 n] pos_mod_bound [of 100 n] pos_mod_bound [of 400 n] by simp_all
  show "146097 * (y - 1) - 699 \<le> 400 * days_before_year y"
    and "400 * days_before_year y \<le> 146097 * (y - 1) + 396"
    unfolding eq n_def [symmetric] using bounds by simp_all
qed

lemma div_Suc_int: "0 < k \<Longrightarrow> y div k = (y - 1) div k + (if y mod k = 0 then 1 else 0)" for y k :: int
proof (cases "y mod k = 0")
  assume k: "0 < k"
  {
    case True
    then have "y - 1 = k * (y div k - 1) + (k - 1)"
      using mult_div_mod_eq [of k y] by (simp add: algebra_simps)
    then have "(y - 1) div k = y div k - 1" by (rule int_div_pos_eq) (use k in simp_all)
    with True show ?thesis by simp
  next
    case False
    have "y - 1 = k * (y div k) + (y mod k - 1)" by simp
    moreover have "0 < y mod k" using False k pos_mod_sign [of k y] by linarith
    ultimately have "(y - 1) div k = y div k"
      by (intro int_div_pos_eq [where r = "y mod k - 1"])
        (use k pos_mod_bound [of k y] in \<open>linarith+\<close>)
    with False show ?thesis by simp
  }
qed

lemma days_before_year_Suc:
  "days_before_year (y + 1) = days_before_year y + (if leap y then 366 else 365)"
proof -
  have quot: "y div 4 = (y - 1) div 4 + (if y mod 4 = 0 then 1 else 0)"
    "y div 100 = (y - 1) div 100 + (if y mod 100 = 0 then 1 else 0)"
    "y div 400 = (y - 1) div 400 + (if y mod 400 = 0 then 1 else 0)"
    by (rule div_Suc_int, simp)+
  have "y mod 400 mod 100 = y mod 100" "y mod 100 mod 4 = y mod 4"
    by (simp_all add: mod_mod_cancel)
  then have nest: "y mod 400 = 0 \<Longrightarrow> y mod 100 = 0" "y mod 100 = 0 \<Longrightarrow> y mod 4 = 0" by auto
  have "days_before_year (y + 1) = 365 * y + y div 4 - y div 100 + y div 400"
    by (simp add: days_before_year_def)
  also have "\<dots> = days_before_year y + 365 + (if y mod 4 = 0 then 1 else 0) -
      (if y mod 100 = 0 then 1 else 0) + (if y mod 400 = 0 then 1 else 0)"
    unfolding days_before_year_def by (rule year_step_arith) (rule quot)+
  also have "\<dots> = days_before_year y + (if leap y then 366 else 365)"
    unfolding leap_def by (rule leap_arith) (fact nest)+
  finally show ?thesis .
qed

lemma year_of_day_bounds:
  "days_before_year (year_of_day n) \<le> n" "n < days_before_year (year_of_day n + 1)"
proof -
  define e where "e = (400 * n) div 146097"
  have e: "146097 * e \<le> 400 * n" "400 * n < 146097 * e + 146097"
    using mult_div_mod_eq [of 146097 "400 * n"] pos_mod_sign [of 146097 "400 * n"]
      pos_mod_bound [of 146097 "400 * n"] by (simp_all add: e_def)
  have "400 * days_before_year (e + 1) \<le> 400 * n + 396"
    using days_before_year_bounds(2) [of "e + 1"] e by simp
  then have "days_before_year (e + 1) \<le> n" by linarith
  moreover have "400 * n < 400 * days_before_year (e + 3)"
    using days_before_year_bounds(1) [of "e + 3"] e by simp
  then have "n < days_before_year (e + 3)" by linarith
  ultimately show "days_before_year (year_of_day n) \<le> n"
    "n < days_before_year (year_of_day n + 1)"
    by (simp_all add: year_of_day_def e_def [symmetric] add.commute)
qed

lemma days_before_year_mono: "y \<le> z \<Longrightarrow> days_before_year y \<le> days_before_year z"
proof (induction z rule: int_ge_induct)
  case (step z)
  then show ?case by (simp add: days_before_year_Suc)
qed simp

lemma year_of_day_unique:
  assumes "days_before_year y \<le> n" and "n < days_before_year (y + 1)"
  shows "year_of_day n = y"
proof -
  have "\<not> year_of_day n < y"
    using days_before_year_mono [of "year_of_day n + 1" y] year_of_day_bounds(2) [of n] assms(1)
    by linarith
  moreover have "\<not> y < year_of_day n"
    using days_before_year_mono [of "y + 1" "year_of_day n"] year_of_day_bounds(1) [of n] assms(2)
    by linarith
  ultimately show ?thesis by linarith
qed

lemma year_of_day_mono: "m \<le> n \<Longrightarrow> year_of_day m \<le> year_of_day n"
  using days_before_year_mono [of "year_of_day n + 1" "year_of_day m"]
    year_of_day_bounds(1) [of m] year_of_day_bounds(2) [of n] by linarith

lemma month_of_yday_mono: "m \<le> n \<Longrightarrow> month_of_yday l m \<le> month_of_yday l n"
  by (auto simp: month_of_yday_def intro: length_filter_imp_le)

lemma month_of_yday_unique:
  assumes "1 \<le> m" "m \<le> 12" and "days_before_month l m \<le> n" and "n < days_before_month l (m + 1)"
  shows "month_of_yday l n = m"
proof -
  have "m = 1 \<or> m = 2 \<or> m = 3 \<or> m = 4 \<or> m = 5 \<or> m = 6 \<or> m = 7 \<or> m = 8 \<or> m = 9 \<or>
      m = 10 \<or> m = 11 \<or> m = 12" using assms(1,2) by arith
  then show ?thesis
    by (elim disjE; cases l)
      (use assms(3,4) in \<open>simp_all add: days_before_month_def month_of_yday_def month_starts_def\<close>)
qed

lemma month_of_yday_bounds:
  assumes "0 \<le> n" and "n < (if l then 366 else 365)"
  shows "1 \<le> month_of_yday l n \<and> month_of_yday l n \<le> 12 \<and>
    days_before_month l (month_of_yday l n) \<le> n \<and>
    n < days_before_month l (month_of_yday l n + 1)"
proof -
  have "\<exists>m. 1 \<le> m \<and> m \<le> 12 \<and> days_before_month l m \<le> n \<and> n < days_before_month l (m + 1)"
  proof (rule ccontr)
    assume no: "\<not> ?thesis"
    have step: "days_before_month l (m + 1) \<le> n"
      if "1 \<le> m" "m \<le> 12" "days_before_month l m \<le> n" for m
      using no that by force
    have "days_before_month l 1 \<le> n" using assms by (simp add: days_before_month_def)
    then have "days_before_month l 13 \<le> n"
      using step [of 1] step [of 2] step [of 3] step [of 4] step [of 5] step [of 6] step [of 7]
        step [of 8] step [of 9] step [of 10] step [of 11] step [of 12] by simp
    then show False using assms by (simp add: days_before_month_def split: if_splits)
  qed
  then show ?thesis using month_of_yday_unique by blast
qed

lemma days_before_month_range:
  "1 \<le> m \<Longrightarrow> m \<le> 12 \<Longrightarrow>
     0 \<le> days_before_month l m \<and> days_before_month l (m + 1) \<le> (if l then 366 else 365)"
  by (auto simp: days_before_month_def)

definition valid_date :: "int \<Rightarrow> int \<Rightarrow> int \<Rightarrow> bool" where
  "valid_date y m d \<longleftrightarrow> 1 \<le> m \<and> m \<le> 12 \<and> 1 \<le> d \<and> d \<le> days_in_month y m"

lemma date_of_days_valid:
  assumes "date_of_days n = (y, m, d)"
  shows "valid_date y m d" and "days_of_date y m d = n"
proof -
  define a where "a = n + unix_epoch_days"
  define yd where "yd = a - days_before_year y"
  have y: "y = year_of_day a" and m: "m = month_of_yday (leap y) yd"
    and d: "d = yd - days_before_month (leap y) m + 1"
    using assms by (auto simp: date_of_days_def Let_def a_def yd_def)
  have "0 \<le> yd" "yd < (if leap y then 366 else 365)"
    using year_of_day_bounds [of a] by (simp_all add: yd_def y days_before_year_Suc)
  note mb = month_of_yday_bounds [OF this, folded m]
  show "valid_date y m d" using mb by (simp add: valid_date_def days_in_month_def d)
  show "days_of_date y m d = n" by (simp add: days_of_date_def d yd_def a_def)
qed

lemma date_of_days_of_date:
  assumes "valid_date y m d"
  shows "date_of_days (days_of_date y m d) = (y, m, d)"
proof -
  define yd where "yd = days_before_month (leap y) m + (d - 1)"
  have m: "1 \<le> m" "m \<le> 12" and d: "1 \<le> d" "d \<le> days_in_month y m"
    using assms by (simp_all add: valid_date_def)
  have yd: "days_before_month (leap y) m \<le> yd" "yd < days_before_month (leap y) (m + 1)"
    using d by (simp_all add: yd_def days_in_month_def)
  with days_before_month_range [OF m, of "leap y"]
  have "0 \<le> yd" "yd < (if leap y then 366 else 365)" by linarith+
  then have "year_of_day (days_before_year y + yd) = y"
    by (intro year_of_day_unique) (simp_all add: days_before_year_Suc)
  moreover have "month_of_yday (leap y) yd = m" by (rule month_of_yday_unique [OF m yd])
  moreover have eq: "days_of_date y m d + unix_epoch_days = days_before_year y + yd"
    by (simp add: days_of_date_def yd_def)
  ultimately show ?thesis unfolding date_of_days_def Let_def eq by (simp add: yd_def)
qed

text \<open>Later days have later dates: years, then months, then days of the month.\<close>

lemma date_of_days_less:
  assumes "date_of_days a = (y, m, d)" and "date_of_days b = (y', m', d')"
  shows "a < b \<longleftrightarrow> y < y' \<or> (y = y' \<and> (m < m' \<or> (m = m' \<and> d < d')))"
proof -
  have dates: "days_of_date y m d = a" "days_of_date y' m' d' = b"
    using assms by (auto dest: date_of_days_valid(2))
  have imp: "u < u' \<or> (u = u' \<and> (v < v' \<or> (v = v' \<and> w < w')))"
    if uv: "date_of_days a = (u, v, w)" "date_of_days b = (u', v', w')" and lt: "a < b"
    for a b u v w u' v' w'
  proof (rule ccontr)
    assume no: "\<not> (u < u' \<or> (u = u' \<and> (v < v' \<or> (v = v' \<and> w < w'))))"
    have "u \<le> u'"
      using uv lt year_of_day_mono [of "a + unix_epoch_days" "b + unix_epoch_days"]
      by (auto simp: date_of_days_def Let_def)
    with no have u: "u' = u" by auto
    have "v \<le> v'"
      using uv lt u month_of_yday_mono by (auto simp: date_of_days_def Let_def)
    with no u have "v' = v" by auto
    with no u have "w' \<le> w" by auto
    moreover have "days_of_date u v w = a" "days_of_date u' v' w' = b"
      using uv by (auto dest: date_of_days_valid(2))
    ultimately show False using lt u \<open>v' = v\<close> by (simp add: days_of_date_def)
  qed
  consider "a < b" | "a = b" | "b < a" by linarith
  then show ?thesis
  proof cases
    case 1
    with imp [OF assms] show ?thesis by blast
  next
    case 2
    with assms show ?thesis by auto
  next
    case 3
    with imp [OF assms(2,1)] show ?thesis by auto
  qed
qed

section \<open>Instants\<close>

text \<open>
  A location matters to the program in two ways: for display, and because \<open>==\<close> on
  \<open>time.Time\<close> values compares locations as well as instants. \<open>UTC\<close> is Go's \<open>time.UTC\<close>; every
  other location (the server's local zone, the fixed zone of a parsed offset, an offset of
  \<open>+00:00\<close> included) is \<open>Zone off\<close> and never equal to it.
\<close>

datatype location = UTC | Zone int

record time =
  t_ns :: int
  t_loc :: location

definition unix_secs :: "time \<Rightarrow> int" where
  "unix_secs t = t_ns t div second"

definition loc_offset :: "location \<Rightarrow> int" where
  "loc_offset l = (case l of UTC \<Rightarrow> 0 | Zone off \<Rightarrow> off)"

definition time_add :: "time \<Rightarrow> int \<Rightarrow> time" where
  "time_add t d = t\<lparr>t_ns := t_ns t + d\<rparr>"

definition time_sub :: "time \<Rightarrow> time \<Rightarrow> int" where
  "time_sub t u = max min_int64 (min max_int64 (t_ns t - t_ns u))"

definition time_after :: "time \<Rightarrow> time \<Rightarrow> bool" where
  "time_after t u \<longleftrightarrow> t_ns u < t_ns t"

definition to_utc :: "time \<Rightarrow> time" where
  "to_utc t = t\<lparr>t_loc := UTC\<rparr>"

text \<open>\<open>time.Date(y, m, d, h, mi, s, ns, time.UTC)\<close> for in-range fields.\<close>

definition utc_date :: "int \<Rightarrow> int \<Rightarrow> int \<Rightarrow> int \<Rightarrow> int \<Rightarrow> int \<Rightarrow> int \<Rightarrow> time" where
  "utc_date y m d h mi s ns =
     \<lparr>t_ns = ((days_of_date y m d * 24 + h) * 60 + mi) * 60 * second + s * second + ns, t_loc = UTC\<rparr>"

text \<open>The zero \<open>time.Time\<close>: 1 January of year 1, UTC.\<close>

definition zero_time :: time where
  "zero_time = utc_date 1 1 1 0 0 0 0"

section \<open>The RFC 3339 layout\<close>

definition zone_suffix :: "int \<Rightarrow> string" where
  "zone_suffix off =
     (if off = 0 then ''Z''
      else (if off < 0 then ''-'' else ''+'') @
        append_int (\<bar>off\<bar> div 60 div 60) 2 @ '':'' @ append_int (\<bar>off\<bar> div 60 mod 60) 2)"

definition format_rfc3339 :: "time \<Rightarrow> string" where
  "format_rfc3339 t =
     (let secs = unix_secs t + loc_offset (t_loc t);
          (y, m, d) = date_of_days (secs div 86400);
          r = secs mod 86400
      in append_int y 4 @ ''-'' @ append_int m 2 @ ''-'' @ append_int d 2 @ ''T'' @
         append_int (r div 3600) 2 @ '':'' @ append_int (r mod 3600 div 60) 2 @ '':'' @
         append_int (r mod 60) 2 @ zone_suffix (loc_offset (t_loc t)))"

text \<open>
  \<open>time.Parse(time.RFC3339, s)\<close>. As in Go, the hour may have one digit, a fraction of a second
  is accepted after a period or a comma, and a zone offset may be up to 24 hours and 60
  minutes.
\<close>

definition getnum :: "bool \<Rightarrow> string \<Rightarrow> (int \<times> string) option" where
  "getnum fixed s =
     (case s of
        a # b # rest \<Rightarrow>
          if \<not> is_digit a then None
          else if is_digit b then Some (int (digit_val a * 10 + digit_val b), rest)
          else if fixed then None
          else Some (int (digit_val a), b # rest)
      | [a] \<Rightarrow> if is_digit a \<and> \<not> fixed then Some (int (digit_val a), []) else None
      | [] \<Rightarrow> None)"

definition get_year :: "string \<Rightarrow> (int \<times> string) option" where
  "get_year s =
     (if 4 \<le> length s \<and> list_all is_digit (take 4 s)
      then Some (int (digits_val 0 (take 4 s)), drop 4 s) else None)"

definition skip_char :: "char \<Rightarrow> string \<Rightarrow> string option" where
  "skip_char c s = (case s of [] \<Rightarrow> None | x # rest \<Rightarrow> if x = c then Some rest else None)"

definition get_fraction :: "string \<Rightarrow> int \<times> string" where
  "get_fraction s =
     (case s of
        p # d # rest \<Rightarrow>
          if (p = CHR ''.'' \<or> p = CHR '','') \<and> is_digit d then
            (let ds = takeWhile is_digit (d # rest); used = take 9 ds
             in (int (digits_val 0 used * 10 ^ (9 - length used)), dropWhile is_digit (d # rest)))
          else (0, s)
      | _ \<Rightarrow> (0, s))"

definition get_zone :: "string \<Rightarrow> (location \<times> string) option" where
  "get_zone s =
     (case s of
        [] \<Rightarrow> None
      | c # rest \<Rightarrow>
          if c = CHR ''Z'' then Some (UTC, rest)
          else if length s < 6 \<or> s ! 3 \<noteq> CHR '':'' then None
          else do {
            (hr, _) \<leftarrow> getnum True (take 2 (drop 1 s));
            (mm, _) \<leftarrow> getnum True (take 2 (drop 4 s));
            if hr > 24 \<or> mm > 60 then None
            else if c = CHR ''+'' then Some (Zone ((hr * 60 + mm) * 60), drop 6 s)
            else if c = CHR ''-'' then Some (Zone (- ((hr * 60 + mm) * 60)), drop 6 s)
            else None
          })"

definition parse_rfc3339 :: "string \<Rightarrow> time option" where
  "parse_rfc3339 s0 = do {
     (y, s1) \<leftarrow> get_year s0;
     s2 \<leftarrow> skip_char (CHR ''-'') s1;
     (m, s3) \<leftarrow> getnum True s2;
     s4 \<leftarrow> skip_char (CHR ''-'') s3;
     (d, s5) \<leftarrow> getnum True s4;
     s6 \<leftarrow> skip_char (CHR ''T'') s5;
     (h, s7) \<leftarrow> getnum False s6;
     s8 \<leftarrow> skip_char (CHR '':'') s7;
     (mi, s9) \<leftarrow> getnum True s8;
     s10 \<leftarrow> skip_char (CHR '':'') s9;
     (sec, s11) \<leftarrow> getnum True s10;
     (let (ns, s12) = get_fraction s11 in do {
       (loc, s13) \<leftarrow> get_zone s12;
       (if s13 = [] \<and> 1 \<le> m \<and> m \<le> 12 \<and> 1 \<le> d \<and> d \<le> days_in_month y m \<and>
           h < 24 \<and> mi < 60 \<and> sec < 60
        then Some ((time_add (utc_date y m d h mi sec ns) (- (loc_offset loc * second)))\<lparr>t_loc := loc\<rparr>)
        else None)
     })
   }"

text \<open>The instants whose UTC year has four digits, 0000 to 9999.\<close>

definition text_range :: "time \<Rightarrow> bool" where
  "text_range t \<longleftrightarrow> - 719528 * 86400 \<le> unix_secs t \<and> unix_secs t < 2932897 * 86400"

definition trunc_secs :: "time \<Rightarrow> time" where
  "trunc_secs t = \<lparr>t_ns = unix_secs t * second, t_loc = UTC\<rparr>"

lemma text_range_year:
  assumes "text_range t" and "date_of_days (unix_secs t div 86400) = (y, m, d)"
  shows "0 \<le> y" "y < 10000"
proof -
  have n: "- 719528 \<le> unix_secs t div 86400" "unix_secs t div 86400 < 2932897"
    using assms(1) by (auto simp: text_range_def)
  have "date_of_days (- 719529) = (- 1, 12, 31)" "date_of_days 2932897 = (10000, 1, 1)"
    using date_of_days_of_date [of "- 1" 12 31] date_of_days_of_date [of 10000 1 1]
    by (simp_all add: valid_date_def days_in_month_def days_before_month_def days_of_date_def
        days_before_year_def leap_def)
  then show "0 \<le> y" "y < 10000"
    using date_of_days_less [OF _ assms(2), of "- 719529" "- 1" 12 31]
      date_of_days_less [OF assms(2), of 2932897 10000 1 1] n
      date_of_days_valid(1) [OF assms(2)] by (auto simp: valid_date_def days_in_month_def
        days_before_month_def split: if_splits)
qed

lemma days_in_month_le: "days_in_month y m \<le> 31"
  by (simp add: days_in_month_def days_before_month_def)

lemma getnum_append_int [simp]:
  assumes "0 \<le> x" and "x < 100"
  shows "getnum fixed (append_int x 2 @ s) = Some (x, s)"
proof -
  have "nat x div 10 mod 10 = nat x div 10" using assms by auto
  then show ?thesis
    unfolding append_int_2 [OF assms] by (simp add: numeral_2_eq_2 getnum_def assms)
qed

lemma get_year_append_int [simp]:
  assumes "0 \<le> y" and "y < 10000"
  shows "get_year (append_int y 4 @ s) = Some (y, s)"
  using assms by (simp add: append_int_4 get_year_def pad_digits_is_digit digits_val_pad nat_less_iff)

lemma skip_char_Cons [simp]: "skip_char c (c # s) = Some s"
  by (simp add: skip_char_def)

lemma get_fraction_zone [simp]: "get_fraction ''Z'' = (0, ''Z'')"
  by (simp add: get_fraction_def)

lemma get_zone_Z [simp]: "get_zone ''Z'' = Some (UTC, [])"
  by (simp add: get_zone_def)

lemma clock_arith:
  "r = 3600 * h + b \<Longrightarrow> b = 60 * mi + s \<Longrightarrow> n = 86400 * q + r \<Longrightarrow>
     ((q * 24 + h) * 60 + mi) * 60 + s = (n :: int)"
  by simp

lemma unix_secs_clock:
  "((n div 86400 * 24 + n mod 86400 div 3600) * 60 + n mod 86400 mod 3600 div 60) * 60 +
     n mod 86400 mod 60 = (n :: int)"
proof (rule clock_arith)
  show "n mod 86400 = 3600 * (n mod 86400 div 3600) + n mod 86400 mod 3600" by simp
  have "n mod 86400 mod 3600 mod 60 = n mod 86400 mod 60" by (simp add: mod_mod_cancel)
  then show "n mod 86400 mod 3600 = 60 * (n mod 86400 mod 3600 div 60) + n mod 86400 mod 60"
    by (metis mult_div_mod_eq)
qed simp

text \<open>Formatting and parsing a UTC timestamp loses the fraction of a second and nothing else.\<close>

lemma parse_format_utc:
  assumes "text_range t"
  shows "parse_rfc3339 (format_rfc3339 (to_utc t)) = Some (trunc_secs t)"
proof -
  define n where "n = unix_secs t"
  obtain y m d where date: "date_of_days (n div 86400) = (y, m, d)"
    by (metis prod_cases3)
  note y = text_range_year [OF assms, folded n_def, OF date]
  have md: "1 \<le> m" "m \<le> 12" "1 \<le> d" "d \<le> days_in_month y m" and n: "days_of_date y m d = n div 86400"
    using date_of_days_valid [OF date] by (auto simp: valid_date_def)
  have "d \<le> 31" using md(4) days_in_month_le [of y m] by linarith
  define h mi s where "h = n mod 86400 div 3600" "mi = n mod 86400 mod 3600 div 60"
    "s = n mod 86400 mod 60"
  have hms: "0 \<le> h" "h < 24" "0 \<le> mi" "mi < 60" "0 \<le> s" "s < 60"
    by (simp_all add: h_mi_s_def div_less_iff_less_mult)
  have secs: "unix_secs (to_utc t) = n" by (simp add: n_def unix_secs_def to_utc_def)
  have fmt: "format_rfc3339 (to_utc t) =
      append_int y 4 @ ''-'' @ append_int m 2 @ ''-'' @ append_int d 2 @ ''T'' @
      append_int h 2 @ '':'' @ append_int mi 2 @ '':'' @ append_int s 2 @ ''Z''"
    unfolding format_rfc3339_def secs
    unfolding h_mi_s_def by (simp add: to_utc_def loc_offset_def date zone_suffix_def Let_def)
  have "((days_of_date y m d * 24 + h) * 60 + mi) * 60 * second + s * second = n * second"
    using unix_secs_clock [of n] unfolding n [symmetric] h_mi_s_def [symmetric]
    by (metis distrib_right)
  then show ?thesis
    using y md hms \<open>d \<le> 31\<close>
    by (simp add: fmt parse_rfc3339_def utc_date_def time_add_def loc_offset_def trunc_secs_def n_def)
qed

text \<open>Byte order on formatted UTC timestamps is the order of the instants, in whole seconds.\<close>

lemma less_by_clock:
  "(a :: int) < b \<longleftrightarrow> a div k < b div k \<or> (a div k = b div k \<and> a mod k < b mod k)" if "0 < k"
proof -
  have le: "a div k \<le> b div k" if "a < b" for a b :: int
    using that \<open>0 < k\<close> by (simp add: zdiv_mono1)
  have "a < b \<longleftrightarrow> a mod k < b mod k" if "a div k = b div k"
  proof -
    have "a = k * (a div k) + a mod k" "b = k * (a div k) + b mod k"
      using that by (metis mult_div_mod_eq)+
    then show ?thesis by linarith
  qed
  note same = this
  show ?thesis
  proof (cases "a div k" "b div k" rule: linorder_cases)
    case less
    with le [of b a] have "a < b" by (cases a b rule: linorder_cases) auto
    with less show ?thesis by simp
  next
    case equal
    with same show ?thesis by simp
  next
    case greater
    with le [of a b] have "\<not> a < b" by auto
    with greater show ?thesis by simp
  qed
qed

lemma text_less_format_utc:
  assumes "text_range t" and "text_range u"
  shows "text_less (format_rfc3339 (to_utc t)) (format_rfc3339 (to_utc u)) \<longleftrightarrow>
           unix_secs t < unix_secs u"
proof -
  define a b where "a = unix_secs t" "b = unix_secs u"
  obtain y m d where dt: "date_of_days (a div 86400) = (y, m, d)" by (metis prod_cases3)
  obtain y' m' d' where du: "date_of_days (b div 86400) = (y', m', d')" by (metis prod_cases3)
  define r r' where "r = a mod 86400" "r' = b mod 86400"
  have secs: "unix_secs (to_utc t) = a" "unix_secs (to_utc u) = b"
    by (simp_all add: a_b_def unix_secs_def to_utc_def)
  have y: "0 \<le> y" "y < 10000" "0 \<le> y'" "y' < 10000"
    using text_range_year [OF assms(1), folded a_b_def, OF dt]
      text_range_year [OF assms(2), folded a_b_def, OF du] by auto
  have md: "0 \<le> m" "m < 100" "0 \<le> d" "d < 100" "0 \<le> m'" "m' < 100" "0 \<le> d'" "d' < 100"
    using date_of_days_valid(1) [OF dt] date_of_days_valid(1) [OF du]
      days_in_month_le [of y m] days_in_month_le [of y' m'] by (auto simp: valid_date_def)
  have clock: "0 \<le> x div 3600" "x div 3600 < 100" "0 \<le> x mod 3600 div 60"
    "x mod 3600 div 60 < 100" "0 \<le> x mod 60" "x mod 60 < 100" if "0 \<le> x" "x < 86400" for x :: int
  proof -
    show "x div 3600 < 100" using that by (simp add: div_less_iff_less_mult)
    have "x mod 3600 < 3600" "x mod 60 < 60" by simp_all
    then show "x mod 3600 div 60 < 100" "x mod 60 < 100"
      by (simp_all add: div_less_iff_less_mult)
  qed (use that in \<open>simp_all add: pos_imp_zdiv_nonneg_iff\<close>)
  have rr: "0 \<le> r" "r < 86400" "0 \<le> r'" "r' < 86400" by (simp_all add: r_r'_def)
  have r: "r < r' \<longleftrightarrow> r div 3600 < r' div 3600 \<or> (r div 3600 = r' div 3600 \<and>
      (r mod 3600 div 60 < r' mod 3600 div 60 \<or>
       (r mod 3600 div 60 = r' mod 3600 div 60 \<and> r mod 60 < r' mod 60)))"
    using less_by_clock [of 3600 r r'] less_by_clock [of 60 "r mod 3600" "r' mod 3600"]
    by (simp add: mod_mod_cancel)
  have days: "a div 86400 = b div 86400 \<longleftrightarrow> y = y' \<and> m = m' \<and> d = d'"
    using dt du by (metis Pair_inject date_of_days_valid(2))
  have fmt: "format_rfc3339 (to_utc v) =
      append_int yv 4 @ CHR ''-'' # append_int mv 2 @ CHR ''-'' # append_int dv 2 @ CHR ''T'' #
      append_int (x div 3600) 2 @ CHR '':'' # append_int (x mod 3600 div 60) 2 @ CHR '':'' #
      append_int (x mod 60) 2 @ ''Z''"
    if "date_of_days (unix_secs v div 86400) = (yv, mv, dv)" "x = unix_secs v mod 86400" for v yv mv dv x
    using that by (simp add: format_rfc3339_def to_utc_def unix_secs_def loc_offset_def zone_suffix_def Let_def)
  have "text_less (format_rfc3339 (to_utc t)) (format_rfc3339 (to_utc u)) \<longleftrightarrow>
      (y < y' \<or> (y = y' \<and> (m < m' \<or> (m = m' \<and> d < d')))) \<or>
      (y = y' \<and> m = m' \<and> d = d' \<and> r < r')"
    unfolding fmt [OF dt [unfolded a_b_def] r_r'_def(1) [unfolded a_b_def]]
      fmt [OF du [unfolded a_b_def] r_r'_def(2) [unfolded a_b_def]] r
    using y md clock [OF rr(1,2)] clock [OF rr(3,4)]
    by (simp add: text_less_digits_4 text_less_digits_2) blast
  also have "\<dots> \<longleftrightarrow> a < b"
    using date_of_days_less [OF dt du] days less_by_clock [of 86400 a b]
    unfolding r_r'_def by auto
  finally show ?thesis by (simp add: a_b_def)
qed

end
