(* ===== verification/GoFloat.thy ===== *)
theory GoFloat
  imports GoText
begin

text \<open>
  The non-negative part of IEEE 754 double precision that the program computes with:
  conversion from integers, addition, multiplication, division (each correctly rounded, half to
  even) and truncation. A value is a fraction of naturals with a non-zero denominator. All
  values that occur are zero or between \<open>2 ^ -60\<close> and \<open>2 ^ 80\<close>, so neither subnormal numbers nor
  overflow to infinity arise.
\<close>

type_synonym f64 = "nat \<times> nat"

fun bit_len :: "nat \<Rightarrow> nat" where
  "bit_len n = (if n = 0 then 0 else Suc (bit_len (n div 2)))"

declare bit_len.simps [simp del]

text \<open>The exponent of the leading bit of \<open>n / d\<close>.\<close>

definition lead_exp :: "nat \<Rightarrow> nat \<Rightarrow> int" where
  "lead_exp n d =
     (let k = int (bit_len n) - int (bit_len d) in
      if (if 0 \<le> k then d * 2 ^ nat k \<le> n else d \<le> n * 2 ^ nat (- k)) then k else k - 1)"

definition round_half_even :: "nat \<Rightarrow> nat \<Rightarrow> nat" where
  "round_half_even n d =
     (let q = n div d; r = n mod d in
      if 2 * r < d \<or> (2 * r = d \<and> even q) then q else q + 1)"

definition f64_round :: "f64 \<Rightarrow> f64" where
  "f64_round x =
     (let (n, d) = x in
      if n = 0 then (0, 1)
      else (let e = lead_exp n d - 52 in
            if e \<le> 0 then (round_half_even (n * 2 ^ nat (- e)) d, 2 ^ nat (- e))
            else (round_half_even n (d * 2 ^ nat e) * 2 ^ nat e, 1)))"

definition f64_of_nat :: "nat \<Rightarrow> f64" where
  "f64_of_nat n = f64_round (n, 1)"

definition f64_add :: "f64 \<Rightarrow> f64 \<Rightarrow> f64" where
  "f64_add x y = f64_round (fst x * snd y + fst y * snd x, snd x * snd y)"

definition f64_mul :: "f64 \<Rightarrow> f64 \<Rightarrow> f64" where
  "f64_mul x y = f64_round (fst x * fst y, snd x * snd y)"

definition f64_div :: "f64 \<Rightarrow> f64 \<Rightarrow> f64" where
  "f64_div x y = f64_round (fst x * snd y, snd x * fst y)"

definition f64_trunc :: "f64 \<Rightarrow> nat" where
  "f64_trunc x = fst x div snd x"

text \<open>\<open>is_nat x k\<close>: the value of \<open>x\<close> is the natural number \<open>k\<close>.\<close>

definition is_nat :: "f64 \<Rightarrow> nat \<Rightarrow> bool" where
  "is_nat x k \<longleftrightarrow> 0 < snd x \<and> fst x = k * snd x"

lemma bit_len_bounds: "0 < n \<Longrightarrow> 2 ^ (bit_len n - 1) \<le> n \<and> n < 2 ^ bit_len n"
proof (induction n rule: bit_len.induct)
  case (1 n)
  show ?case
  proof (cases "n div 2 = 0")
    case True
    with 1 have "n = 1" by auto
    then show ?thesis by (simp add: bit_len.simps)
  next
    case False
    with 1 have IH: "2 ^ (bit_len (n div 2) - 1) \<le> n div 2" "n div 2 < 2 ^ bit_len (n div 2)"
      by auto
    have len: "bit_len n = Suc (bit_len (n div 2))" using 1 by (simp add: bit_len.simps [of n])
    moreover have "0 < bit_len (n div 2)" using False by (subst bit_len.simps) simp
    then have "(2::nat) ^ bit_len (n div 2) = 2 * 2 ^ (bit_len (n div 2) - 1)"
      by (metis power_eq_if not_gr_zero)
    moreover have "2 * x \<le> n \<and> n < 2 * y" if "x \<le> n div 2" "n div 2 < y" for x y
      using that by linarith
    from this [OF IH] have "2 * 2 ^ (bit_len (n div 2) - 1) \<le> n" "n < 2 * 2 ^ bit_len (n div 2)"
      by simp_all
    ultimately show ?thesis by simp
  qed
qed

lemma lead_exp_le:
  assumes "0 < n" and "0 < d" and "0 \<le> lead_exp n d"
  shows "d * 2 ^ nat (lead_exp n d) \<le> n"
proof -
  define k where "k = int (bit_len n) - int (bit_len d)"
  show ?thesis
  proof (cases "if 0 \<le> k then d * 2 ^ nat k \<le> n else d \<le> n * 2 ^ nat (- k)")
    case True
    then have "lead_exp n d = k" unfolding lead_exp_def Let_def k_def [symmetric] by simp
    with True assms(3) show ?thesis by simp
  next
    case False
    then have l: "lead_exp n d = k - 1" unfolding lead_exp_def Let_def k_def [symmetric] by simp
    with assms(3) have "bit_len n - 1 = bit_len d + nat (k - 1)" by (auto simp: k_def)
    then have "2 ^ bit_len d * 2 ^ nat (k - 1) \<le> n"
      using bit_len_bounds [OF assms(1)] by (simp add: power_add)
    moreover have "d * 2 ^ nat (k - 1) \<le> 2 ^ bit_len d * 2 ^ nat (k - 1)"
      using bit_len_bounds [OF assms(2)] by simp
    ultimately show ?thesis unfolding l by linarith
  qed
qed

lemma round_half_even_exact: "0 < d \<Longrightarrow> round_half_even (k * d) d = k"
  by (simp add: round_half_even_def)

text \<open>Integers below \<open>2 ^ 53\<close> are exact, so arithmetic whose results are such integers is exact.\<close>

lemma f64_round_exact:
  assumes x: "is_nat x k" and k: "k < 2 ^ 53"
  shows "is_nat (f64_round x) k"
proof -
  obtain n d where x': "x = (n, d)" by (cases x)
  with x have nd: "n = k * d" "0 < d" by (simp_all add: is_nat_def)
  show ?thesis
  proof (cases "n = 0")
    case True
    with nd show ?thesis by (simp add: x' f64_round_def is_nat_def)
  next
    case False
    have "lead_exp n d < 53"
    proof (rule ccontr)
      assume "\<not> lead_exp n d < 53"
      then have "d * 2 ^ nat (lead_exp n d) \<le> n" "53 \<le> nat (lead_exp n d)"
        using False nd(2) by (auto intro: lead_exp_le)
      then have "d * 2 ^ 53 \<le> k * d"
        using power_increasing [of 53 "nat (lead_exp n d)" "2 :: nat"] nd(1)
        by (meson dual_order.trans mult_le_mono2 one_le_numeral)
      with nd(2) k show False by (simp add: mult.commute)
    qed
    then have e: "lead_exp n d - 52 \<le> 0" by simp
    define p where "p = (2 :: nat) ^ nat (- (lead_exp n d - 52))"
    have "n * p = k * p * d" using nd by simp
    then have "round_half_even (n * p) d = k * p" by (metis nd(2) round_half_even_exact)
    with e False show ?thesis by (simp add: x' f64_round_def is_nat_def p_def Let_def)
  qed
qed

lemma f64_trunc_is_nat: "is_nat x k \<Longrightarrow> f64_trunc x = k"
  by (simp add: is_nat_def f64_trunc_def)

lemma f64_of_nat_exact: "n < 2 ^ 53 \<Longrightarrow> is_nat (f64_of_nat n) n"
  unfolding f64_of_nat_def by (rule f64_round_exact) (simp_all add: is_nat_def)

lemma f64_add_exact:
  "is_nat x a \<Longrightarrow> is_nat y b \<Longrightarrow> a + b < 2 ^ 53 \<Longrightarrow> is_nat (f64_add x y) (a + b)"
  unfolding f64_add_def by (rule f64_round_exact) (simp_all add: is_nat_def algebra_simps)

lemma f64_mul_exact:
  "is_nat x a \<Longrightarrow> is_nat y b \<Longrightarrow> a * b < 2 ^ 53 \<Longrightarrow> is_nat (f64_mul x y) (a * b)"
  unfolding f64_mul_def by (rule f64_round_exact) (simp_all add: is_nat_def algebra_simps)

lemma f64_div_exact:
  "is_nat x (a * b) \<Longrightarrow> is_nat y b \<Longrightarrow> 0 < b \<Longrightarrow> a < 2 ^ 53 \<Longrightarrow> is_nat (f64_div x y) a"
  unfolding f64_div_def by (rule f64_round_exact) (simp_all add: is_nat_def algebra_simps)

end
