(* ===== verification/GoDuration.thy ===== *)
theory GoDuration
  imports GoTime GoFloat
begin

text \<open>
  \<open>time.Duration\<close> as the program uses it: the text form of a duration (\<open>String\<close>), the parser of
  that form (\<open>time.ParseDuration\<close>, with its overflow checks and its floating-point fraction),
  and \<open>Hours\<close>. A duration is its number of nanoseconds, an \<open>int64\<close>.
\<close>

section \<open>String\<close>

definition strip_zeros :: "string \<Rightarrow> string" where
  "strip_zeros s = rev (dropWhile (\<lambda>c. c = CHR ''0'') (rev s))"

text \<open>\<open>fmtFrac\<close>: a period and the fraction without its trailing zeros, nothing for a zero fraction.\<close>

definition fmt_frac :: "nat \<Rightarrow> nat \<Rightarrow> string" where
  "fmt_frac v prec =
     (let s = strip_zeros (pad_digits prec v) in if s = [] then [] else CHR ''.'' # s)"

definition micro_sign :: string where
  "micro_sign = [char_of (194 :: nat), char_of (181 :: nat)]"

definition duration_string :: "int \<Rightarrow> string" where
  "duration_string d =
     (let u = nat \<bar>d\<bar>; sign = (if d < 0 then ''-'' else []) in
      if u = 0 then ''0s''
      else if u < 1000 then sign @ show_nat u @ ''ns''
      else if u < 1000000 then sign @ show_nat (u div 1000) @ fmt_frac u 3 @ micro_sign @ ''s''
      else if u < 1000000000 then sign @ show_nat (u div 1000000) @ fmt_frac u 6 @ ''ms''
      else (let s = u div 1000000000; m = s div 60; h = m div 60 in
            sign @
            (if 0 < m then (if 0 < h then show_nat h @ ''h'' else []) @ show_nat (m mod 60) @ ''m''
             else []) @
            show_nat (s mod 60) @ fmt_frac u 9 @ ''s''))"

section \<open>ParseDuration\<close>

definition two63 :: nat where "two63 = 2 ^ 63"

text \<open>\<open>leadingInt\<close>: the leading digits, or \<^const>\<open>None\<close> when the number exceeds \<open>2 ^ 63\<close>.\<close>

fun leading_int :: "nat \<Rightarrow> string \<Rightarrow> (nat \<times> string) option" where
  "leading_int x [] = Some (x, [])"
| "leading_int x (c # s) =
     (if \<not> is_digit c then Some (x, c # s)
      else if x > two63 div 10 then None
      else (let y = x * 10 + digit_val c in if y > two63 then None else leading_int y s))"

text \<open>\<open>leadingFraction\<close>: the digits that fit, the power of ten they are scaled by, and the rest.\<close>

fun leading_fraction :: "nat \<Rightarrow> nat \<Rightarrow> bool \<Rightarrow> string \<Rightarrow> nat \<times> nat \<times> string" where
  "leading_fraction x scale over [] = (x, scale, [])"
| "leading_fraction x scale over (c # s) =
     (if \<not> is_digit c then (x, scale, c # s)
      else if over then leading_fraction x scale over s
      else if x > (two63 - 1) div 10 then leading_fraction x scale True s
      else (let y = x * 10 + digit_val c in
            if y > two63 then leading_fraction x scale True s
            else leading_fraction y (scale * 10) False s))"

definition is_num_char :: "char \<Rightarrow> bool" where
  "is_num_char c \<longleftrightarrow> c = CHR ''.'' \<or> is_digit c"

definition unit_ns :: "string \<Rightarrow> nat option" where
  "unit_ns u =
     (if u = ''ns'' then Some 1
      else if u = ''us'' \<or> u = micro_sign @ ''s'' \<or>
              u = [char_of (206 :: nat), char_of (188 :: nat)] @ ''s'' then Some 1000
      else if u = ''ms'' then Some 1000000
      else if u = ''s'' then Some 1000000000
      else if u = ''m'' then Some 60000000000
      else if u = ''h'' then Some 3600000000000
      else None)"

text \<open>The optional fraction of an element: its digits, their scale, the rest, and whether there was one.\<close>

definition parse_fraction :: "string \<Rightarrow> nat \<times> nat \<times> string \<times> bool" where
  "parse_fraction s =
     (case s of
        [] \<Rightarrow> (0, 1, s, False)
      | c # t \<Rightarrow>
          if c = CHR ''.'' then
            (let (f, scale, r) = leading_fraction 0 1 False t in (f, scale, r, length r \<noteq> length t))
          else (0, 1, s, False))"

text \<open>The nanoseconds of an element, unless they exceed \<open>2 ^ 63\<close>.\<close>

definition element_ns :: "nat \<Rightarrow> nat \<Rightarrow> nat \<Rightarrow> nat \<Rightarrow> nat option" where
  "element_ns v f scale unit =
     (if v > two63 div unit then None
      else (let v1 = v * unit;
                v2 = (if 0 < f
                      then v1 + f64_trunc (f64_mul (f64_of_nat f)
                             (f64_div (f64_of_nat unit) (f64_of_nat scale)))
                      else v1)
            in if v2 > two63 then None else Some v2))"

text \<open>One element \<open>[0-9]*(\.[0-9]*)?[a-z]+\<close> of a duration: its nanoseconds and the rest.\<close>

definition parse_element :: "string \<Rightarrow> (nat \<times> string) option" where
  "parse_element s =
     (if s = [] \<or> \<not> is_num_char (hd s) then None
      else case leading_int 0 s of
             None \<Rightarrow> None
           | Some (v, s1) \<Rightarrow>
               (let pre = (length s1 \<noteq> length s);
                    (f, scale, s2, post) = parse_fraction s1;
                    u = takeWhile (\<lambda>c. \<not> is_num_char c) s2;
                    s3 = dropWhile (\<lambda>c. \<not> is_num_char c) s2
                in if \<not> pre \<and> \<not> post \<or> u = [] then None
                   else case unit_ns u of
                          None \<Rightarrow> None
                        | Some unit \<Rightarrow> map_option (\<lambda>ns. (ns, s3)) (element_ns v f scale unit)))"

lemma leading_int_length: "leading_int x s = Some (v, r) \<Longrightarrow> length r \<le> length s"
  by (induction x s rule: leading_int.induct) (auto simp: Let_def split: if_splits)

lemma leading_fraction_length:
  "leading_fraction x sc ov s = (f, scale, r) \<Longrightarrow> length r \<le> length s"
  by (induction x sc ov s rule: leading_fraction.induct) (auto simp: Let_def split: if_splits)

lemma parse_fraction_length: "parse_fraction s = (f, scale, r, post) \<Longrightarrow> length r \<le> length s"
  by (auto simp: parse_fraction_def Let_def dest: leading_fraction_length
      split: list.splits if_splits prod.splits)

lemma length_dropWhile_less: "takeWhile P t \<noteq> [] \<Longrightarrow> length (dropWhile P t) < length t"
  by (cases t) (auto simp: le_imp_less_Suc length_dropWhile_le split: if_splits)

lemma parse_element_length:
  assumes "parse_element s = Some (v, r)"
  shows "length r < length s"
proof -
  obtain w s1 where s1: "leading_int 0 s = Some (w, s1)"
    using assms by (auto simp: parse_element_def split: if_splits option.splits)
  obtain f scale s2 post where s2: "parse_fraction s1 = (f, scale, s2, post)"
    by (metis prod_cases4)
  have "takeWhile (\<lambda>c. \<not> is_num_char c) s2 \<noteq> []" "r = dropWhile (\<lambda>c. \<not> is_num_char c) s2"
    using assms s1 s2 by (auto simp: parse_element_def Let_def split: if_splits option.splits)
  then show ?thesis
    using leading_int_length [OF s1] parse_fraction_length [OF s2]
      length_dropWhile_less [of "\<lambda>c. \<not> is_num_char c" s2] by simp
qed

function parse_elements :: "nat \<Rightarrow> string \<Rightarrow> nat option" where
  "parse_elements d s =
     (if s = [] then Some d
      else case parse_element s of
             None \<Rightarrow> None
           | Some (v, r) \<Rightarrow> if d + v > two63 then None else parse_elements (d + v) r)"
  by pat_completeness auto
termination
  by (relation "measure (\<lambda>(d, s). length s)") (auto dest: parse_element_length)

declare parse_elements.simps [simp del]

definition parse_duration :: "string \<Rightarrow> int option" where
  "parse_duration s0 =
     (let neg = (s0 \<noteq> [] \<and> hd s0 = CHR ''-'');
          s = (if s0 \<noteq> [] \<and> (hd s0 = CHR ''-'' \<or> hd s0 = CHR ''+'') then tl s0 else s0)
      in if s = ''0'' then Some 0
         else if s = [] then None
         else do {
           d \<leftarrow> parse_elements 0 s;
           (if neg then Some (- int d)
            else if d > two63 - 1 then None
            else Some (int d))
         })"

section \<open>Hours\<close>

text \<open>\<open>Hours\<close> of a non-negative duration: the whole hours plus the rest, in double precision.\<close>

definition hours :: "nat \<Rightarrow> f64" where
  "hours d =
     f64_add (f64_of_nat (d div 3600000000000))
       (f64_div (f64_of_nat (d mod 3600000000000)) (f64_of_nat 3600000000000))"

lemma hours_whole: "h < 2 ^ 52 \<Longrightarrow> is_nat (hours (h * 3600000000000)) h"
proof -
  assume h: "h < 2 ^ 52"
  have "is_nat (f64_of_nat 0) (0 * 3600000000000)" "is_nat (f64_of_nat h) h"
    "is_nat (f64_of_nat 3600000000000) 3600000000000"
    using h by (auto intro: f64_of_nat_exact)
  then have "is_nat (f64_add (f64_of_nat h) (f64_div (f64_of_nat 0) (f64_of_nat 3600000000000))) (h + 0)"
    using h by (intro f64_add_exact f64_div_exact) auto
  then show ?thesis by (simp add: hours_def)
qed

section \<open>Round trip\<close>

lemma takeWhile_digits: "list_all is_digit ds \<Longrightarrow> \<not> is_digit c \<Longrightarrow>
    takeWhile is_digit (ds @ c # s) = ds \<and> dropWhile is_digit (ds @ c # s) = c # s"
  by (induction ds) auto

lemma digits_val_mono: "acc \<le> digits_val acc ds"
proof (induction ds arbitrary: acc)
  case (Cons d ds)
  have "acc \<le> acc * 10 + digit_val d" by simp
  also have "\<dots> \<le> digits_val (acc * 10 + digit_val d) ds" by (rule Cons.IH)
  finally show ?case by simp
qed simp

lemma leading_int_digits:
  assumes "list_all is_digit ds" and "\<not> is_digit c" and "digits_val acc ds < two63"
  shows "leading_int acc (ds @ c # s) = Some (digits_val acc ds, c # s)"
  using assms
proof (induction ds arbitrary: acc)
  case (Cons d ds)
  have "acc * 10 + digit_val d < two63"
    using digits_val_mono [of "acc * 10 + digit_val d" ds] Cons.prems(3) by simp
  moreover from this have "acc \<le> two63 div 10" by linarith
  ultimately show ?case using Cons by (simp add: Let_def)
qed simp

lemma leading_fraction_digits:
  assumes "list_all is_digit ds" and "\<not> is_digit c" and "digits_val acc ds < two63"
  shows "leading_fraction acc sc False (ds @ c # s) = (digits_val acc ds, sc * 10 ^ length ds, c # s)"
  using assms
proof (induction ds arbitrary: acc sc)
  case (Cons d ds)
  have "acc * 10 + digit_val d < two63"
    using digits_val_mono [of "acc * 10 + digit_val d" ds] Cons.prems(3) by simp
  moreover from this have "acc \<le> (two63 - 1) div 10" by linarith
  ultimately show ?case using Cons by (simp add: Let_def algebra_simps)
qed simp

text \<open>An element without a fraction, and the seconds element of \<^const>\<open>duration_string\<close>.\<close>

lemma parse_element_whole:
  assumes u: "u \<noteq> []" "list_all (\<lambda>c. \<not> is_num_char c) u" and k: "unit_ns u = Some k" "0 < k"
    and n: "n * k \<le> two63" "n < two63"
    and rest: "rest = [] \<or> is_num_char (hd rest)"
  shows "parse_element (show_nat n @ u @ rest) = Some (n * k, rest)"
proof -
  obtain c u' where c: "u = c # u'" using u(1) by (cases u) auto
  with u have c': "\<not> is_digit c" "c \<noteq> CHR ''.''" by (auto simp: is_num_char_def)
  have lead: "leading_int 0 (show_nat n @ u @ rest) = Some (n, u @ rest)"
    using leading_int_digits [OF show_nat_digits, of c 0 n "u' @ rest"] c' n(2)
    by (simp add: c digits_val_show_nat)
  obtain x xs where "show_nat n = x # xs" "is_digit x" using show_nat_hd_digit by blast
  then have start: "show_nat n @ u @ rest \<noteq> []" "is_num_char (hd (show_nat n @ u @ rest))"
    by (auto simp: is_num_char_def)
  have frac: "parse_fraction (u @ rest) = (0, 1, u @ rest, False)"
    using c' by (simp add: parse_fraction_def c)
  have split: "takeWhile (\<lambda>c. \<not> is_num_char c) (u @ rest) = u"
    "dropWhile (\<lambda>c. \<not> is_num_char c) (u @ rest) = rest"
    using u(2) rest by (cases rest; auto simp: list_all_iff takeWhile_append2 dropWhile_append2)+
  have "n \<le> two63 div k" using n(1) k(2) by (simp add: less_eq_div_iff_mult_less_eq)
  then have "element_ns n 0 1 k = Some (n * k)"
    using n by (simp add: element_ns_def)
  then show ?thesis
    using start lead frac split u(1) k(1) by (simp add: parse_element_def Let_def)
qed

lemma strip_zeros_split: "\<exists>k. ds = strip_zeros ds @ replicate k (CHR ''0'')"
proof -
  have "takeWhile (\<lambda>c. c = CHR ''0'') (rev ds) =
      replicate (length (takeWhile (\<lambda>c. c = CHR ''0'') (rev ds))) (CHR ''0'')"
    by (rule replicate_eqI [OF refl]) (auto dest: set_takeWhileD)
  moreover have "rev ds = takeWhile (\<lambda>c. c = CHR ''0'') (rev ds) @ dropWhile (\<lambda>c. c = CHR ''0'') (rev ds)"
    by simp
  ultimately show ?thesis
    unfolding strip_zeros_def by (metis rev_append rev_replicate rev_rev_ident)
qed

lemma digits_val_zeros: "digits_val a (replicate k (CHR ''0'')) = a * 10 ^ k"
  by (induction k arbitrary: a) (simp_all add: digit_val_def algebra_simps)

lemma strip_zeros_pad:
  assumes "v < 10 ^ w"
  obtains k where "length (strip_zeros (pad_digits w v)) + k = w"
    and "digits_val 0 (strip_zeros (pad_digits w v)) * 10 ^ k = v"
    and "list_all is_digit (strip_zeros (pad_digits w v))"
proof -
  obtain k where k: "pad_digits w v = strip_zeros (pad_digits w v) @ replicate k (CHR ''0'')"
    using strip_zeros_split by blast
  have "length (strip_zeros (pad_digits w v)) + k = w"
    using arg_cong [OF k, of length] by simp
  moreover have "digits_val 0 (strip_zeros (pad_digits w v)) * 10 ^ k = v"
    using arg_cong [OF k, of "digits_val 0"] assms by (simp add: digits_val_pad digits_val_zeros)
  moreover have "list_all is_digit (strip_zeros (pad_digits w v))"
    by (metis k list_all_append pad_digits_is_digit)
  ultimately show ?thesis by (rule that)
qed

lemma strip_zeros_nonzero: "v < 10 ^ w \<Longrightarrow> 0 < v \<Longrightarrow> strip_zeros (pad_digits w v) \<noteq> []"
  by (metis digits_val_simps(1) mult_0 not_less_zero strip_zeros_pad)

lemma parse_element_frac:
  assumes n: "n < 60" and v: "0 < v" "v < 1000000000"
  shows "parse_element (show_nat n @ CHR ''.'' # strip_zeros (pad_digits 9 v) @ ''s'') =
           Some (n * 1000000000 + v, [])"
proof -
  define ds where "ds = strip_zeros (pad_digits 9 v)"
  obtain k where k: "length ds + k = 9" "digits_val 0 ds * 10 ^ k = v" and ds: "list_all is_digit ds"
    using strip_zeros_pad [of v 9] v(2) unfolding ds_def by auto
  define f where "f = digits_val 0 ds"
  have f: "0 < f" "f * 10 ^ k = v" using k v(1) by (auto simp: f_def intro: Nat.gr0I)
  have "f * 1 \<le> f * 10 ^ k" by (intro mult_le_mono2) simp
  then have f_less: "f < 1000000000" using v(2) f(2) by linarith
  have lead: "leading_int 0 (show_nat n @ CHR ''.'' # ds @ ''s'') = Some (n, CHR ''.'' # ds @ ''s'')"
    using leading_int_digits [OF show_nat_digits, of "CHR ''.''" 0 n "ds @ ''s''"] n
    by (simp add: digits_val_show_nat is_digit_def two63_def)
  obtain x xs where "show_nat n = x # xs" "is_digit x" using show_nat_hd_digit by blast
  then have start: "show_nat n @ CHR ''.'' # ds @ ''s'' \<noteq> []"
    "is_num_char (hd (show_nat n @ CHR ''.'' # ds @ ''s''))"
    by (auto simp: is_num_char_def)
  have "leading_fraction 0 1 False (ds @ ''s'') = (f, 1 * 10 ^ length ds, ''s'')"
    using leading_fraction_digits [OF ds, of "CHR ''s''" 0 1 "[]"] f_less
    by (simp add: f_def is_digit_def two63_def)
  moreover have "ds \<noteq> []" unfolding ds_def by (rule strip_zeros_nonzero) (use v in auto)
  ultimately have frac: "parse_fraction (CHR ''.'' # ds @ ''s'') = (f, 10 ^ length ds, ''s'', True)"
    by (simp add: parse_fraction_def)
  have pow: "(10 :: nat) ^ k * 10 ^ length ds = 1000000000"
    using k(1) by (simp flip: power_add add: add.commute)
  have "k \<le> 9" "length ds \<le> 9" using k(1) by linarith+
  then have le: "(10 :: nat) ^ k \<le> 10 ^ 9" "(10 :: nat) ^ length ds \<le> 10 ^ 9"
    by (intro power_increasing; simp)+
  have "is_nat (f64_div (f64_of_nat 1000000000) (f64_of_nat (10 ^ length ds))) (10 ^ k)"
    by (rule f64_div_exact [where b = "10 ^ length ds"])
      (use f64_of_nat_exact [of 1000000000] f64_of_nat_exact [of "10 ^ length ds"] le pow in auto)
  then have "is_nat (f64_mul (f64_of_nat f)
      (f64_div (f64_of_nat 1000000000) (f64_of_nat (10 ^ length ds)))) (f * 10 ^ k)"
    by (intro f64_mul_exact f64_of_nat_exact) (use f v f_less in auto)
  then have "f64_trunc (f64_mul (f64_of_nat f)
      (f64_div (f64_of_nat 1000000000) (f64_of_nat (10 ^ length ds)))) = v"
    unfolding f(2) by (rule f64_trunc_is_nat)
  then have el: "element_ns n f (10 ^ length ds) 1000000000 = Some (n * 1000000000 + v)"
    using n v f(1) by (simp add: element_ns_def two63_def Let_def)
  have "unit_ns ''s'' = Some 1000000000" by (simp add: unit_ns_def micro_sign_def)
  moreover have "\<not> is_num_char (CHR ''s'')" by (simp add: is_num_char_def is_digit_def)
  ultimately show ?thesis
    using start lead frac el unfolding ds_def [symmetric]
    by (simp add: parse_element_def Let_def)
qed

lemma parse_elements_Nil: "parse_elements d [] = Some d"
  by (simp add: parse_elements.simps)

lemma parse_elements_step:
  "s \<noteq> [] \<Longrightarrow> parse_element s = Some (v, r) \<Longrightarrow> d + v \<le> two63 \<Longrightarrow>
     parse_elements d s = parse_elements (d + v) r"
  by (simp add: parse_elements.simps [of d s])

lemma pad_digits_mod: "pad_digits w m = pad_digits w (m mod 10 ^ w)"
proof (induction w arbitrary: m)
  case (Suc w)
  have "m mod (10 * 10 ^ w) div 10 = m div 10 mod 10 ^ w" "m mod (10 * 10 ^ w) mod 10 = m mod 10"
    by (simp_all add: mod_mult2_eq)
  then show ?case by (simp flip: Suc [of "m div 10"])
qed simp

lemma parse_seconds:
  assumes "n < 60" and "d + n * 1000000000 + u mod 1000000000 \<le> two63"
  shows "parse_elements d (show_nat n @ fmt_frac u 9 @ ''s'') = Some (d + n * 1000000000 + u mod 1000000000)"
proof -
  have pad: "pad_digits 9 u = pad_digits 9 (u mod 1000000000)"
    using pad_digits_mod [of 9 u] by simp
  define v where "v = u mod 1000000000"
  have v: "v < 1000000000" by (simp add: v_def)
  have "parse_element (show_nat n @ fmt_frac u 9 @ ''s'') = Some (n * 1000000000 + v, [])"
  proof (cases "v = 0")
    case True
    have "strip_zeros (pad_digits 9 0) = []"
      by (simp add: strip_zeros_def flip: zero_digit_char)
    then have "fmt_frac u 9 = []" using pad True unfolding v_def by (simp add: fmt_frac_def Let_def)
    moreover have "n * 1000000000 \<le> two63" "n < two63" using assms(1) by (simp_all add: two63_def)
    then have "parse_element (show_nat n @ ''s'' @ []) = Some (n * 1000000000, [])"
      by (intro parse_element_whole) (simp_all add: unit_ns_def is_num_char_def is_digit_def micro_sign_def)
    ultimately show ?thesis using True by simp
  next
    case False
    then have "strip_zeros (pad_digits 9 v) \<noteq> []" using v by (intro strip_zeros_nonzero) auto
    then have "fmt_frac u 9 = CHR ''.'' # strip_zeros (pad_digits 9 v)"
      unfolding fmt_frac_def pad v_def by (simp add: Let_def)
    then show ?thesis using parse_element_frac [OF assms(1), of v] False v by simp
  qed
  then show ?thesis
    using parse_elements_step [of "show_nat n @ fmt_frac u 9 @ ''s''" "n * 1000000000 + v" "[]" d]
      assms(2) by (simp add: parse_elements_Nil v_def)
qed

text \<open>What \<open>String\<close> writes, \<open>ParseDuration\<close> reads back, for every duration of an hour or more.\<close>

lemma sec_hour_arith:
  assumes "u = s * 1000000000 + f" and "s = m * 60 + r" and "m = h * 60 + q"
  shows "h * 3600000000000 + q * 60000000000 + r * 1000000000 + f = (u :: nat)"
  using assms by simp

lemma parse_duration_string:
  assumes "hour \<le> d" and "d \<le> max_int64"
  shows "parse_duration (duration_string d) = Some d"
proof -
  define u s m h where "u = nat d" "s = u div 1000000000" "m = s div 60" "h = m div 60"
  have u: "3600000000000 \<le> u" "u < two63" "int u = d"
    using assms by (simp_all add: u_s_m_h_def two63_def duration_defs nat_less_iff)
  have "3600 \<le> s" using div_le_mono [OF u(1), of 1000000000] unfolding u_s_m_h_def by simp
  then have m: "60 \<le> m" using div_le_mono [of 3600 s 60] unfolding u_s_m_h_def by simp
  then have h: "1 \<le> h" using div_le_mono [of 60 m 60] unfolding u_s_m_h_def by simp
  have total: "h * 3600000000000 + m mod 60 * 60000000000 + s mod 60 * 1000000000 + u mod 1000000000 = u"
    by (rule sec_hour_arith [of u s _ m _ h]) (simp_all add: u_s_m_h_def)
  have str: "duration_string d =
      show_nat h @ ''h'' @ show_nat (m mod 60) @ ''m'' @ show_nat (s mod 60) @ fmt_frac u 9 @ ''s''"
  proof -
    have "nat \<bar>d\<bar> = u" "\<not> d < 0" using u by linarith+
    then show ?thesis
      using u m h unfolding duration_string_def Let_def \<open>nat \<bar>d\<bar> = u\<close> u_s_m_h_def(2-4) [symmetric]
      by simp
  qed
  let ?t1 = "show_nat (m mod 60) @ ''m'' @ show_nat (s mod 60) @ fmt_frac u 9 @ ''s''"
  let ?t2 = "show_nat (s mod 60) @ fmt_frac u 9 @ ''s''"
  have digit: "show_nat n @ t \<noteq> [] \<and> is_num_char (hd (show_nat n @ t))" for n t
    using show_nat_hd_digit [of n] by (auto simp: is_num_char_def)
  have le: "h * 3600000000000 \<le> two63" "m mod 60 * 60000000000 \<le> two63"
    "h * 3600000000000 + m mod 60 * 60000000000 \<le> two63" using total u(2) by linarith+
  have "h < two63" "m mod 60 < two63" using le by (simp_all add: two63_def)
  have "parse_element (show_nat h @ ''h'' @ ?t1) = Some (h * 3600000000000, ?t1)"
    by (rule parse_element_whole)
      (use le digit \<open>h < two63\<close> in \<open>auto simp: unit_ns_def is_num_char_def is_digit_def micro_sign_def\<close>)
  moreover have "parse_element ?t1 = Some (m mod 60 * 60000000000, ?t2)"
    by (rule parse_element_whole)
      (use le digit \<open>m mod 60 < two63\<close> in \<open>auto simp: unit_ns_def is_num_char_def is_digit_def micro_sign_def\<close>)
  moreover have "parse_elements (h * 3600000000000 + m mod 60 * 60000000000) ?t2 = Some u"
    using parse_seconds [of "s mod 60" "h * 3600000000000 + m mod 60 * 60000000000" u] total u(2)
    by simp
  ultimately have "parse_elements 0 (duration_string d) = Some u"
    unfolding str using le by (simp add: parse_elements_step)
  moreover obtain c r where "show_nat h = c # r" "is_digit c" using show_nat_hd_digit by blast
  then have "c \<noteq> CHR ''-''" "c \<noteq> CHR ''+''" "duration_string d = c # r @ ''h'' @ ?t1"
    by (auto simp: is_digit_def str)
  ultimately show ?thesis using u by (simp add: parse_duration_def two63_def)
qed

end
