(* ===== verification/Codec.thy ===== *)
theory Codec
  imports GoText
begin

text \<open>
  The encodings the program puts its secrets in: unpadded URL-safe base64
  (\<open>encoding/base64.RawURLEncoding\<close>, whose decoder skips line breaks and ignores the unused
  low bits of the last character), lower-case hexadecimal (\<open>encoding/hex\<close>), and SHA-256
  (\<open>crypto/sha256\<close>).
\<close>

section \<open>Base64\<close>

definition b64_alphabet :: string where
  "b64_alphabet = ''ABCDEFGHIJKLMNOPQRSTUVWXYZabcdefghijklmnopqrstuvwxyz0123456789-_''"

definition b64_char :: "nat \<Rightarrow> char" where
  "b64_char n = b64_alphabet ! n"

definition b64_val :: "char \<Rightarrow> nat option" where
  "b64_val c =
     (let x = byte_of c in
      if 65 \<le> x \<and> x \<le> 90 then Some (x - 65)
      else if 97 \<le> x \<and> x \<le> 122 then Some (x - 97 + 26)
      else if 48 \<le> x \<and> x \<le> 57 then Some (x - 48 + 52)
      else if x = 45 then Some 62
      else if x = 95 then Some 63
      else None)"

fun b64_encode :: "string \<Rightarrow> string" where
  "b64_encode [] = []"
| "b64_encode [a] =
     (let x = byte_of a in [b64_char (x div 4), b64_char (x mod 4 * 16)])"
| "b64_encode [a, b] =
     (let x = byte_of a; y = byte_of b
      in [b64_char (x div 4), b64_char (x mod 4 * 16 + y div 16), b64_char (y mod 16 * 4)])"
| "b64_encode (a # b # c # rest) =
     (let x = byte_of a; y = byte_of b; z = byte_of c
      in b64_char (x div 4) # b64_char (x mod 4 * 16 + y div 16) #
         b64_char (y mod 16 * 4 + z div 64) # b64_char (z mod 64) # b64_encode rest)"

fun b64_quads :: "nat list \<Rightarrow> string option" where
  "b64_quads [] = Some []"
| "b64_quads [x] = None"
| "b64_quads [x, y] = Some [char_of (x * 4 + y div 16)]"
| "b64_quads [x, y, z] = Some [char_of (x * 4 + y div 16), char_of (y mod 16 * 16 + z div 4)]"
| "b64_quads (x # y # z # w # rest) =
     map_option (\<lambda>s. char_of (x * 4 + y div 16) # char_of (y mod 16 * 16 + z div 4) #
                     char_of (z mod 4 * 64 + w) # s) (b64_quads rest)"

definition b64_decode :: "string \<Rightarrow> string option" where
  "b64_decode s =
     (case those (map b64_val (filter (\<lambda>c. byte_of c \<noteq> 10 \<and> byte_of c \<noteq> 13) s)) of
        None \<Rightarrow> None
      | Some vs \<Rightarrow> b64_quads vs)"

lemma b64_alphabet_vals:
  "map b64_val b64_alphabet = map Some [0..<64]"
  "list_all (\<lambda>c. byte_of c \<noteq> 10 \<and> byte_of c \<noteq> 13) b64_alphabet"
  by (simp_all add: b64_alphabet_def b64_val_def upt_rec)

lemma length_b64_alphabet: "length b64_alphabet = 64"
  using arg_cong [OF b64_alphabet_vals(1), of length] by simp

lemma b64_val_char [simp]: "n < 64 \<Longrightarrow> b64_val (b64_char n) = Some n"
  using arg_cong [OF b64_alphabet_vals(1), of "\<lambda>xs. xs ! n"]
  by (simp add: b64_char_def length_b64_alphabet)

lemma b64_char_no_break [simp]: "n < 64 \<Longrightarrow> byte_of (b64_char n) \<noteq> 10 \<and> byte_of (b64_char n) \<noteq> 13"
  using b64_alphabet_vals(2) by (simp add: b64_char_def length_b64_alphabet list_all_length)

text \<open>The six-bit groups of a byte string, whose characters the encoder writes.\<close>

fun sextets :: "string \<Rightarrow> nat list" where
  "sextets [] = []"
| "sextets [a] = (let x = byte_of a in [x div 4, x mod 4 * 16])"
| "sextets [a, b] =
     (let x = byte_of a; y = byte_of b in [x div 4, x mod 4 * 16 + y div 16, y mod 16 * 4])"
| "sextets (a # b # c # rest) =
     (let x = byte_of a; y = byte_of b; z = byte_of c
      in x div 4 # (x mod 4 * 16 + y div 16) # (y mod 16 * 4 + z div 64) # z mod 64 # sextets rest)"

lemma b64_encode_sextets: "b64_encode s = map b64_char (sextets s)"
  by (induction s rule: b64_encode.induct) (simp_all add: Let_def)

lemma byte_bound: "byte_of c < 256"
  by (metis mod_less_divisor of_char_mod_256 zero_less_numeral)

lemma sextet_bounds:
  "x < 256 \<Longrightarrow> y < 256 \<Longrightarrow> z < 256 \<Longrightarrow>
     x div 4 < 64 \<and> x mod 4 * 16 < 64 \<and> x mod 4 * 16 + y div 16 < 64 \<and>
     y mod 16 * 4 < 64 \<and> y mod 16 * 4 + z div 64 < 64 \<and> z mod 64 < (64 :: nat)"
proof -
  assume *: "x < 256" "y < 256" "z < 256"
  have "x div 4 < 64" "y div 16 < 16" "z div 64 < 4" using * by auto
  moreover have "x mod 4 < 4" "y mod 16 < 16" "z mod 64 < 64" by simp_all
  ultimately show ?thesis by linarith
qed

lemma sextets_bound: "list_all (\<lambda>n. n < 64) (sextets s)"
proof (induction s rule: sextets.induct)
  case (2 a)
  then show ?case using sextet_bounds [of "byte_of a" 0 0] by (simp add: Let_def byte_bound)
next
  case (3 a b)
  then show ?case using sextet_bounds [of "byte_of a" "byte_of b" 0] by (simp add: Let_def byte_bound)
next
  case (4 a b c rest)
  then show ?case
    using sextet_bounds [of "byte_of a" "byte_of b" "byte_of c"] by (simp add: Let_def byte_bound)
qed simp

lemma sextet_join:
  fixes x y z :: nat
  assumes "y < 256" and "z < 256"
  shows "x div 4 * 4 + (x mod 4 * 16 + y div 16) div 16 = x"
    and "(x mod 4 * 16 + y div 16) mod 16 * 16 + (y mod 16 * 4 + z div 64) div 4 = y"
    and "(y mod 16 * 4 + z div 64) mod 4 * 64 + z mod 64 = z"
    and "x div 4 * 4 + (x mod 4 * 16) div 16 = x"
    and "(x mod 4 * 16 + y div 16) mod 16 * 16 + (y mod 16 * 4) div 4 = y"
proof -
  have small: "y div 16 < 16" "z div 64 < 4" using assms by auto
  have "(a * 16 + y div 16) div 16 = a" "(a * 16 + y div 16) mod 16 = y div 16"
    "(a * 4 + z div 64) div 4 = a" "(a * 4 + z div 64) mod 4 = z div 64" for a
    using small by auto
  then show "x div 4 * 4 + (x mod 4 * 16 + y div 16) div 16 = x"
    "(x mod 4 * 16 + y div 16) mod 16 * 16 + (y mod 16 * 4 + z div 64) div 4 = y"
    "(y mod 16 * 4 + z div 64) mod 4 * 64 + z mod 64 = z"
    "x div 4 * 4 + (x mod 4 * 16) div 16 = x"
    "(x mod 4 * 16 + y div 16) mod 16 * 16 + (y mod 16 * 4) div 4 = y"
    by simp_all
qed

lemma b64_quads_sextets: "b64_quads (sextets s) = Some s"
proof (induction s rule: sextets.induct)
  case (2 a)
  show ?case using sextet_join(4) [OF byte_bound byte_bound, where x = "byte_of a"]
    by (simp only: sextets.simps Let_def b64_quads.simps char_of_char)
next
  case (3 a b)
  show ?case
    using sextet_join(1,5) [of "byte_of b" "byte_of b" "byte_of a"]
    by (simp only: sextets.simps Let_def b64_quads.simps char_of_char byte_bound)
next
  case (4 a b c rest)
  then show ?case
    using sextet_join(1,2) [of "byte_of b" "byte_of c" "byte_of a"]
      sextet_join(3) [of "byte_of b" "byte_of c"]
    by (simp only: sextets.simps Let_def b64_quads.simps char_of_char option.map byte_bound)
qed simp

lemma those_map_Some: "(\<And>x. x \<in> set xs \<Longrightarrow> f x = Some (g x)) \<Longrightarrow> those (map f xs) = Some (map g xs)"
  by (induction xs) auto

lemma b64_decode_encode: "b64_decode (b64_encode s) = Some s"
proof -
  have b: "n < 64" if "n \<in> set (sextets s)" for n
    using sextets_bound [of s] that by (auto simp: list_all_iff)
  have "filter (\<lambda>c. byte_of c \<noteq> 10 \<and> byte_of c \<noteq> 13) (b64_encode s) = b64_encode s"
    by (rule filter_eq_self) (use b in \<open>auto simp: b64_encode_sextets\<close>)
  moreover have "those (map (b64_val \<circ> b64_char) (sextets s)) = Some (map (\<lambda>n. n) (sextets s))"
    by (rule those_map_Some) (use b in auto)
  ultimately show ?thesis
    by (simp add: b64_decode_def b64_encode_sextets b64_quads_sextets)
qed

lemma length_sextets: "length (sextets s) = (4 * length s + 2) div 3"
  by (induction s rule: sextets.induct) (simp_all add: Let_def)

lemma length_b64_encode: "length (b64_encode s) = (4 * length s + 2) div 3"
  by (simp add: b64_encode_sextets length_sextets)

section \<open>Hexadecimal\<close>

definition hex_digit :: "nat \<Rightarrow> char" where
  "hex_digit n = ''0123456789abcdef'' ! n"

definition hex_encode :: "string \<Rightarrow> string" where
  "hex_encode s = concat (map (\<lambda>c. [hex_digit (byte_of c div 16), hex_digit (byte_of c mod 16)]) s)"

lemma length_hex_encode: "length (hex_encode s) = 2 * length s"
  by (induction s) (simp_all add: hex_encode_def)

section \<open>SHA-256\<close>

unbundle bit_operations_syntax

type_synonym u32 = "32 word"

text \<open>
  The constants are the first 32 bits of the fractional parts of the cube roots of the first 64
  primes; the initial state those of the square roots of the first eight. A root is found bit by
  bit from the top.
\<close>

definition small_primes :: "nat list" where
  "small_primes = filter (\<lambda>n. list_all (\<lambda>k. n mod k \<noteq> 0) [2..<n]) [2..<312]"

primrec root_bits :: "nat \<Rightarrow> nat \<Rightarrow> nat \<Rightarrow> nat \<Rightarrow> nat" where
  "root_bits e 0 n acc = acc"
| "root_bits e (Suc b) n acc = (let t = acc + 2 ^ b in root_bits e b n (if t ^ e \<le> n then t else acc))"

definition root_word :: "nat \<Rightarrow> nat \<Rightarrow> u32" where
  "root_word e p = of_nat (root_bits e 37 (p * 2 ^ (32 * e)) 0)"

definition sha_k :: "u32 list" where
  "sha_k = map (root_word 3) small_primes"

record sha_state =
  sa :: u32
  sb :: u32
  sc :: u32
  sd :: u32
  se :: u32
  sf :: u32
  sg :: u32
  sh :: u32

definition sha_init :: sha_state where
  "sha_init =
     \<lparr>sa = root_word 2 2, sb = root_word 2 3, sc = root_word 2 5, sd = root_word 2 7,
      se = root_word 2 11, sf = root_word 2 13, sg = root_word 2 17, sh = root_word 2 19\<rparr>"

definition sha_round :: "sha_state \<Rightarrow> u32 \<times> u32 \<Rightarrow> sha_state" where
  "sha_round s kw =
     (let s1 = word_rotr 6 (se s) XOR word_rotr 11 (se s) XOR word_rotr 25 (se s);
          ch = (se s AND sf s) XOR (NOT (se s) AND sg s);
          t1 = sh s + s1 + ch + fst kw + snd kw;
          s0 = word_rotr 2 (sa s) XOR word_rotr 13 (sa s) XOR word_rotr 22 (sa s);
          maj = (sa s AND sb s) XOR (sa s AND sc s) XOR (sb s AND sc s)
      in \<lparr>sa = t1 + (s0 + maj), sb = sa s, sc = sb s, sd = sc s,
          se = sd s + t1, sf = se s, sg = sf s, sh = sg s\<rparr>)"

text \<open>The message schedule: sixteen words of the block, then each word from four earlier ones.\<close>

primrec sha_schedule :: "nat \<Rightarrow> u32 list \<Rightarrow> u32 list" where
  "sha_schedule 0 w = w"
| "sha_schedule (Suc n) w =
     (let i = length w;
          w15 = w ! (i - 15); w2 = w ! (i - 2);
          s0 = word_rotr 7 w15 XOR word_rotr 18 w15 XOR drop_bit 3 w15;
          s1 = word_rotr 17 w2 XOR word_rotr 19 w2 XOR drop_bit 10 w2
      in sha_schedule n (w @ [w ! (i - 16) + s0 + w ! (i - 7) + s1]))"

definition sha_block :: "sha_state \<Rightarrow> u32 list \<Rightarrow> sha_state" where
  "sha_block h block =
     (let r = foldl sha_round h (zip sha_k (sha_schedule 48 block))
      in \<lparr>sa = sa h + sa r, sb = sb h + sb r, sc = sc h + sc r, sd = sd h + sd r,
          se = se h + se r, sf = sf h + sf r, sg = sg h + sg r, sh = sh h + sh r\<rparr>)"

text \<open>Padding: a one bit, zeros, and the bit length as eight bytes, to a multiple of 64 bytes.\<close>

definition be_bytes :: "nat \<Rightarrow> nat \<Rightarrow> string" where
  "be_bytes n v = map (\<lambda>i. char_of (v div 256 ^ (n - 1 - i))) [0..<n]"

definition sha_pad :: "string \<Rightarrow> string" where
  "sha_pad m =
     m @ [char_of (128 :: nat)] @ replicate ((119 - length m mod 64) mod 64) (char_of (0 :: nat)) @
     be_bytes 8 (8 * length m)"

fun be_words :: "string \<Rightarrow> u32 list" where
  "be_words (a # b # c # d # rest) =
     of_nat (((byte_of a * 256 + byte_of b) * 256 + byte_of c) * 256 + byte_of d) # be_words rest"
| "be_words _ = []"

function sha_blocks :: "sha_state \<Rightarrow> u32 list \<Rightarrow> sha_state" where
  "sha_blocks h ws = (if ws = [] then h else sha_blocks (sha_block h (take 16 ws)) (drop 16 ws))"
  by pat_completeness auto
termination
  by (relation "measure (\<lambda>(h, ws). length ws)") auto

declare sha_blocks.simps [simp del]

definition sha256 :: "string \<Rightarrow> string" where
  "sha256 m =
     (let h = sha_blocks sha_init (be_words (sha_pad m))
      in concat (map (\<lambda>w. be_bytes 4 (unat w)) [sa h, sb h, sc h, sd h, se h, sf h, sg h, sh h]))"


lemma length_sha256 [simp]: "length (sha256 m) = 32"
  by (simp add: sha256_def be_bytes_def Let_def)

end
