(* ===== verification/Domain.thy ===== *)
theory Domain
  imports GoDuration Codec
begin

text \<open>
  Package \<open>picoshare\<close> (and \<open>random\<close>): the values the program handles, with their validating
  constructors. A struct with one hidden field is a datatype with one constructor, the other
  structs are records, a nullable pointer is an option. Randomness is a stream \<open>draw\<close> of numbers:
  \<open>rand.Int(reader, max)\<close> is a draw reduced below \<open>max\<close>, a random byte is a draw's low byte.
\<close>

datatype text_defect = BadUtf8 | HasNul | BadLength

datatype domain_error =
  EntryIDBadLength nat
| EntryIDBadCharacter nat
| ErrNegativeFileSize
| ErrEmptyFile
| FileLifetimeUnderOneDay
| ErrInvalidDownloadHistoryRetention
| ErrInvalidSessionToken
| ErrInvalidPassphrase text_defect
| UnsupportedLanguage string
| ErrInvalidUserID
| ErrInvalidOIDCSubject text_defect
| ErrInvalidUsername text_defect
| ErrInvalidEmailAddress text_defect
| ErrInvalidOIDCIssuerURL
| ErrInvalidOIDCRedirectURL
| ErrInvalidOIDCClientID
| ErrInvalidOIDCClientSecret
| SetupTokenEmpty

section \<open>Randomness\<close>

definition random_String :: "(nat \<Rightarrow> nat) \<Rightarrow> nat \<Rightarrow> string \<Rightarrow> string" where
  "random_String draw n characters =
     map (\<lambda>i. characters ! (draw i mod length characters)) [0..<n]"

definition random_Bytes :: "(nat \<Rightarrow> nat) \<Rightarrow> nat \<Rightarrow> string" where
  "random_Bytes draw n = map (\<lambda>i. char_of (draw i)) [0..<n]"

lemma length_random_String [simp]: "length (random_String draw n cs) = n"
  by (simp add: random_String_def)

lemma length_random_Bytes [simp]: "length (random_Bytes draw n) = n"
  by (simp add: random_Bytes_def)

lemma random_String_subset: "cs \<noteq> [] \<Longrightarrow> set (random_String draw n cs) \<subseteq> set cs"
  by (auto simp: random_String_def)

section \<open>Entry IDs\<close>

datatype entry_id = EntryID (EntryID_value: string)

definition EntryIDLength :: nat where "EntryIDLength = 10"

definition entryIDCharacters :: string where
  "entryIDCharacters = ''abcdefghijkmnopqrstuvwxyzABCDEFGHJKLMNPQRSTUVWXYZ23456789''"

fun first_bad_rune :: "nat list \<Rightarrow> nat option" where
  "first_bad_rune [] = None"
| "first_bad_rune (r # rs) =
     (if r \<in> byte_of ` set entryIDCharacters then first_bad_rune rs else Some r)"

definition EntryIDFromString :: "string \<Rightarrow> domain_error + entry_id" where
  "EntryIDFromString raw =
     (if length raw \<noteq> EntryIDLength then Inl (EntryIDBadLength (length raw))
      else case first_bad_rune (runes raw) of
             Some r \<Rightarrow> Inl (EntryIDBadCharacter r)
           | None \<Rightarrow> Inr (EntryID raw))"

definition NewEntryID :: "(nat \<Rightarrow> nat) \<Rightarrow> entry_id" where
  "NewEntryID draw = EntryID (random_String draw EntryIDLength entryIDCharacters)"

lemma first_bad_rune_None:
  "first_bad_rune rs = None \<longleftrightarrow> list_all (\<lambda>r. r \<in> byte_of ` set entryIDCharacters) rs"
  by (induction rs) auto

lemma ascii_entryIDCharacters: "ascii entryIDCharacters"
  by (simp add: ascii_def entryIDCharacters_def)

lemma EntryIDFromString_iff [validate_simps]:
  "EntryIDFromString raw = Inr i \<longleftrightarrow>
     length raw = 10 \<and> set raw \<subseteq> set entryIDCharacters \<and> i = EntryID raw"
  using first_bad_rune_None [of "runes raw"]
    runes_in_ascii_alphabet [OF ascii_entryIDCharacters, of raw]
  by (auto simp: EntryIDFromString_def EntryIDLength_def split: option.splits)

section \<open>File sizes\<close>

datatype file_size = FileSize (FileSize_UInt64: u64)

definition FileSizeFromUint64 :: "u64 \<Rightarrow> domain_error + file_size" where
  "FileSizeFromUint64 val = (if val = 0 then Inl ErrEmptyFile else Inr (FileSize val))"

text \<open>An \<open>int64\<close> (and an \<open>int\<close>, which has the same width) is its mathematical value.\<close>

definition FileSizeFromInt64 :: "int \<Rightarrow> domain_error + file_size" where
  "FileSizeFromInt64 val =
     (if val < 0 then Inl ErrNegativeFileSize else FileSizeFromUint64 (of_int val))"

abbreviation "FileSizeFromInt \<equiv> FileSizeFromInt64"

lemma FileSizeFromInt64_iff [validate_simps]:
  assumes "val \<le> max_int64"
  shows "FileSizeFromInt64 val = Inr fs \<longleftrightarrow> 0 < val \<and> FileSize_UInt64 fs = word_of_int val"
proof -
  have "(word_of_int val :: u64) = 0 \<longleftrightarrow> val = 0" if "0 \<le> val"
    using that assms by (auto simp: word_of_int_eq_0_iff dest: zdvd_imp_le)
  then show ?thesis
    by (cases fs) (auto simp: FileSizeFromInt64_def FileSizeFromUint64_def)
qed

section \<open>File lifetimes\<close>

datatype file_lifetime = FileLifetime (lifetime_d: int)

instantiation file_lifetime :: linorder
begin

definition less_eq_file_lifetime :: "file_lifetime \<Rightarrow> file_lifetime \<Rightarrow> bool" where
  "less_eq_file_lifetime a b \<longleftrightarrow> lifetime_d a \<le> lifetime_d b"

definition less_file_lifetime :: "file_lifetime \<Rightarrow> file_lifetime \<Rightarrow> bool" where
  "less_file_lifetime a b \<longleftrightarrow> lifetime_d a < lifetime_d b"

instance
  by standard (auto simp: less_eq_file_lifetime_def less_file_lifetime_def file_lifetime.expand)

end

definition NewFileLifetimeFromDuration :: "int \<Rightarrow> domain_error + file_lifetime" where
  "NewFileLifetimeFromDuration duration =
     (if duration < hour * 24 then Inl FileLifetimeUnderOneDay else Inr (FileLifetime duration))"

definition NewFileLifetimeInDays :: "u16 \<Rightarrow> file_lifetime" where
  "NewFileLifetimeInDays days = FileLifetime (24 * hour * uint days)"

definition NewFileLifetimeInYears :: "u16 \<Rightarrow> file_lifetime" where
  "NewFileLifetimeInYears years = NewFileLifetimeInDays (years * 365)"

definition FileLifetimeInfinite :: file_lifetime where
  "FileLifetimeInfinite = NewFileLifetimeInYears 100"

text \<open>
  A lifetime is never negative. Converting a float above 65535 to \<open>uint16\<close> is left to the
  implementation by the language; the low sixteen bits are what the usual one keeps.
\<close>

definition FileLifetime_Days :: "file_lifetime \<Rightarrow> u16" where
  "FileLifetime_Days lt =
     of_nat (f64_trunc (f64_div (hours (nat (lifetime_d lt))) (f64_of_nat 24)))"

definition FileLifetime_Years :: "file_lifetime \<Rightarrow> u16" where
  "FileLifetime_Years lt = FileLifetime_Days lt div 365"

definition FileLifetime_IsYearBoundary :: "file_lifetime \<Rightarrow> bool" where
  "FileLifetime_IsYearBoundary lt \<longleftrightarrow> FileLifetime_Days lt mod 365 = 0"

definition FileLifetime_String :: "file_lifetime \<Rightarrow> string" where
  "FileLifetime_String lt = duration_string (lifetime_d lt)"

definition FileLifetime_LessThan :: "file_lifetime \<Rightarrow> file_lifetime \<Rightarrow> bool" where
  "FileLifetime_LessThan lt other \<longleftrightarrow> lifetime_d lt = lifetime_d other"

definition FileLifetime_Equal :: "file_lifetime \<Rightarrow> file_lifetime \<Rightarrow> bool" where
  "FileLifetime_Equal lt other \<longleftrightarrow> lifetime_d lt = lifetime_d other"

text \<open>\<open>ExpirationTime\<close> is a \<open>time.Time\<close>: its \<open>==\<close> compares the location as well.\<close>

type_synonym expiration_time = time

definition NeverExpire :: expiration_time where
  "NeverExpire = utc_date 2999 12 31 0 0 0 0"

definition FileLifetime_ExpirationFromTime :: "file_lifetime \<Rightarrow> time \<Rightarrow> expiration_time" where
  "FileLifetime_ExpirationFromTime lt t =
     (if FileLifetime_Equal lt FileLifetimeInfinite then NeverExpire else time_add t (lifetime_d lt))"

lemma FileLifetime_Equal_iff [simp]: "FileLifetime_Equal a b \<longleftrightarrow> a = b"
  by (cases a; cases b) (simp add: FileLifetime_Equal_def)

lemma NewFileLifetimeFromDuration_iff [validate_simps]:
  "NewFileLifetimeFromDuration d = Inr lt \<longleftrightarrow> 24 * hour \<le> d \<and> lt = FileLifetime d"
  by (auto simp: NewFileLifetimeFromDuration_def)

text \<open>Whole days are exact in double precision, so a lifetime built from days gives them back.\<close>

lemma FileLifetime_Days_InDays [simp]: "FileLifetime_Days (NewFileLifetimeInDays n) = n"
proof -
  have n: "unat n < 65536" using unsigned_less [of n, where ?'a = nat] by simp
  have "nat (24 * hour * uint n) = unat n * 24 * 3600000000000"
    by (simp add: duration_defs nat_mult_distrib)
  moreover have "is_nat (hours (unat n * 24 * 3600000000000)) (unat n * 24)"
    by (rule hours_whole) (use n in simp)
  ultimately have h: "is_nat (hours (nat (24 * hour * uint n))) (unat n * 24)" by simp
  have "is_nat (f64_of_nat 24) 24" by (rule f64_of_nat_exact) simp
  then have "is_nat (f64_div (hours (nat (24 * hour * uint n))) (f64_of_nat 24)) (unat n)"
    by (rule f64_div_exact [OF h]) (use n in simp_all)
  then show ?thesis
    by (simp add: FileLifetime_Days_def NewFileLifetimeInDays_def f64_trunc_is_nat)
qed

lemma NewFileLifetimeInDays_inj [simp]: "NewFileLifetimeInDays m = NewFileLifetimeInDays n \<longleftrightarrow> m = n"
  by (metis FileLifetime_Days_InDays)

lemma FileLifetimeInfinite_days: "FileLifetimeInfinite = NewFileLifetimeInDays 36500"
  by (simp add: FileLifetimeInfinite_def NewFileLifetimeInYears_def)

section \<open>Download history retention\<close>

datatype retention = Retention (retention_days: u16)

definition KeepDownloadHistoryForever :: retention where
  "KeepDownloadHistoryForever = Retention 0"

definition NewDownloadHistoryRetentionInDays :: "u16 \<Rightarrow> domain_error + retention" where
  "NewDownloadHistoryRetentionInDays days =
     (if days < 1 \<or> days > 3650 then Inl ErrInvalidDownloadHistoryRetention
      else Inr (Retention days))"

definition Retention_IsForever :: "retention \<Rightarrow> bool" where
  "Retention_IsForever r \<longleftrightarrow> retention_days r = 0"

text \<open>\<open>Days\<close> and \<open>CutoffFrom\<close> panic (\<^const>\<open>None\<close>) when history is kept forever.\<close>

definition Retention_Days :: "retention \<Rightarrow> u16 option" where
  "Retention_Days r = (if Retention_IsForever r then None else Some (retention_days r))"

definition Retention_CutoffFrom :: "retention \<Rightarrow> time \<Rightarrow> time option" where
  "Retention_CutoffFrom r now =
     map_option (\<lambda>days. time_add now (- uint days * 24 * hour)) (Retention_Days r)"

lemma KeepForever [simp]: "Retention_IsForever KeepDownloadHistoryForever"
  by (simp add: Retention_IsForever_def KeepDownloadHistoryForever_def)

section \<open>Languages\<close>

datatype language = Language (Language_value: string)

definition LanguageEnglish :: language where "LanguageEnglish = Language ''en''"
definition LanguageTraditionalChinese :: language where
  "LanguageTraditionalChinese = Language ''zh-TW''"
definition NoLanguage :: language where "NoLanguage = Language []"

definition supportedLanguages :: "language list" where
  "supportedLanguages = [LanguageEnglish, LanguageTraditionalChinese]"

definition NewLanguage :: "string \<Rightarrow> domain_error + language" where
  "NewLanguage raw =
     (case find (\<lambda>l. Language_value l = raw) supportedLanguages of
        Some l \<Rightarrow> Inr l
      | None \<Rightarrow> Inl (UnsupportedLanguage raw))"

definition Language_Empty :: "language \<Rightarrow> bool" where
  "Language_Empty l \<longleftrightarrow> Language_value l = []"

datatype site_default_language = SiteDefaultLanguage (SiteDefault_value: string)

definition SiteDefaultLanguageAuto :: site_default_language where
  "SiteDefaultLanguageAuto = SiteDefaultLanguage []"

definition NewSiteDefaultLanguage :: "string \<Rightarrow> domain_error + site_default_language" where
  "NewSiteDefaultLanguage raw =
     (if raw = [] \<or> raw = ''auto'' then Inr SiteDefaultLanguageAuto
      else case NewLanguage raw of
             Inl e \<Rightarrow> Inl e
           | Inr _ \<Rightarrow> Inr (SiteDefaultLanguage raw))"

definition SiteDefaultLanguage_IsAuto :: "site_default_language \<Rightarrow> bool" where
  "SiteDefaultLanguage_IsAuto l \<longleftrightarrow> SiteDefault_value l = []"

definition SiteDefaultLanguage_Language :: "site_default_language \<Rightarrow> language" where
  "SiteDefaultLanguage_Language l =
     (if SiteDefaultLanguage_IsAuto l then NoLanguage
      else case NewLanguage (SiteDefault_value l) of Inr lang \<Rightarrow> lang | Inl _ \<Rightarrow> NoLanguage)"

definition SiteDefaultLanguage_String :: "site_default_language \<Rightarrow> string" where
  "SiteDefaultLanguage_String l =
     (if SiteDefaultLanguage_IsAuto l then ''auto'' else SiteDefault_value l)"

lemma NewLanguage_iff [validate_simps]:
  "NewLanguage raw = Inr l \<longleftrightarrow> l = Language raw \<and> (raw = ''en'' \<or> raw = ''zh-TW'')"
  by (auto simp: NewLanguage_def supportedLanguages_def LanguageEnglish_def
      LanguageTraditionalChinese_def)

lemma NewSiteDefaultLanguage_iff [validate_simps]:
  "NewSiteDefaultLanguage raw = Inr l \<longleftrightarrow>
     (if raw = [] \<or> raw = ''auto'' then l = SiteDefaultLanguageAuto
      else l = SiteDefaultLanguage raw \<and> (raw = ''en'' \<or> raw = ''zh-TW''))"
  by (auto simp: NewSiteDefaultLanguage_def NewLanguage_def supportedLanguages_def
      LanguageEnglish_def LanguageTraditionalChinese_def)

section \<open>Passphrases\<close>

datatype passphrase = Passphrase (Passphrase_value: string)

definition MaxPassphraseLength :: nat where "MaxPassphraseLength = 100"

text \<open>
  The check that passphrases, OIDC subjects and user names share: valid UTF-8, no NUL
  byte, and a number of code points between one and a limit.
\<close>

definition text_check :: "nat \<Rightarrow> string \<Rightarrow> text_defect option" where
  "text_check limit raw =
     (if \<not> valid_utf8 raw then Some BadUtf8
      else if list_ex (\<lambda>r. r = 0) (runes raw) then Some HasNul
      else if rune_count raw < 1 \<or> limit < rune_count raw then Some BadLength
      else None)"

definition NewPassphrase :: "string \<Rightarrow> domain_error + passphrase" where
  "NewPassphrase raw =
     (case text_check MaxPassphraseLength raw of
        Some d \<Rightarrow> Inl (ErrInvalidPassphrase d)
      | None \<Rightarrow> Inr (Passphrase raw))"

definition Passphrase_Empty :: "passphrase \<Rightarrow> bool" where
  "Passphrase_Empty p \<longleftrightarrow> Passphrase_value p = []"

text \<open>\<open>String\<close> panics (\<^const>\<open>None\<close>) on the empty passphrase.\<close>

definition Passphrase_String :: "passphrase \<Rightarrow> string option" where
  "Passphrase_String p = (if Passphrase_value p = [] then None else Some (Passphrase_value p))"

datatype download_passphrase = DownloadPassphrase (DownloadPassphrase_passphrase: passphrase)

definition NoDownloadPassphrase :: download_passphrase where
  "NoDownloadPassphrase = DownloadPassphrase (Passphrase [])"

definition NewDownloadPassphrase :: "string \<Rightarrow> domain_error + download_passphrase" where
  "NewDownloadPassphrase raw =
     (case NewPassphrase raw of
        Inl e \<Rightarrow> Inl e
      | Inr p \<Rightarrow> Inr (DownloadPassphrase p))"

definition DownloadPassphrase_Empty :: "download_passphrase \<Rightarrow> bool" where
  "DownloadPassphrase_Empty p \<longleftrightarrow> Passphrase_Empty (DownloadPassphrase_passphrase p)"

definition DownloadPassphrase_String :: "download_passphrase \<Rightarrow> string option" where
  "DownloadPassphrase_String p = Passphrase_String (DownloadPassphrase_passphrase p)"

text \<open>\<open>subtle.ConstantTimeCompare\<close>: false at once for unequal lengths, else the bytes' differences.\<close>

definition ConstantTimeCompare :: "string \<Rightarrow> string \<Rightarrow> bool" where
  "ConstantTimeCompare x y \<longleftrightarrow>
     length x = length y \<and>
     foldl (\<lambda>v (a, b). or v (xor (byte_of a) (byte_of b))) 0 (zip x y) = (0 :: nat)"

definition DownloadPassphrase_Equal :: "download_passphrase \<Rightarrow> download_passphrase \<Rightarrow> bool" where
  "DownloadPassphrase_Equal p other =
     (if DownloadPassphrase_Empty p \<or> DownloadPassphrase_Empty other
      then DownloadPassphrase_Empty p = DownloadPassphrase_Empty other
      else ConstantTimeCompare (Passphrase_value (DownloadPassphrase_passphrase p))
             (Passphrase_value (DownloadPassphrase_passphrase other)))"

lemma xor_eq_0_nat: "xor a b = 0 \<longleftrightarrow> a = (b :: nat)"
proof
  assume 0: "xor a b = 0"
  show "a = b"
    by (rule bit_eqI) (metis 0 bit_0_eq bit_xor_iff bot_apply bot_bool_def)
qed simp

lemma or_eq_0_nat: "or a b = 0 \<longleftrightarrow> a = 0 \<and> b = (0 :: nat)"
  by (auto simp: bit_eq_iff bit_or_iff)

lemma ct_fold: "length x = length y \<Longrightarrow>
    foldl (\<lambda>v (a, b). or v (xor (byte_of a) (byte_of b))) v (zip x y) = (0 :: nat) \<longleftrightarrow>
      v = 0 \<and> x = y"
  by (induction x y arbitrary: v rule: list_induct2) (auto simp: or_eq_0_nat xor_eq_0_nat)

lemma ConstantTimeCompare_iff [simp]: "ConstantTimeCompare x y \<longleftrightarrow> x = y"
  using ct_fold [of x y 0] by (auto simp: ConstantTimeCompare_def)

lemma DownloadPassphrase_Equal_iff: "DownloadPassphrase_Equal p q \<longleftrightarrow> p = q"
  by (cases p; cases q; rename_tac a b; case_tac a; case_tac b)
    (auto simp: DownloadPassphrase_Equal_def DownloadPassphrase_Empty_def Passphrase_Empty_def)

lemma NewPassphrase_iff [validate_simps]:
  "NewPassphrase raw = Inr p \<longleftrightarrow>
     valid_utf8 raw \<and> 0 \<notin> set (runes raw) \<and> raw \<noteq> [] \<and> rune_count raw \<le> 100 \<and>
     p = Passphrase raw"
  by (auto simp: NewPassphrase_def text_check_def MaxPassphraseLength_def list_ex_iff
      Suc_le_eq rune_count_0_iff not_less split: if_splits)

lemma NewDownloadPassphrase_iff [validate_simps]:
  "NewDownloadPassphrase raw = Inr p \<longleftrightarrow>
     valid_utf8 raw \<and> 0 \<notin> set (runes raw) \<and> raw \<noteq> [] \<and> rune_count raw \<le> 100 \<and>
     p = DownloadPassphrase (Passphrase raw)"
  using NewPassphrase_iff [of raw]
  by (cases "NewPassphrase raw") (auto simp: NewDownloadPassphrase_def)

section \<open>Users\<close>

datatype user_id = UserID (UserID_Int64: int)
datatype oidc_subject = OIDCSubject (OIDCSubject_String: string)
datatype username = Username (Username_String: string)
datatype email_address = EmailAddress (EmailAddress_String: string)

instantiation user_id :: linorder
begin

definition less_eq_user_id :: "user_id \<Rightarrow> user_id \<Rightarrow> bool" where
  "less_eq_user_id a b \<longleftrightarrow> UserID_Int64 a \<le> UserID_Int64 b"

definition less_user_id :: "user_id \<Rightarrow> user_id \<Rightarrow> bool" where
  "less_user_id a b \<longleftrightarrow> UserID_Int64 a < UserID_Int64 b"

instance
  by standard (auto simp: less_eq_user_id_def less_user_id_def user_id.expand)

end

definition NoOwner :: user_id where "NoOwner = UserID 0"

definition UserID_Empty :: "user_id \<Rightarrow> bool" where
  "UserID_Empty i \<longleftrightarrow> UserID_Int64 i = 0"

definition UserID_String :: "user_id \<Rightarrow> string" where
  "UserID_String i = format_int (UserID_Int64 i)"

definition UserIDFromString :: "string \<Rightarrow> domain_error + user_id" where
  "UserIDFromString raw =
     (case parse_int64 raw of
        None \<Rightarrow> Inl ErrInvalidUserID
      | Some v \<Rightarrow> (if v < 1 then Inl ErrInvalidUserID else Inr (UserID v)))"

definition NewOIDCSubject :: "string \<Rightarrow> domain_error + oidc_subject" where
  "NewOIDCSubject raw =
     (case text_check 255 raw of
        Some d \<Rightarrow> Inl (ErrInvalidOIDCSubject d)
      | None \<Rightarrow> Inr (OIDCSubject raw))"

definition NewUsername :: "string \<Rightarrow> domain_error + username" where
  "NewUsername raw =
     (case text_check 200 raw of
        Some d \<Rightarrow> Inl (ErrInvalidUsername d)
      | None \<Rightarrow> Inr (Username raw))"

definition NoEmailAddress :: email_address where "NoEmailAddress = EmailAddress []"

definition NewEmailAddress :: "string \<Rightarrow> domain_error + email_address" where
  "NewEmailAddress raw =
     (if \<not> valid_utf8 raw then Inl (ErrInvalidEmailAddress BadUtf8)
      else if \<not> contains_str raw ''@'' \<or> 320 < length raw then Inl (ErrInvalidEmailAddress BadLength)
      else Inr (EmailAddress raw))"

definition EmailAddress_Empty :: "email_address \<Rightarrow> bool" where
  "EmailAddress_Empty e \<longleftrightarrow> EmailAddress_String e = []"

record user_identity =
  ui_Subject :: oidc_subject
  ui_Username :: username
  ui_Email :: email_address

record user =
  usr_ID :: user_id
  usr_Subject :: oidc_subject
  usr_Username :: username
  usr_Email :: email_address
  usr_IsAdmin :: bool
  usr_PreferredLanguage :: language
  usr_Created :: time
  usr_LastLogin :: time

lemma UserIDFromString_String:
  "1 \<le> v \<Longrightarrow> v \<le> max_int64 \<Longrightarrow> UserIDFromString (UserID_String (UserID v)) = Inr (UserID v)"
  by (simp add: UserIDFromString_def UserID_String_def parse_format_int64)

lemma UserIDFromString_pos: "UserIDFromString raw = Inr i \<Longrightarrow> 1 \<le> UserID_Int64 i"
  by (auto simp: UserIDFromString_def split: option.splits if_splits)

section \<open>Guest links and entries\<close>

type_synonym guest_link_id = string
type_synonym guest_link_label = string
type_synonym filename = string
type_synonym content_type = string
type_synonym file_note = "string option"

record guest_link =
  gl_ID :: guest_link_id
  gl_Label :: guest_link_label
  gl_OwnerID :: user_id
  gl_Created :: time
  gl_UrlExpires :: expiration_time
  gl_MaxFileLifetime :: file_lifetime
  gl_MaxFileBytes :: "u64 option"
  gl_MaxFileUploads :: "int option"
  gl_IsDisabled :: bool
  gl_FilesUploaded :: int

definition NoGuestLink :: guest_link where
  "NoGuestLink =
     \<lparr>gl_ID = [], gl_Label = [], gl_OwnerID = NoOwner, gl_Created = zero_time,
      gl_UrlExpires = zero_time, gl_MaxFileLifetime = FileLifetime 0, gl_MaxFileBytes = None,
      gl_MaxFileUploads = None, gl_IsDisabled = False, gl_FilesUploaded = 0\<rparr>"

definition GuestLink_Empty :: "guest_link \<Rightarrow> bool" where
  "GuestLink_Empty gl \<longleftrightarrow> gl_ID gl = []"

definition GuestLink_CanAcceptMoreFiles :: "guest_link \<Rightarrow> bool" where
  "GuestLink_CanAcceptMoreFiles gl =
     (case gl_MaxFileUploads gl of None \<Rightarrow> True | Some m \<Rightarrow> gl_FilesUploaded gl < m)"

text \<open>\<open>IsExpired\<close> reads \<open>time.Now()\<close>: the wall clock, not the clock the server is given.\<close>

definition GuestLink_IsExpired :: "time \<Rightarrow> guest_link \<Rightarrow> bool" where
  "GuestLink_IsExpired wall gl =
     (if gl_UrlExpires gl = NeverExpire then False else time_after wall (gl_UrlExpires gl))"

definition GuestLink_IsActive :: "time \<Rightarrow> guest_link \<Rightarrow> bool" where
  "GuestLink_IsActive wall gl \<longleftrightarrow>
     \<not> GuestLink_IsExpired wall gl \<and> GuestLink_CanAcceptMoreFiles gl \<and> \<not> gl_IsDisabled gl"

record upload_metadata =
  um_ID :: entry_id
  um_Filename :: filename
  um_Note :: file_note
  um_OwnerID :: user_id
  um_OwnerUsername :: username
  um_ContentType :: content_type
  um_Uploaded :: time
  um_Expires :: expiration_time
  um_Size :: file_size
  um_GuestLink :: guest_link
  um_DownloadCount :: u64
  um_DownloadPassphrase :: download_passphrase

record download_record =
  dr_Time :: time
  dr_ClientIP :: string
  dr_UserAgent :: string

definition User_CanManageEntry :: "user \<Rightarrow> upload_metadata \<Rightarrow> bool" where
  "User_CanManageEntry u entry \<longleftrightarrow>
     usr_IsAdmin u \<or> (\<not> UserID_Empty (um_OwnerID entry) \<and> um_OwnerID entry = usr_ID u)"

definition User_OwnsGuestLink :: "user \<Rightarrow> guest_link \<Rightarrow> bool" where
  "User_OwnsGuestLink u gl \<longleftrightarrow>
     \<not> UserID_Empty (gl_OwnerID gl) \<and> gl_OwnerID gl = usr_ID u"

section \<open>Sessions\<close>

datatype session_token = SessionToken (SessionToken_String: string)
datatype session_token_hash = SessionTokenHash (SessionTokenHash_String: string)

record session =
  ses_TokenHash :: session_token_hash
  ses_UserID :: user_id
  ses_Created :: time
  ses_Expires :: time

definition sessionTokenBytes :: nat where "sessionTokenBytes = 32"

definition NewSessionToken :: "(nat \<Rightarrow> nat) \<Rightarrow> session_token" where
  "NewSessionToken draw = SessionToken (b64_encode (random_Bytes draw sessionTokenBytes))"

definition SessionTokenFromString :: "string \<Rightarrow> domain_error + session_token" where
  "SessionTokenFromString raw =
     (case b64_decode raw of
        None \<Rightarrow> Inl ErrInvalidSessionToken
      | Some decoded \<Rightarrow>
          (if length decoded \<noteq> sessionTokenBytes then Inl ErrInvalidSessionToken
           else Inr (SessionToken raw)))"

definition SessionToken_Hash :: "session_token \<Rightarrow> session_token_hash" where
  "SessionToken_Hash t = SessionTokenHash (hex_encode (sha256 (SessionToken_String t)))"

lemma NewSessionToken_accepted:
  "SessionTokenFromString (SessionToken_String (NewSessionToken draw)) = Inr (NewSessionToken draw)"
  by (simp add: SessionTokenFromString_def NewSessionToken_def b64_decode_encode)

lemma length_SessionToken_Hash [simp]: "length (SessionTokenHash_String (SessionToken_Hash t)) = 64"
  by (simp add: SessionToken_Hash_def length_hex_encode)

section \<open>OIDC settings and the setup token\<close>

datatype oidc_issuer_url = OIDCIssuerURL (OIDCIssuerURL_String: string)
datatype oidc_redirect_url = OIDCRedirectURL (OIDCRedirectURL_String: string)
datatype oidc_client_id = OIDCClientID (OIDCClientID_String: string)
datatype oidc_client_secret = OIDCClientSecret (OIDCClientSecret_String: string)

record oidc_settings =
  os_IssuerURL :: oidc_issuer_url
  os_ExpectedIssuer :: string
  os_ClientID :: oidc_client_id
  os_ClientSecret :: oidc_client_secret
  os_RedirectURL :: oidc_redirect_url
  os_CACertPEM :: string

definition NoOIDCSettings :: oidc_settings where
  "NoOIDCSettings =
     \<lparr>os_IssuerURL = OIDCIssuerURL [], os_ExpectedIssuer = [], os_ClientID = OIDCClientID [],
      os_ClientSecret = OIDCClientSecret [], os_RedirectURL = OIDCRedirectURL [], os_CACertPEM = []\<rparr>"

definition OIDCSettings_IsConfigured :: "oidc_settings \<Rightarrow> bool" where
  "OIDCSettings_IsConfigured s \<longleftrightarrow> OIDCIssuerURL_String (os_IssuerURL s) \<noteq> []"

text \<open>
  The parser of \<open>net/url\<close> is a parameter: \<open>url_parse raw\<close> is the scheme and the host of a
  URL it accepts. An URL is absolute when its scheme is not empty.
\<close>

definition newOIDCURL :: "(string \<Rightarrow> (string \<times> string) option) \<Rightarrow> string \<Rightarrow> domain_error \<Rightarrow> domain_error + string" where
  "newOIDCURL url_parse raw errInvalid =
     (case url_parse raw of
        None \<Rightarrow> Inl errInvalid
      | Some (scheme, host) \<Rightarrow>
          (if scheme = [] \<or> (scheme \<noteq> ''http'' \<and> scheme \<noteq> ''https'') \<or> host = []
           then Inl errInvalid else Inr raw))"

definition NewOIDCIssuerURL :: "(string \<Rightarrow> (string \<times> string) option) \<Rightarrow> string \<Rightarrow> domain_error + oidc_issuer_url" where
  "NewOIDCIssuerURL url_parse raw =
     (case newOIDCURL url_parse raw ErrInvalidOIDCIssuerURL of
        Inl e \<Rightarrow> Inl e
      | Inr v \<Rightarrow> Inr (OIDCIssuerURL v))"

definition oidcCallbackPath :: string where "oidcCallbackPath = ''/oidc/callback''"

definition NewOIDCRedirectURL :: "(string \<Rightarrow> (string \<times> string) option) \<Rightarrow> string \<Rightarrow> domain_error + oidc_redirect_url" where
  "NewOIDCRedirectURL url_parse raw =
     (case newOIDCURL url_parse raw ErrInvalidOIDCRedirectURL of
        Inl e \<Rightarrow> Inl e
      | Inr v \<Rightarrow>
          (if \<not> has_suffix v oidcCallbackPath then Inl ErrInvalidOIDCRedirectURL
           else Inr (OIDCRedirectURL v)))"

definition OIDCRedirectURL_IsHTTPS :: "oidc_redirect_url \<Rightarrow> bool" where
  "OIDCRedirectURL_IsHTTPS u \<longleftrightarrow> has_prefix (OIDCRedirectURL_String u) ''https://''"

definition NewOIDCClientID :: "string \<Rightarrow> domain_error + oidc_client_id" where
  "NewOIDCClientID raw = (if raw = [] then Inl ErrInvalidOIDCClientID else Inr (OIDCClientID raw))"

definition NewOIDCClientSecret :: "string \<Rightarrow> domain_error + oidc_client_secret" where
  "NewOIDCClientSecret raw =
     (if raw = [] then Inl ErrInvalidOIDCClientSecret else Inr (OIDCClientSecret raw))"

datatype setup_token = SetupToken (SetupToken_String: string)

definition NewSetupToken :: "(nat \<Rightarrow> nat) \<Rightarrow> setup_token" where
  "NewSetupToken draw = SetupToken (b64_encode (random_Bytes draw 32))"

definition SetupTokenFromString :: "string \<Rightarrow> domain_error + setup_token" where
  "SetupTokenFromString raw = (if raw = [] then Inl SetupTokenEmpty else Inr (SetupToken raw))"

definition SetupToken_Hash :: "setup_token \<Rightarrow> string" where
  "SetupToken_Hash t = hex_encode (sha256 (SetupToken_String t))"

section \<open>Settings\<close>

record settings =
  set_DefaultFileLifetime :: file_lifetime
  set_DownloadHistoryRetention :: retention
  set_DefaultLanguage :: site_default_language
  set_MaxNonAdminFileLifetime :: file_lifetime

end
