(* ===== verification/Parse.thy ===== *)
theory Parse
  imports Domain
begin

text \<open>
  Package \<open>handlers/parse\<close>: validation of what clients send. The regular expression for
  forbidden note tags is a hand-written matcher of the same language.
\<close>

datatype parse_error =
  ErrFilenameEmpty
| ErrFilenameTooLong
| ErrFilenameHasDotPrefix
| ErrFilenameIllegalCharacters
| NoteTooLong
| NoteIsNull
| NoteIsUndefined
| NoteHasTags
| ErrExpirationUnrecognizedFormat
| ErrExpirationTooSoon
| ErrFileLifetimeTooShort
| ErrFileLifetimeTooLong
| ErrFileLifetimeUnrecognizedFormat
| ErrGuestLinkLabelTooLong
| ParseDomainError domain_error

section \<open>File names\<close>

definition MaxFilenameBytes :: nat where "MaxFilenameBytes = 255"

text \<open>Backslash, slash, and the control characters \<open>\a \b \t \n \v \f \r\<close>.\<close>

definition illegal_filename_chars :: string where
  "illegal_filename_chars = map char_of [92, 47, 7, 8, 9, 10, 11, 12, 13, 10 :: nat]"

definition parse_Filename :: "string \<Rightarrow> parse_error + filename" where
  "parse_Filename s =
     (if s = [] then Inl ErrFilenameEmpty
      else if MaxFilenameBytes < length s then Inl ErrFilenameTooLong
      else if s = ''.'' \<or> has_prefix s ''..'' then Inl ErrFilenameHasDotPrefix
      else if contains_any s illegal_filename_chars then Inl ErrFilenameIllegalCharacters
      else Inr s)"

text \<open>
  A name that \<open>parse_Filename\<close> accepts is a single path component that stays inside any
  directory it is joined to: not empty, not \<open>.\<close> or \<open>..\<close>, no separator, no line break.
\<close>

lemma parse_Filename_iff [validate_simps]:
  "parse_Filename s = Inr f \<longleftrightarrow>
     f = s \<and> 0 < length s \<and> length s \<le> 255 \<and> s \<noteq> ''.'' \<and> \<not> has_prefix s ''..'' \<and>
     set s \<inter> set illegal_filename_chars = {}"
  by (auto simp: parse_Filename_def MaxFilenameBytes_def contains_any_iff)

section \<open>Notes\<close>

definition is_regex_space :: "char \<Rightarrow> bool" where
  "is_regex_space c \<longleftrightarrow> byte_of c \<in> {9, 10, 12, 13, 32}"

text \<open>The tail of \<open><\s*/?((script)|(iframe))\s*>\<close> after its \<open><\<close>, at the front of a string.\<close>

definition tag_tail :: "string \<Rightarrow> bool" where
  "tag_tail s =
     (let s1 = dropWhile is_regex_space s;
          s2 = (case s1 of c # t \<Rightarrow> (if c = CHR ''/'' then t else s1) | [] \<Rightarrow> [])
      in (has_prefix s2 ''script'' \<or> has_prefix s2 ''iframe'') \<and>
         (case dropWhile is_regex_space (drop 6 s2) of c # _ \<Rightarrow> c = CHR ''>'' | [] \<Rightarrow> False))"

fun has_illegal_tag :: "string \<Rightarrow> bool" where
  "has_illegal_tag [] = False"
| "has_illegal_tag (c # s) = ((c = CHR ''<'' \<and> tag_tail s) \<or> has_illegal_tag s)"

definition checkJavaScriptNullOrUndefined :: "string \<Rightarrow> parse_error + unit" where
  "checkJavaScriptNullOrUndefined s =
     (if s = ''null'' then Inl NoteIsNull
      else if s = ''undefined'' then Inl NoteIsUndefined
      else Inr ())"

definition MaxFileNoteBytes :: nat where "MaxFileNoteBytes = 500"

definition parse_FileNote :: "string \<Rightarrow> parse_error + file_note" where
  "parse_FileNote s =
     (if s = [] then Inr None
      else if MaxFileNoteBytes < length s then Inl NoteTooLong
      else case checkJavaScriptNullOrUndefined s of
             Inl e \<Rightarrow> Inl e
           | Inr _ \<Rightarrow> (if has_illegal_tag s then Inl NoteHasTags else Inr (Some s)))"

lemma parse_FileNote_iff [validate_simps]:
  "parse_FileNote s = Inr n \<longleftrightarrow>
     (if s = [] then n = None
      else n = Some s \<and> length s \<le> 500 \<and> s \<noteq> ''null'' \<and> s \<noteq> ''undefined'' \<and> \<not> has_illegal_tag s)"
  by (auto simp: parse_FileNote_def MaxFileNoteBytes_def checkJavaScriptNullOrUndefined_def)

text \<open>The matcher finds exactly the occurrences of the expression's language.\<close>

inductive illegal_tag :: "string \<Rightarrow> bool" where
  "list_all is_regex_space ws \<Longrightarrow> slash = [] \<or> slash = ''/'' \<Longrightarrow>
     name = ''script'' \<or> name = ''iframe'' \<Longrightarrow> list_all is_regex_space ws' \<Longrightarrow>
     illegal_tag (''<'' @ ws @ slash @ name @ ws' @ ''>'')"

lemma dropWhile_all_append: "list_all P xs \<Longrightarrow> dropWhile P (xs @ ys) = dropWhile P ys"
  by (induction xs) auto

lemma takeWhile_list_all: "list_all P (takeWhile P xs)"
  by (induction xs) auto

lemma tag_tail_iff:
  "tag_tail s \<longleftrightarrow> (\<exists>t rest. illegal_tag (CHR ''<'' # t) \<and> s = t @ rest)"
proof
  assume tail: "tag_tail s"
  define ws s1 where "ws = takeWhile is_regex_space s" "s1 = dropWhile is_regex_space s"
  have s: "s = ws @ s1" by (simp add: ws_s1_def)
  obtain slash s2 where s1: "s1 = slash @ s2" "slash = [] \<or> slash = ''/''"
    and s2: "s2 = (case s1 of c # t \<Rightarrow> (if c = CHR ''/'' then t else s1) | [] \<Rightarrow> [])"
    by (cases s1; cases "hd s1 = CHR ''/''") (auto split: if_splits)
  have pre: "has_prefix s2 ''script'' \<or> has_prefix s2 ''iframe''"
    and gt: "case dropWhile is_regex_space (drop 6 s2) of c # _ \<Rightarrow> c = CHR ''>'' | [] \<Rightarrow> False"
    using tail unfolding tag_tail_def Let_def ws_s1_def(2) [symmetric] s2 [symmetric] by blast+
  obtain name where name: "s2 = name @ drop 6 s2" "name = ''script'' \<or> name = ''iframe''"
    using pre by (auto simp: has_prefix_iff)
  define ws' where "ws' = takeWhile is_regex_space (drop 6 s2)"
  obtain rest where "dropWhile is_regex_space (drop 6 s2) = CHR ''>'' # rest"
    using gt by (auto split: list.splits)
  then have "drop 6 s2 = ws' @ ''>'' @ rest"
    using takeWhile_dropWhile_id [of is_regex_space "drop 6 s2"] by (simp add: ws'_def)
  with s s1 name(1) have "s = (ws @ slash @ name @ ws' @ ''>'') @ rest" by simp
  moreover have "illegal_tag (''<'' @ ws @ slash @ name @ ws' @ ''>'')"
    using s1(2) name(2) by (intro illegal_tag.intros) (simp_all add: ws_s1_def ws'_def takeWhile_list_all)
  ultimately show "\<exists>t rest. illegal_tag (CHR ''<'' # t) \<and> s = t @ rest" by (metis append_Cons append_Nil)
next
  assume "\<exists>t rest. illegal_tag (CHR ''<'' # t) \<and> s = t @ rest"
  then obtain t rest where tag: "illegal_tag (CHR ''<'' # t)" and st: "s = t @ rest" by blast
  from tag obtain ws slash name ws' where t: "t = ws @ slash @ name @ ws' @ ''>''"
    and p: "list_all is_regex_space ws" "slash = [] \<or> slash = ''/''"
      "name = ''script'' \<or> name = ''iframe''" "list_all is_regex_space ws'"
    by cases simp
  have s: "s = ws @ slash @ name @ ws' @ ''>'' @ rest" by (simp add: st t)
  have sp: "\<not> is_regex_space (CHR ''s'')" "\<not> is_regex_space (CHR ''i'')"
    "\<not> is_regex_space (CHR ''/'')" "\<not> is_regex_space (CHR ''>'')"
    by (simp_all add: is_regex_space_def)
  show "tag_tail s"
    using p sp by (auto simp: tag_tail_def s dropWhile_all_append has_prefix_def)
qed

lemma has_illegal_tag_iff:
  "has_illegal_tag s \<longleftrightarrow> (\<exists>a t b. illegal_tag t \<and> s = a @ t @ b)"
proof (induction s)
  case Nil
  then show ?case by (auto elim: illegal_tag.cases)
next
  case (Cons c s)
  have lt: "\<exists>t'. t = CHR ''<'' # t'" if "illegal_tag t" for t
    using that by (auto elim: illegal_tag.cases)
  show ?case
  proof
    assume "has_illegal_tag (c # s)"
    then consider "c = CHR ''<''" "tag_tail s" | "has_illegal_tag s" by auto
    then consider t rest where "c = CHR ''<''" "illegal_tag (CHR ''<'' # t)" "s = t @ rest"
      | a t b where "illegal_tag t" "s = a @ t @ b"
      by cases (auto simp: tag_tail_iff dest: Cons.IH [THEN iffD1])
    then show "\<exists>a t b. illegal_tag t \<and> c # s = a @ t @ b"
      by cases (metis append_Cons append_Nil)+
  next
    assume "\<exists>a t b. illegal_tag t \<and> c # s = a @ t @ b"
    then obtain a t b where t: "illegal_tag t" "c # s = a @ t @ b" by blast
    show "has_illegal_tag (c # s)"
    proof (cases a)
      case Nil
      with t lt [OF t(1)] have "c = CHR ''<''" "tag_tail s"
        unfolding tag_tail_iff by auto
      then show ?thesis by simp
    next
      case (Cons x a')
      with t have "s = a' @ t @ b" by simp
      with Cons.IH t(1) show ?thesis by auto
    qed
  qed
qed

section \<open>Expiration times, lifetimes and labels\<close>

definition parse_Expiration :: "string \<Rightarrow> time \<Rightarrow> parse_error + expiration_time" where
  "parse_Expiration expirationRaw now =
     (case parse_rfc3339 expirationRaw of
        None \<Rightarrow> Inl ErrExpirationUnrecognizedFormat
      | Some expiration \<Rightarrow>
          (if time_sub expiration now < hour then Inl ErrExpirationTooSoon else Inr expiration))"

definition parse_FileLifetime :: "u16 \<Rightarrow> parse_error + file_lifetime" where
  "parse_FileLifetime lifetimeInDays =
     (if lifetimeInDays < 1 then Inl ErrFileLifetimeTooShort
      else if lifetimeInDays > 10 * 365 then Inl ErrFileLifetimeTooLong
      else Inr (NewFileLifetimeInDays lifetimeInDays))"

text \<open>On an error \<open>NewFileLifetimeFromDuration\<close> also returns the zero lifetime, which is compared.\<close>

definition parse_FileLifetimeFromString :: "string \<Rightarrow> parse_error + file_lifetime" where
  "parse_FileLifetimeFromString fileLifetimeRaw =
     (case parse_duration fileLifetimeRaw of
        None \<Rightarrow> Inl ErrFileLifetimeUnrecognizedFormat
      | Some dur \<Rightarrow>
          (let flt = (case NewFileLifetimeFromDuration dur of Inr lt \<Rightarrow> lt | Inl _ \<Rightarrow> FileLifetime 0)
           in if flt = FileLifetimeInfinite then Inr FileLifetimeInfinite
              else case NewFileLifetimeFromDuration dur of
                     Inl e \<Rightarrow> Inl (ParseDomainError e)
                   | Inr lt \<Rightarrow> Inr lt))"

definition parse_GuestLinkLabel :: "string \<Rightarrow> parse_error + guest_link_label" where
  "parse_GuestLinkLabel label =
     (if 200 < length label then Inl ErrGuestLinkLabelTooLong else Inr label)"

lemma parse_Expiration_iff [validate_simps]:
  "parse_Expiration raw now = Inr et \<longleftrightarrow> parse_rfc3339 raw = Some et \<and> hour \<le> time_sub et now"
  by (auto simp: parse_Expiration_def split: option.splits)

lemma parse_FileLifetimeFromString_iff [validate_simps]:
  "parse_FileLifetimeFromString raw = Inr lt \<longleftrightarrow>
     (\<exists>d. parse_duration raw = Some d \<and> 24 * hour \<le> d \<and> lt = FileLifetime d)"
  by (auto simp: parse_FileLifetimeFromString_def NewFileLifetimeFromDuration_def Let_def
      FileLifetimeInfinite_def NewFileLifetimeInYears_def NewFileLifetimeInDays_def duration_defs
      split: option.splits if_splits)

lemma parse_GuestLinkLabel_iff [validate_simps]:
  "parse_GuestLinkLabel label = Inr l \<longleftrightarrow> l = label \<and> length label \<le> 200"
  by (auto simp: parse_GuestLinkLabel_def)

end
