(* ===== verification/Schema.thy ===== *)
theory Schema
  imports Domain
begin

text \<open>
  The database: its tables as lists of rows in insertion order, with the columns, keys and
  CHECK constraints that the migrations leave behind, the errors of package \<open>store\<close> and of the
  driver, and the column formats of \<open>store/sqlite/sqlite.go\<close>. SQLite itself is a parameter: its
  \<open>datetime\<close> and \<open>length\<close> functions, whether the connection enforces foreign keys, and which
  statements fail (disk full, busy, I/O error).
\<close>

section \<open>Errors\<close>

datatype store_error =
  EntryNotFoundError entry_id
| GuestLinkNotFoundError guest_link_id
| UserNotFoundError user_id
| SessionNotFoundError
| LastAdminError
| ErrNoRows
| ConstraintError
| DriverError
| ConversionError
| TimeParseError
| DurationParseError
| StoreDomainError domain_error
| ReaderError
| PanicError

section \<open>Tables\<close>

record entry_row =
  er_id :: string
  er_guest_link_id :: "string option"
  er_filename :: string
  er_note :: "string option"
  er_content_type :: string
  er_upload_time :: string
  er_expiration_time :: "string option"
  er_download_passphrase :: "string option"
  er_owner_user_id :: "int option"

record chunk_row =
  cr_id :: string
  cr_chunk_index :: int
  cr_chunk :: string

record download_row =
  dl_entry_id :: string
  dl_timestamp :: string
  dl_client_ip :: string
  dl_user_agent :: string

record guest_link_row =
  glr_id :: string
  glr_label :: string
  glr_is_disabled :: bool
  glr_max_file_bytes :: "int option"
  glr_max_file_uploads :: "int option"
  glr_creation_time :: string
  glr_url_expiration_time :: "string option"
  glr_file_expiration_time :: "string option"
  glr_owner_user_id :: "int option"

record user_row =
  ur_id :: int
  ur_oidc_subject :: string
  ur_username :: string
  ur_email :: "string option"
  ur_is_admin :: bool
  ur_preferred_language :: "string option"
  ur_creation_time :: string
  ur_last_login_time :: string

record session_row =
  sr_token_hash :: string
  sr_user_id :: int
  sr_creation_time :: string
  sr_expiration_time :: string

record settings_row =
  str_default_expiration_in_days :: "int option"
  str_download_history_retention_days :: "int option"
  str_default_language :: "string option"
  str_max_non_admin_file_lifetime_days :: "int option"

record oidc_row =
  or_issuer_url :: "string option"
  or_expected_issuer :: "string option"
  or_client_id :: "string option"
  or_client_secret :: "string option"
  or_redirect_url :: "string option"
  or_ca_cert_pem :: "string option"
  or_setup_token_hash :: "string option"

record db =
  entries :: "entry_row list"
  entries_data :: "chunk_row list"
  downloads :: "download_row list"
  guest_links :: "guest_link_row list"
  users :: "user_row list"
  sessions :: "session_row list"
  settings_table :: "settings_row option"
  oidc_table :: "oidc_row option"

text \<open>The database right after the migrations.\<close>

definition empty_oidc_row :: oidc_row where
  "empty_oidc_row =
     \<lparr>or_issuer_url = None, or_expected_issuer = None, or_client_id = None,
      or_client_secret = None, or_redirect_url = None, or_ca_cert_pem = None,
      or_setup_token_hash = None\<rparr>"

definition initial_db :: db where
  "initial_db =
     \<lparr>entries = [], entries_data = [], downloads = [], guest_links = [], users = [],
      sessions = [],
      settings_table = Some \<lparr>str_default_expiration_in_days = Some 30,
        str_download_history_retention_days = None, str_default_language = None,
        str_max_non_admin_file_lifetime_days = None\<rparr>,
      oidc_table = Some empty_oidc_row\<rparr>"

section \<open>The store and its surroundings\<close>

datatype store_op =
  OpGetEntriesMetadata | OpGetEntryMetadata | OpReadEntryFile | OpInsertEntry
| OpUpdateEntryMetadata | OpDeleteEntry | OpGetGuestLink | OpGetGuestLinks | OpInsertGuestLink
| OpDeleteGuestLink | OpDisableGuestLink | OpEnableGuestLink | OpInsertEntryDownload
| OpGetEntryDownloads | OpRecordUserLogin | OpGetUsers | OpGrantAdmin | OpRevokeAdmin
| OpUpdateUserLanguage | OpInsertSession | OpGetSessionUser | OpDeleteSession | OpReadSettings
| OpUpdateSettings | OpReadOIDCSettings | OpUpdateOIDCSettings | OpClearOIDCSettings
| OpNeedsSetup | OpGenerateSetupToken | OpValidateSetupToken | OpDeleteExpiredEntries
| OpDeleteOrphanedRows | OpDeleteExpiredDownloadHistory | OpDeleteExpiredSessions
| OpReclaimFreePages

text \<open>
  What a store operation runs in: SQLite's functions, whether the connection has foreign keys
  on (the pragma is per connection, and only the first of the pool runs it), which statement of
  which operation fails in the driver, the clock when the operation reads it and when it is read
  again afterwards, the store's chunk size and whether it leaves checkpoints to Litestream, the URL
  parser, and the random numbers it draws.
\<close>

record env =
  sq_datetime :: "string \<Rightarrow> string option"
  sq_length :: "string \<Rightarrow> nat"
  sq_fk :: bool
  sq_fault :: "store_op \<Rightarrow> nat \<Rightarrow> bool"
  st_now :: time
  st_later :: time
  st_chunkSize :: nat
  st_optimizeForLitestream :: bool
  env_url_parse :: "string \<Rightarrow> (string \<times> string) option"
  env_draw :: "nat \<Rightarrow> nat"

text \<open>\<open>New\<close> replaces a zero chunk size by the default, so a store's chunk size is positive.\<close>

definition defaultChunkSize :: nat where "defaultChunkSize = 32768 * 10"

definition New_chunkSize :: "nat \<Rightarrow> nat" where
  "New_chunkSize param = (if param = 0 then defaultChunkSize else param)"

lemma New_chunkSize_pos [simp]: "0 < New_chunkSize n"
  by (simp add: New_chunkSize_def defaultChunkSize_def)

section \<open>Column formats\<close>

definition formatTime :: "time \<Rightarrow> string" where
  "formatTime t = format_rfc3339 (to_utc t)"

definition formatExpirationTime :: "expiration_time \<Rightarrow> string" where
  "formatExpirationTime et = formatTime et"

definition formatFileLifetime :: "file_lifetime \<Rightarrow> string" where
  "formatFileLifetime lt = FileLifetime_String lt"

definition parseDatetime :: "string \<Rightarrow> store_error + time" where
  "parseDatetime s = of_option TimeParseError (parse_rfc3339 s)"

definition wrap_domain :: "domain_error + 'a \<Rightarrow> store_error + 'a" where
  "wrap_domain r = (case r of Inl e \<Rightarrow> Inl (StoreDomainError e) | Inr a \<Rightarrow> Inr a)"

lemma wrap_domain_simps [simp]:
  "wrap_domain (Inl e) = Inl (StoreDomainError e)" "wrap_domain (Inr a) = Inr a"
  by (simp_all add: wrap_domain_def)

definition parseFileLifetime :: "string \<Rightarrow> store_error + file_lifetime" where
  "parseFileLifetime s =
     (case parse_duration s of
        None \<Rightarrow> Inl DurationParseError
      | Some d \<Rightarrow> wrap_domain (NewFileLifetimeFromDuration d))"

text \<open>A stored instant comes back in UTC without its fraction of a second.\<close>

lemma parseDatetime_formatTime [simp]:
  "text_range t \<Longrightarrow> parseDatetime (formatTime t) = Inr (trunc_secs t)"
  by (simp add: parseDatetime_def formatTime_def parse_format_utc)

lemma parseFileLifetime_format [simp]:
  "24 * hour \<le> lifetime_d lt \<Longrightarrow> lifetime_d lt \<le> max_int64 \<Longrightarrow>
     parseFileLifetime (formatFileLifetime lt) = Inr lt"
  by (cases lt)
    (simp add: parseFileLifetime_def formatFileLifetime_def FileLifetime_String_def
      parse_duration_string NewFileLifetimeFromDuration_def hour_def minute_def second_def)

lemma text_less_formatTime:
  "text_range t \<Longrightarrow> text_range u \<Longrightarrow>
     text_less (formatTime t) (formatTime u) \<longleftrightarrow> unix_secs t < unix_secs u"
  by (simp add: formatTime_def text_less_format_utc)

section \<open>SQLite's documented behaviour\<close>

text \<open>
  \<open>datetime\<close> of a timestamp in the store's format is the same date and time with a space for
  the \<open>T\<close> and without the \<open>Z\<close>; of a date alone it is midnight. \<open>length\<close> counts characters.
\<close>

definition datetime_text :: "time \<Rightarrow> string" where
  "datetime_text t = take 10 (formatTime t) @ '' '' @ take 8 (drop 11 (formatTime t))"

definition datetime_law :: "env \<Rightarrow> bool" where
  "datetime_law E \<longleftrightarrow>
     (\<forall>t. text_range t \<longrightarrow> sq_datetime E (formatTime t) = Some (datetime_text t)) \<and>
     sq_datetime E ''2022-02-20'' = Some ''2022-02-20 00:00:00''"

definition length_law :: "env \<Rightarrow> bool" where
  "length_law E \<longleftrightarrow>
     (\<forall>s. valid_utf8 s \<longrightarrow> 0 \<notin> set (runes s) \<longrightarrow> sq_length E s = rune_count s)"

lemma text_less_append_same: "text_less (p @ s) (p @ t) \<longleftrightarrow> text_less s t"
  by (induction p) auto

lemma text_less_append:
  "length p = length q \<Longrightarrow> text_less (p @ s) (q @ t) \<longleftrightarrow> text_less p q \<or> (p = q \<and> text_less s t)"
  by (induction p q rule: list_induct2) auto

lemma length_append_int_2: "0 \<le> x \<Longrightarrow> x < 100 \<Longrightarrow> length (append_int x 2) = 2"
  by (simp add: append_int_2)

lemma length_append_int_4: "0 \<le> x \<Longrightarrow> x < 10000 \<Longrightarrow> length (append_int x 4) = 4"
  by (simp add: append_int_4)

text \<open>A formatted timestamp is a date of ten characters, \<open>T\<close>, a time of eight, and \<open>Z\<close>.\<close>

lemma clock_bounds:
  fixes x :: int
  assumes "0 \<le> x" "x < 86400"
  shows "0 \<le> x div 3600 \<and> x div 3600 < 100 \<and> 0 \<le> x mod 3600 div 60 \<and>
    x mod 3600 div 60 < 100 \<and> 0 \<le> x mod 60 \<and> x mod 60 < 100"
proof -
  have "x div 3600 < 100" using assms by (simp add: div_less_iff_less_mult)
  moreover have "x mod 3600 < 3600" "x mod 60 < 60" by simp_all
  then have "x mod 3600 div 60 < 100" "x mod 60 < 100" by (simp_all add: div_less_iff_less_mult)
  ultimately show ?thesis using assms by (simp add: pos_imp_zdiv_nonneg_iff)
qed

lemma formatTime_parts:
  assumes "text_range t"
  obtains d c where "formatTime t = d @ ''T'' @ c @ ''Z''" "length d = 10" "length c = 8"
proof -
  define n where "n = unix_secs t"
  obtain y m d where date: "date_of_days (n div 86400) = (y, m, d)" by (metis prod_cases3)
  note y = text_range_year [OF assms, folded n_def, OF date]
  have md: "0 \<le> m" "m < 100" "0 \<le> d" "d < 100"
    using date_of_days_valid(1) [OF date] days_in_month_le [of y m] by (auto simp: valid_date_def)
  have clock: "0 \<le> n mod 86400" "n mod 86400 < 86400" by simp_all
  have "formatTime t =
      (append_int y 4 @ ''-'' @ append_int m 2 @ ''-'' @ append_int d 2) @ ''T'' @
      (append_int (n mod 86400 div 3600) 2 @ '':'' @ append_int (n mod 86400 mod 3600 div 60) 2 @
       '':'' @ append_int (n mod 86400 mod 60) 2) @ ''Z''"
    using date by (simp add: formatTime_def format_rfc3339_def to_utc_def unix_secs_def
        loc_offset_def zone_suffix_def Let_def n_def)
  then show ?thesis
    by (rule that)
      (use y md clock_bounds [OF clock] in \<open>simp_all add: length_append_int_2 length_append_int_4\<close>)
qed

lemma text_less_datetime_text:
  assumes "text_range t" and "text_range u"
  shows "text_less (datetime_text t) (datetime_text u) \<longleftrightarrow> unix_secs t < unix_secs u"
proof -
  obtain d c where t: "formatTime t = d @ ''T'' @ c @ ''Z''" "length d = 10" "length c = 8"
    using formatTime_parts [OF assms(1)] .
  obtain d' c' where u: "formatTime u = d' @ ''T'' @ c' @ ''Z''" "length d' = 10" "length c' = 8"
    using formatTime_parts [OF assms(2)] .
  have dt: "datetime_text t = d @ '' '' @ c" "datetime_text u = d' @ '' '' @ c'"
    by (simp_all add: datetime_text_def t u)
  have "text_less (datetime_text t) (datetime_text u) \<longleftrightarrow> text_less (formatTime t) (formatTime u)"
    unfolding dt t(1) u(1) using t u by (simp add: text_less_append)
  then show ?thesis by (simp add: text_less_formatTime assms)
qed

section \<open>Constraints\<close>

text \<open>\<open>datetime(x) IS NOT NULL AND datetime(x) >= datetime('2022-02-20')\<close>.\<close>

definition check_time :: "env \<Rightarrow> string \<Rightarrow> bool" where
  "check_time E s =
     (case (sq_datetime E s, sq_datetime E ''2022-02-20'') of
        (Some a, Some b) \<Rightarrow> \<not> text_less a b
      | _ \<Rightarrow> False)"

definition check_length :: "env \<Rightarrow> nat \<Rightarrow> nat \<Rightarrow> string \<Rightarrow> bool" where
  "check_length E lo hi s \<longleftrightarrow> lo \<le> sq_length E s \<and> sq_length E s \<le> hi"

definition check_null :: "('a \<Rightarrow> bool) \<Rightarrow> 'a option \<Rightarrow> bool" where
  "check_null P x = (case x of None \<Rightarrow> True | Some v \<Rightarrow> P v)"

lemma check_null_simps [simp]: "check_null P None" "check_null P (Some v) = P v"
  by (simp_all add: check_null_def)

text \<open>20 February 2022, the earliest instant the CHECK constraints let in.\<close>

definition picoshare_epoch :: time where
  "picoshare_epoch = utc_date 2022 2 20 0 0 0 0"

lemma picoshare_epoch_secs: "unix_secs picoshare_epoch = 1645315200"
  by (simp add: picoshare_epoch_def utc_date_def unix_secs_def days_of_date_def
      days_before_year_def days_before_month_def leap_def second_def)

lemma picoshare_epoch_datetime: "datetime_text picoshare_epoch = ''2022-02-20 00:00:00''"
proof -
  have "date_of_days 19043 = (2022, 2, 20)"
    using date_of_days_of_date [of 2022 2 20]
    by (simp add: valid_date_def days_in_month_def days_before_month_def days_of_date_def
        days_before_year_def leap_def)
  moreover have "unix_secs (to_utc picoshare_epoch) = 1645315200"
    using picoshare_epoch_secs by (simp add: unix_secs_def to_utc_def)
  moreover have "t_loc (to_utc picoshare_epoch) = UTC" by (simp add: to_utc_def)
  ultimately have "formatTime picoshare_epoch = ''2022-02-20T00:00:00Z''"
    unfolding formatTime_def format_rfc3339_def Let_def
    by (simp add: loc_offset_def zone_suffix_def append_int_def show_nat.simps digit_char_def char_of_def bit_Suc_0_iff)
  then show ?thesis by (simp add: datetime_text_def)
qed

lemma check_time_formatTime:
  assumes "datetime_law E" and "text_range t"
  shows "check_time E (formatTime t) \<longleftrightarrow> unix_secs picoshare_epoch \<le> unix_secs t"
proof -
  have "text_range picoshare_epoch" by (simp add: text_range_def picoshare_epoch_secs)
  then have "text_less (datetime_text t) ''2022-02-20 00:00:00'' \<longleftrightarrow>
      unix_secs t < unix_secs picoshare_epoch"
    using text_less_datetime_text [OF assms(2)] picoshare_epoch_datetime by metis
  then show ?thesis
    using assms unfolding check_time_def datetime_law_def by auto
qed

text \<open>The rows that each table accepts, besides its key.\<close>

definition entry_checks :: "env \<Rightarrow> entry_row \<Rightarrow> bool" where
  "entry_checks E r \<longleftrightarrow>
     check_time E (er_upload_time r) \<and>
     check_null (check_time E) (er_expiration_time r) \<and>
     check_null (check_length E 1 100) (er_download_passphrase r)"

definition entry_ok :: "env \<Rightarrow> db \<Rightarrow> entry_row \<Rightarrow> bool" where
  "entry_ok E d r \<longleftrightarrow>
     entry_checks E r \<and>
     (sq_fk E \<longrightarrow> check_null (\<lambda>i. i \<in> ur_id ` set (users d)) (er_owner_user_id r))"

definition guest_link_ok :: "env \<Rightarrow> db \<Rightarrow> guest_link_row \<Rightarrow> bool" where
  "guest_link_ok E d r \<longleftrightarrow>
     sq_length E (glr_label r) \<le> 200 \<and>
     check_null (\<lambda>n. 0 < n) (glr_max_file_bytes r) \<and>
     check_null (\<lambda>n. 0 < n) (glr_max_file_uploads r) \<and>
     check_time E (glr_creation_time r) \<and>
     check_null (check_time E) (glr_url_expiration_time r) \<and>
     (sq_fk E \<longrightarrow> check_null (\<lambda>i. i \<in> ur_id ` set (users d)) (glr_owner_user_id r))"

definition user_ok :: "env \<Rightarrow> user_row \<Rightarrow> bool" where
  "user_ok E r \<longleftrightarrow>
     check_length E 1 255 (ur_oidc_subject r) \<and>
     check_length E 1 200 (ur_username r) \<and>
     check_null (check_length E 3 320) (ur_email r) \<and>
     check_null (\<lambda>l. l = ''en'' \<or> l = ''zh-TW'') (ur_preferred_language r) \<and>
     check_time E (ur_creation_time r) \<and> check_time E (ur_last_login_time r)"

definition session_ok :: "env \<Rightarrow> db \<Rightarrow> session_row \<Rightarrow> bool" where
  "session_ok E d r \<longleftrightarrow>
     sq_length E (sr_token_hash r) = 64 \<and>
     check_time E (sr_creation_time r) \<and> check_time E (sr_expiration_time r) \<and>
     (sq_fk E \<longrightarrow> sr_user_id r \<in> ur_id ` set (users d))"

definition download_ok :: "env \<Rightarrow> db \<Rightarrow> download_row \<Rightarrow> bool" where
  "download_ok E d r \<longleftrightarrow>
     check_time E (dl_timestamp r) \<and>
     (sq_fk E \<longrightarrow> dl_entry_id r \<in> er_id ` set (entries d))"

definition settings_ok :: "settings_row \<Rightarrow> bool" where
  "settings_ok r \<longleftrightarrow>
     check_null (\<lambda>n. 0 \<le> n) (str_default_expiration_in_days r) \<and>
     check_null (\<lambda>n. 1 \<le> n \<and> n \<le> 3650) (str_download_history_retention_days r) \<and>
     check_null (\<lambda>l. l = ''en'' \<or> l = ''zh-TW'') (str_default_language r) \<and>
     check_null (\<lambda>n. 1 \<le> n \<and> n \<le> 36500) (str_max_non_admin_file_lifetime_days r)"

definition oidc_ok :: "env \<Rightarrow> oidc_row \<Rightarrow> bool" where
  "oidc_ok E r \<longleftrightarrow> check_null (\<lambda>h. sq_length E h = 64) (or_setup_token_hash r)"

text \<open>Every key of every table is unique, and no chunk has a negative index.\<close>

definition keys_ok :: "db \<Rightarrow> bool" where
  "keys_ok d \<longleftrightarrow>
     distinct (map er_id (entries d)) \<and>
     distinct (map (\<lambda>r. (cr_id r, cr_chunk_index r)) (entries_data d)) \<and>
     distinct (map glr_id (guest_links d)) \<and>
     distinct (map ur_id (users d)) \<and>
     distinct (map ur_oidc_subject (users d)) \<and>
     distinct (map sr_token_hash (sessions d))"

end
