(* ===== verification/Chunks.thy ===== *)
theory Chunks
  imports Schema
begin

text \<open>
  Package \<open>store/sqlite/file\<close>: the writer that splits an upload into rows of at most
  \<open>chunkSize\<close> bytes, and the reader that serves them back. The writer only sees the database
  through \<open>wrapped.SqlDB\<close>, whose \<open>Exec\<close> is an argument here and the locale \<open>sql_exec\<close> there;
  the interpretation is \<open>Exec\<close> on the \<open>entries_data\<close> table. An index or slice out of range and
  a division by zero are the panics they are in Go.
\<close>

section \<open>The layout of a file\<close>

function split_chunks :: "nat \<Rightarrow> string \<Rightarrow> string list" where
  "split_chunks L s = (if L = 0 \<or> s = [] then [] else take L s # split_chunks L (drop L s))"
  by pat_completeness auto
termination
  by (relation "measure (\<lambda>(L, s). length s)") auto

declare split_chunks.simps [simp del]

definition number_rows :: "string \<Rightarrow> nat \<Rightarrow> string list \<Rightarrow> chunk_row list" where
  "number_rows i k cs =
     map (\<lambda>(j, c). \<lparr>cr_id = i, cr_chunk_index = int j, cr_chunk = c\<rparr>) (zip [k..<k + length cs] cs)"

definition file_rows :: "string \<Rightarrow> nat \<Rightarrow> string \<Rightarrow> chunk_row list" where
  "file_rows i L s = number_rows i 0 (split_chunks L s)"

lemma split_chunks_Nil [simp]: "split_chunks L [] = []"
  by (simp add: split_chunks.simps)

lemma split_chunks_append:
  "0 < L \<Longrightarrow> L dvd length s \<Longrightarrow> split_chunks L (s @ t) = split_chunks L s @ split_chunks L t"
proof (induction L s rule: split_chunks.induct)
  case (1 L s)
  show ?case
  proof (cases "s = []")
    case False
    with 1 have L: "L \<le> length s" by (auto dest: dvd_imp_le)
    then have "L dvd length (drop L s)" using 1(3) by simp
    with 1 False have "split_chunks L (drop L s @ t) = split_chunks L (drop L s) @ split_chunks L t"
      by simp
    with L False 1(2) show ?thesis
      by (simp add: split_chunks.simps [of L s] split_chunks.simps [of L "s @ t"])
  qed simp
qed

lemma split_chunks_short: "0 < length s \<Longrightarrow> length s \<le> L \<Longrightarrow> split_chunks L s = [s]"
  using less_le_trans [of 0 "length s" L] by (auto simp: split_chunks.simps [of L s])

lemma concat_split_chunks: "0 < L \<Longrightarrow> concat (split_chunks L s) = s"
proof (induction L s rule: split_chunks.induct)
  case (1 L s)
  then show ?case by (cases "s = []") (simp_all add: split_chunks.simps [of L s])
qed

lemma length_split_chunks: "0 < L \<Longrightarrow> length (split_chunks L s) = (length s + L - 1) div L"
proof (induction L s rule: split_chunks.induct)
  case (1 L s)
  show ?case
  proof (cases "s = []")
    case True
    then show ?thesis using 1(2) by simp
  next
    case False
    with 1 have IH: "length (split_chunks L (drop L s)) = (length (drop L s) + L - 1) div L" by simp
    show ?thesis
    proof (cases "L \<le> length s")
      case True
      have "(length s + L - 1) div L = Suc ((length s - L + L - 1) div L)"
      proof -
        have "length s + L - 1 = (length s - L + L - 1) + L" using True 1(2) by simp
        then show ?thesis using 1(2) by (metis Suc_eq_plus1 div_add_self2 less_numeral_extra(3))
      qed
      then show ?thesis using IH False 1(2) by (simp add: split_chunks.simps [of L s])
    next
      case short: False
      then have "(length s + L - 1) div L = 1"
        using False 1(2) by (intro div_nat_eqI) (cases s; auto)+
      then show ?thesis using short False by (simp add: split_chunks_short)
    qed
  qed
qed

lemma length_split_chunks_dvd:
  assumes "0 < L" "L dvd length s"
  shows "length (split_chunks L s) = length s div L"
proof -
  obtain m where "length s = L * m" using assms(2) by blast
  then have "(length s + L - 1) div L = m"
    using assms(1) by (intro div_nat_eqI) (auto simp: algebra_simps)
  with \<open>length s = L * m\<close> assms(1) show ?thesis by (simp add: length_split_chunks)
qed

lemma nth_split_chunks:
  "0 < L \<Longrightarrow> j * L < length s \<Longrightarrow>
     j < length (split_chunks L s) \<and> split_chunks L s ! j = take L (drop (j * L) s)"
proof (induction j arbitrary: s)
  case 0
  then show ?case by (simp add: split_chunks.simps [of L s])
next
  case (Suc j)
  then have "j * L < length (drop L s)" by simp
  with Suc have "j < length (split_chunks L (drop L s)) \<and>
      split_chunks L (drop L s) ! j = take L (drop (j * L) (drop L s))" by blast
  moreover have "s \<noteq> []" using Suc.prems by auto
  ultimately show ?case
    using Suc.prems by (simp add: split_chunks.simps [of L s] add.commute)
qed

lemma number_rows_append:
  "number_rows i k (cs @ ds) = number_rows i k cs @ number_rows i (k + length cs) ds"
proof -
  have "[k..<k + length (cs @ ds)] = [k..<k + length cs] @ [k + length cs..<k + length cs + length ds]"
    using upt_add_eq_append [of k "k + length cs" "length ds"] by (simp add: add.assoc)
  then show ?thesis unfolding number_rows_def by (simp add: add.assoc)
qed

lemma number_rows_single: "number_rows i k [c] = [\<lparr>cr_id = i, cr_chunk_index = int k, cr_chunk = c\<rparr>]"
  by (simp add: number_rows_def)

lemma number_rows_Nil [simp]: "number_rows i k [] = []"
  by (simp add: number_rows_def)

section \<open>The writer\<close>

record writer =
  w_entryID :: string
  w_buf :: string
  w_written :: nat

datatype 'e write_error = ExecError 'e | WriterPanic

definition NewWriter :: "string \<Rightarrow> nat \<Rightarrow> writer" where
  "NewWriter i chunkSize = \<lparr>w_entryID = i, w_buf = replicate chunkSize (char_of (0 :: nat)), w_written = 0\<rparr>"

text \<open>\<open>flush\<close>: one row, from the first \<open>n\<close> bytes of the buffer.\<close>

definition flush :: "('s \<Rightarrow> chunk_row \<Rightarrow> ('e + unit) \<times> 's) \<Rightarrow> writer \<Rightarrow> nat \<Rightarrow> 's \<Rightarrow> ('e + unit) \<times> 's" where
  "flush exec w n s =
     exec s \<lparr>cr_id = w_entryID w, cr_chunk_index = int (w_written w div length (w_buf w)),
             cr_chunk = take n (w_buf w)\<rparr>"

text \<open>
  One turn of the loop of \<open>Write\<close> on what is left of the argument: fill the buffer from the
  position in the current chunk, flush a full one. It gives an error if any, the writer, the
  bytes taken, and the database.
\<close>

definition write_step ::
  "('s \<Rightarrow> chunk_row \<Rightarrow> ('e + unit) \<times> 's) \<Rightarrow> writer \<Rightarrow> string \<Rightarrow> 's \<Rightarrow>
     'e write_error option \<times> writer \<times> nat \<times> 's" where
  "write_step exec w p s =
     (if w_buf w = [] then (Some WriterPanic, w, 0, s)
      else (let dstStart = w_written w mod length (w_buf w);
                copySize = min (length (w_buf w) - dstStart) (length p);
                dstEnd = dstStart + copySize;
                w1 = w\<lparr>w_buf := take dstStart (w_buf w) @ take copySize p @ drop dstEnd (w_buf w)\<rparr>
            in if dstEnd = length (w_buf w) then
                 (case flush exec w1 (length (w_buf w1)) s of
                    (Inl e, s1) \<Rightarrow> (Some (ExecError e), w1, 0, s1)
                  | (Inr _, s1) \<Rightarrow> (None, w1\<lparr>w_written := w_written w + copySize\<rparr>, copySize, s1))
               else (None, w1\<lparr>w_written := w_written w + copySize\<rparr>, copySize, s)))"

lemma write_step_progress:
  "write_step exec w p s = (None, w1, c, s1) \<Longrightarrow> p \<noteq> [] \<Longrightarrow> 0 < c"
  by (auto simp: write_step_def Let_def split: if_splits sum.splits prod.splits)

text \<open>\<open>Write\<close>: the bytes taken so far, an error if any, the writer and the database.\<close>

function write_loop ::
  "('s \<Rightarrow> chunk_row \<Rightarrow> ('e + unit) \<times> 's) \<Rightarrow> writer \<Rightarrow> nat \<Rightarrow> string \<Rightarrow> 's \<Rightarrow>
     nat \<times> 'e write_error option \<times> writer \<times> 's" where
  "write_loop exec w n p s =
     (if p = [] then (n, None, w, s)
      else case write_step exec w p s of
             (Some e, w1, c, s1) \<Rightarrow> (n, Some e, w1, s1)
           | (None, w1, c, s1) \<Rightarrow> write_loop exec w1 (n + c) (drop c p) s1)"
  by pat_completeness auto
termination
  by (relation "measure (\<lambda>(exec, w, n, p, s). length p)")
    (auto dest!: sym [of _ "write_step _ _ _ _"] dest: write_step_progress)

declare write_loop.simps [simp del]

definition writer_Write where
  "writer_Write exec w p s = write_loop exec w 0 p s"

definition writer_Close ::
  "('s \<Rightarrow> chunk_row \<Rightarrow> ('e + unit) \<times> 's) \<Rightarrow> writer \<Rightarrow> 's \<Rightarrow> 'e write_error option \<times> 's" where
  "writer_Close exec w s =
     (if w_buf w = [] then (Some WriterPanic, s)
      else (let unflushed = w_written w mod length (w_buf w)
            in if unflushed \<noteq> 0 then
                 (case flush exec w unflushed s of
                    (Inl e, s1) \<Rightarrow> (Some (ExecError e), s1)
                  | (Inr _, s1) \<Rightarrow> (None, s1))
               else (None, s)))"

text \<open>
  \<open>io.Copy\<close>: the reader hands over its bytes in pieces of any size and then ends, or fails.
\<close>

record source =
  src_pieces :: "string list"
  src_fails :: bool

fun io_Copy ::
  "('s \<Rightarrow> chunk_row \<Rightarrow> ('e + unit) \<times> 's) \<Rightarrow> writer \<Rightarrow> string list \<Rightarrow> 's \<Rightarrow>
     'e write_error option \<times> writer \<times> 's" where
  "io_Copy exec w [] s = (None, w, s)"
| "io_Copy exec w (p # ps) s =
     (case writer_Write exec w p s of
        (_, Some e, w1, s1) \<Rightarrow> (Some e, w1, s1)
      | (_, None, w1, s1) \<Rightarrow> io_Copy exec w1 ps s1)"

section \<open>What the writer leaves in the database\<close>

text \<open>
  \<open>wrapped.SqlDB\<close>: the table of chunks is a part of the database that can be read and
  replaced; a successful \<open>Exec\<close> of the writer's INSERT adds its row at the end of the table and
  touches nothing else, a failed one changes nothing, and it succeeds where the table accepts
  the row.
\<close>

locale sql_exec =
  fixes exec :: "'s \<Rightarrow> chunk_row \<Rightarrow> ('e + unit) \<times> 's"
    and rows :: "'s \<Rightarrow> chunk_row list"
    and put :: "'s \<Rightarrow> chunk_row list \<Rightarrow> 's"
    and accepts :: "chunk_row list \<Rightarrow> chunk_row \<Rightarrow> bool"
  assumes rows_put [simp]: "rows (put s x) = x"
    and put_put [simp]: "put (put s x) y = put s y"
    and put_rows [simp]: "put s (rows s) = s"
    and exec_put: "exec s r = (Inr u, s1) \<Longrightarrow> s1 = put s (rows s @ [r])"
    and exec_err: "exec s r = (Inl e, s1) \<Longrightarrow> s1 = s"
    and exec_accepts: "accepts (rows s) r \<Longrightarrow> \<exists>s1. exec s r = (Inr (), s1)"

context sql_exec
begin

lemma exec_ok: "exec s r = (Inr u, s1) \<Longrightarrow> rows s1 = rows s @ [r]"
  by (auto dest: exec_put)

text \<open>The table holds the full chunks of what was written, the buffer starts with the rest.\<close>

definition winv :: "chunk_row list \<Rightarrow> string \<Rightarrow> nat \<Rightarrow> string \<Rightarrow> string \<Rightarrow> writer \<Rightarrow> 's \<Rightarrow> bool" where
  "winv base i L full tail w s \<longleftrightarrow>
     0 < L \<and> w_entryID w = i \<and> length (w_buf w) = L \<and> L dvd length full \<and> length tail < L \<and>
     w_written w = length full + length tail \<and> take (length tail) (w_buf w) = tail \<and>
     rows s = base @ file_rows i L full"

lemma winv_position:
  "winv base i L full tail w s \<Longrightarrow>
     w_written w mod length (w_buf w) = length tail \<and>
     w_written w div length (w_buf w) = length full div L"
  by (auto simp: winv_def)

lemma file_rows_snoc:
  assumes "0 < L" "L dvd length full" "0 < length c" "length c \<le> L"
  shows "file_rows i L (full @ c) =
    file_rows i L full @ [\<lparr>cr_id = i, cr_chunk_index = int (length full div L), cr_chunk = c\<rparr>]"
proof -
  have "length (split_chunks L full) = length full div L"
    by (rule length_split_chunks_dvd [OF assms(1,2)])
  moreover have "split_chunks L (full @ c) = split_chunks L full @ [c]"
    using split_chunks_append [OF assms(1,2), of c] split_chunks_short [OF assms(3,4)] by simp
  ultimately show ?thesis by (simp add: file_rows_def number_rows_append number_rows_single)
qed

lemma flush_rows:
  assumes "winv base i L full tail w s" and "flush exec w1 n s = (Inr u, s1)"
    and "w_entryID w1 = i" "w_written w1 = w_written w" "length (w_buf w1) = L"
    and "0 < n" "n \<le> L"
  shows "rows s1 = base @ file_rows i L (full @ take n (w_buf w1))"
proof -
  have L: "0 < L" "L dvd length full" "rows s = base @ file_rows i L full" "length (w_buf w) = L"
    using assms(1) by (auto simp: winv_def)
  have "w_written w1 div length (w_buf w1) = length full div L"
    using winv_position [OF assms(1)] assms(4,5) L(4) by simp
  then have "rows s1 = rows s @
      [\<lparr>cr_id = i, cr_chunk_index = int (length full div L), cr_chunk = take n (w_buf w1)\<rparr>]"
    using exec_ok [OF assms(2) [unfolded flush_def]] assms(3) by simp
  moreover have "0 < length (take n (w_buf w1))" "length (take n (w_buf w1)) \<le> L"
    using assms(5-7) by auto
  ultimately show ?thesis using file_rows_snoc [OF L(1,2)] L(3) by simp
qed

lemma write_step_winv:
  assumes inv: "winv base i L full tail w s" and p: "p \<noteq> []"
    and step: "write_step exec w p s = (None, w1, c, s1)"
  shows "c \<le> length p \<and>
    (\<exists>full1 tail1. winv base i L full1 tail1 w1 s1 \<and> full1 @ tail1 = full @ tail @ take c p)"
proof -
  define k where "k = length tail"
  have L: "0 < L" "length (w_buf w) = L" "k < L" "L dvd length full"
    and buf: "take k (w_buf w) = tail" using inv by (auto simp: winv_def k_def)
  have pos: "w_written w mod L = k" using winv_position [OF inv] L(2) by (simp add: k_def)
  have ne: "w_buf w \<noteq> []" using L by auto
  define cs where "cs = min (L - k) (length p)"
  define w2 where "w2 = w\<lparr>w_buf := tail @ take cs p @ drop (k + cs) (w_buf w)\<rparr>"
  have cs: "cs \<le> length p" "k + cs \<le> L" using L(3) by (auto simp: cs_def)
  have len: "length (w_buf w2) = L" using cs L(2,3) by (simp add: w2_def k_def)
  have take2: "take (k + cs) (w_buf w2) = tail @ take cs p" using cs by (simp add: w2_def k_def)
  have eq: "write_step exec w p s =
      (if k + cs = L then
         (case flush exec w2 L s of
            (Inl e, s1) \<Rightarrow> (Some (ExecError e), w2, 0, s1)
          | (Inr _, s1) \<Rightarrow> (None, w2\<lparr>w_written := w_written w + cs\<rparr>, cs, s1))
       else (None, w2\<lparr>w_written := w_written w + cs\<rparr>, cs, s))"
    using ne unfolding write_step_def Let_def L(2) pos cs_def [symmetric] buf w2_def [symmetric] len
    by simp
  show ?thesis
  proof (cases "k + cs = L")
    case True
    with eq step have fl: "flush exec w2 L s = (Inr (), s1)"
      and c: "c = cs" "w1 = w2\<lparr>w_written := w_written w + cs\<rparr>"
      by (auto split: prod.splits sum.splits)
    have "rows s1 = base @ file_rows i L (full @ take L (w_buf w2))"
      by (rule flush_rows [OF inv fl]) (use inv len L(1) in \<open>auto simp: w2_def winv_def\<close>)
    moreover have "take L (w_buf w2) = tail @ take cs p" using take2 True by simp
    moreover have "length (tail @ take cs p) = L" using True cs by (simp add: k_def)
    ultimately have "winv base i L (full @ tail @ take cs p) [] w1 s1"
      using inv len L(1,4) cs(1) by (auto simp: winv_def c w2_def)
    then show ?thesis using cs c by (metis append_Nil2)
  next
    case False
    with eq step have c: "c = cs" "w1 = w2\<lparr>w_written := w_written w + cs\<rparr>" "s1 = s" by auto
    have "winv base i L full (tail @ take cs p) w1 s1"
      using inv len cs False take2 by (auto simp: winv_def c w2_def k_def)
    then show ?thesis using cs c by blast
  qed
qed

lemma write_loop_step:
  assumes "p \<noteq> []" and "write_step exec w p s = (e, w1, c, s1)"
  shows "write_loop exec w n p s =
    (case e of Some err \<Rightarrow> (n, Some err, w1, s1)
     | None \<Rightarrow> write_loop exec w1 (n + c) (drop c p) s1)"
  using assms by (simp add: write_loop.simps [of exec w n p s] split: option.splits)

lemma write_loop_winv:
  "write_loop exec w n p s = (n1, None, w1, s1) \<Longrightarrow> winv base i L full tail w s \<Longrightarrow>
     n1 = n + length p \<and>
     (\<exists>full1 tail1. winv base i L full1 tail1 w1 s1 \<and> full1 @ tail1 = full @ tail @ p)"
proof (induction "length p" arbitrary: w n p s full tail rule: less_induct)
  case less
  show ?case
  proof (cases "p = []")
    case True
    then show ?thesis using less.prems by (auto simp: write_loop.simps)
  next
    case False
    obtain e w2 c s2 where step: "write_step exec w p s = (e, w2, c, s2)" by (metis prod_cases4)
    have "e = None"
      using less.prems(1) unfolding write_loop_step [OF False step] by (cases e) auto
    with step have step: "write_step exec w p s = (None, w2, c, s2)" by simp
    obtain full2 tail2 where inv2: "winv base i L full2 tail2 w2 s2"
      and eq: "full2 @ tail2 = full @ tail @ take c p" and c: "c \<le> length p"
      using write_step_winv [OF less.prems(2) False step] by blast
    have "write_loop exec w2 (n + c) (drop c p) s2 = (n1, None, w1, s1)"
      using less.prems(1) unfolding write_loop_step [OF False step] by simp
    moreover have "length (drop c p) < length p"
      using write_step_progress [OF step False] False by simp
    ultimately have "n1 = n + c + length (drop c p) \<and>
        (\<exists>full1 tail1. winv base i L full1 tail1 w1 s1 \<and> full1 @ tail1 = full2 @ tail2 @ drop c p)"
      using less.hyps inv2 by blast
    moreover have "full2 @ tail2 @ drop c p = full @ tail @ p" using eq by (metis append.assoc append_take_drop_id)
    ultimately show ?thesis using c by auto
  qed
qed

lemma io_Copy_winv:
  "io_Copy exec w ps s = (None, w1, s1) \<Longrightarrow> winv base i L full tail w s \<Longrightarrow>
     \<exists>full1 tail1. winv base i L full1 tail1 w1 s1 \<and> full1 @ tail1 = full @ tail @ concat ps"
proof (induction ps arbitrary: w s full tail)
  case Nil
  then show ?case by auto
next
  case (Cons p ps)
  obtain n e w2 s2 where W: "write_loop exec w 0 p s = (n, e, w2, s2)" by (metis prod_cases4)
  with Cons.prems(1) have e: "e = None" and rest: "io_Copy exec w2 ps s2 = (None, w1, s1)"
    by (auto simp: writer_Write_def split: option.splits)
  obtain full2 tail2 where "winv base i L full2 tail2 w2 s2" "full2 @ tail2 = full @ tail @ p"
    using write_loop_winv [OF W [unfolded e] Cons.prems(2)] by blast
  with Cons.IH [OF rest] show ?case by (metis append.assoc concat.simps(2))
qed

lemma winv_NewWriter: "0 < L \<Longrightarrow> rows s = base \<Longrightarrow> winv base i L [] [] (NewWriter i L) s"
  by (simp add: winv_def NewWriter_def file_rows_def)

lemma writer_Close_winv:
  assumes "writer_Close exec w s = (None, s1)" and inv: "winv base i L full tail w s"
  shows "rows s1 = base @ file_rows i L (full @ tail)"
proof (cases "tail = []")
  case True
  with winv_position [OF inv] have "w_written w mod length (w_buf w) = 0" by simp
  then show ?thesis using assms True by (auto simp: writer_Close_def winv_def Let_def split: if_splits)
next
  case False
  with winv_position [OF inv] have "w_written w mod length (w_buf w) \<noteq> 0" by simp
  moreover have "w_buf w \<noteq> []" using inv by (auto simp: winv_def)
  ultimately have "flush exec w (length tail) s = (Inr (), s1)"
    using assms winv_position [OF inv]
    by (auto simp: writer_Close_def Let_def split: prod.splits sum.splits)
  then have "rows s1 = base @ file_rows i L (full @ take (length tail) (w_buf w))"
    by (rule flush_rows [OF inv]) (use inv False in \<open>auto simp: winv_def\<close>)
  then show ?thesis using inv by (simp add: winv_def)
qed

text \<open>The writer only ever adds rows of its own file, also when it fails.\<close>

inductive adds :: "string \<Rightarrow> 's \<Rightarrow> 's \<Rightarrow> bool" for i where
  adds_refl: "adds i s s"
| adds_exec: "adds i s s1 \<Longrightarrow> exec s1 r = (Inr u, s2) \<Longrightarrow> cr_id r = i \<Longrightarrow> adds i s s2"

lemma adds_trans:
  assumes "adds i s s1" and "adds i s1 s2"
  shows "adds i s s2"
  using assms(2,1) by induction (auto intro: adds_exec)

lemma adds_rows: "adds i s s1 \<Longrightarrow> \<exists>rs. s1 = put s (rows s @ rs) \<and> (\<forall>r \<in> set rs. cr_id r = i)"
proof (induction rule: adds.induct)
  case (adds_refl s)
  show ?case by (rule exI [of _ "[]"]) simp
next
  case (adds_exec s s1 r u s2)
  then obtain rs where rs: "s1 = put s (rows s @ rs)" "\<forall>r \<in> set rs. cr_id r = i" by blast
  with exec_put [OF adds_exec(2)] have "s2 = put s (rows s @ rs @ [r])" by simp
  with rs adds_exec(3) show ?case by (intro exI [of _ "rs @ [r]"]) simp
qed

text \<open>A property of the table that each successful \<open>Exec\<close> keeps survives the writer.\<close>

lemma adds_invariant:
  assumes "adds i s s1" and "I (rows s)"
    and "\<And>t r u t1. I (rows t) \<Longrightarrow> exec t r = (Inr u, t1) \<Longrightarrow> I (rows t1)"
  shows "I (rows s1)"
  using assms(1,2)
proof induction
  case (adds_exec s s1 r u s2)
  then show ?case using assms(3) [OF _ adds_exec(2)] by simp
qed

lemma adds_put: "adds i s s1 \<Longrightarrow> s1 = put s (rows s1)"
  by (auto dest!: adds_rows)

lemma flush_adds: "flush exec w n s = (r, s1) \<Longrightarrow> adds (w_entryID w) s s1"
proof (cases r)
  case (Inl e)
  assume "flush exec w n s = (r, s1)"
  with Inl have "s1 = s" by (auto simp: flush_def dest: exec_err)
  then show ?thesis by (simp add: adds_refl)
next
  case (Inr u)
  assume "flush exec w n s = (r, s1)"
  with Inr show ?thesis unfolding flush_def by (auto intro: adds_exec [OF adds_refl])
qed

lemma write_step_adds:
  "write_step exec w p s = (e, w1, c, s1) \<Longrightarrow>
     adds (w_entryID w) s s1 \<and> w_entryID w1 = w_entryID w"
  by (auto simp: write_step_def Let_def adds_refl dest!: flush_adds split: if_splits prod.splits sum.splits)

lemma write_loop_adds:
  "write_loop exec w n p s = (n1, e, w1, s1) \<Longrightarrow>
     adds (w_entryID w) s s1 \<and> w_entryID w1 = w_entryID w"
proof (induction "length p" arbitrary: w n p s rule: less_induct)
  case less
  show ?case
  proof (cases "p = []")
    case True
    then show ?thesis using less.prems by (simp add: write_loop.simps adds_refl)
  next
    case False
    obtain e2 w2 c s2 where step: "write_step exec w p s = (e2, w2, c, s2)" by (metis prod_cases4)
    note a = write_step_adds [OF step]
    show ?thesis
    proof (cases e2)
      case None
      have "length (drop c p) < length p"
        using write_step_progress [OF step [unfolded None] False] False by simp
      moreover have "write_loop exec w2 (n + c) (drop c p) s2 = (n1, e, w1, s1)"
        using less.prems None unfolding write_loop_step [OF False step] by simp
      ultimately show ?thesis using less.hyps a adds_trans by metis
    next
      case (Some err)
      then show ?thesis
        using less.prems a unfolding write_loop_step [OF False step] by simp
    qed
  qed
qed

lemma io_Copy_adds:
  "io_Copy exec w ps s = (e, w1, s1) \<Longrightarrow> adds (w_entryID w) s s1 \<and> w_entryID w1 = w_entryID w"
proof (induction ps arbitrary: w s)
  case (Cons p ps)
  obtain n e2 w2 s2 where W: "write_loop exec w 0 p s = (n, e2, w2, s2)" by (metis prod_cases4)
  note a = write_loop_adds [OF W]
  show ?case
  proof (cases e2)
    case None
    then have "io_Copy exec w2 ps s2 = (e, w1, s1)" using Cons.prems W by (simp add: writer_Write_def)
    with Cons.IH a adds_trans show ?thesis by metis
  next
    case (Some err)
    then show ?thesis using Cons.prems W a by (simp add: writer_Write_def)
  qed
qed (simp add: adds_refl)

lemma writer_Close_adds: "writer_Close exec w s = (e, s1) \<Longrightarrow> adds (w_entryID w) s s1"
  by (auto simp: writer_Close_def Let_def adds_refl dest!: flush_adds split: if_splits prod.splits sum.splits)

text \<open>Whatever the pieces, a copy and a close that succeed add the chunks of the whole file.\<close>

lemma copy_close_rows:
  assumes "0 < L" and copy: "io_Copy exec (NewWriter i L) ps s = (None, w1, s1)"
    and close: "writer_Close exec w1 s1 = (None, s2)"
  shows "s2 = put s (rows s @ file_rows i L (concat ps))"
proof -
  obtain full tail where "winv (rows s) i L full tail w1 s1" "full @ tail = concat ps"
    using io_Copy_winv [OF copy winv_NewWriter [OF assms(1) refl]] by auto
  then have "rows s2 = rows s @ file_rows i L (concat ps)"
    using writer_Close_winv [OF close] by metis
  moreover have "adds i s s2"
    using io_Copy_adds [OF copy] writer_Close_adds [OF close] adds_trans
    by (simp add: NewWriter_def) metis
  ultimately show ?thesis using adds_put by metis
qed

text \<open>Where the table accepts each next chunk, the writer reports no error.\<close>

definition room :: "chunk_row list \<Rightarrow> string \<Rightarrow> bool" where
  "room base i \<longleftrightarrow>
     (\<forall>cs c. accepts (base @ number_rows i 0 cs) \<lparr>cr_id = i, cr_chunk_index = int (length cs), cr_chunk = c\<rparr>)"

lemma flush_succeeds:
  assumes "winv base i L full tail w s" and "room base i"
    and "w_entryID w1 = i" "w_written w1 = w_written w" "length (w_buf w1) = L"
  shows "\<exists>s1. flush exec w1 n s = (Inr (), s1)"
proof -
  have L: "0 < L" "L dvd length full" and r: "rows s = base @ file_rows i L full"
    and b: "length (w_buf w) = L"
    using assms(1) by (auto simp: winv_def)
  have "w_written w1 div length (w_buf w1) = length full div L"
    using winv_position [OF assms(1)] assms(4,5) b by simp
  moreover have "length (split_chunks L full) = length full div L"
    by (rule length_split_chunks_dvd [OF L])
  ultimately have "accepts (rows s) \<lparr>cr_id = i,
      cr_chunk_index = int (w_written w1 div length (w_buf w1)), cr_chunk = take n (w_buf w1)\<rparr>"
    using assms(2) unfolding room_def r file_rows_def by metis
  then show ?thesis using exec_accepts assms(3) by (simp add: flush_def)
qed

lemma write_step_succeeds:
  assumes inv: "winv base i L full tail w s" and room: "room base i" and p: "p \<noteq> []"
    and step: "write_step exec w p s = (e, w1, c, s1)"
  shows "e = None"
proof (rule ccontr)
  assume "e \<noteq> None"
  moreover have "w_buf w \<noteq> []" using inv by (auto simp: winv_def)
  moreover have "flush exec (w\<lparr>w_buf := b\<rparr>) n s \<noteq> (Inl e', s')" if "length b = L" for b n e' s'
    using flush_succeeds [OF inv room, of "w\<lparr>w_buf := b\<rparr>" n] inv that by (auto simp: winv_def)
  moreover have "length (w_buf w) = L" "length tail < L" using inv by (auto simp: winv_def)
  moreover have "w_written w mod L = length tail"
    using winv_position [OF inv] \<open>length (w_buf w) = L\<close> by simp
  ultimately show False
    using step
    by (auto simp: write_step_def Let_def min_def split: if_splits prod.splits sum.splits)
qed

lemma write_loop_succeeds:
  "write_loop exec w n p s = (n1, e, w1, s1) \<Longrightarrow> winv base i L full tail w s \<Longrightarrow> room base i \<Longrightarrow> e = None"
proof (induction "length p" arbitrary: w n p s full tail rule: less_induct)
  case less
  show ?case
  proof (cases "p = []")
    case True
    then show ?thesis using less.prems by (simp add: write_loop.simps)
  next
    case False
    obtain e2 w2 c s2 where step: "write_step exec w p s = (e2, w2, c, s2)" by (metis prod_cases4)
    with write_step_succeeds [OF less.prems(2,3) False step]
    have step: "write_step exec w p s = (None, w2, c, s2)" by simp
    obtain full2 tail2 where "winv base i L full2 tail2 w2 s2"
      using write_step_winv [OF less.prems(2) False step] by blast
    moreover have "write_loop exec w2 (n + c) (drop c p) s2 = (n1, e, w1, s1)"
      using less.prems(1) unfolding write_loop_step [OF False step] by simp
    moreover have "length (drop c p) < length p"
      using write_step_progress [OF step False] False by simp
    ultimately show ?thesis using less.hyps less.prems(3) by blast
  qed
qed

lemma io_Copy_succeeds:
  "io_Copy exec w ps s = (e, w1, s1) \<Longrightarrow> winv base i L full tail w s \<Longrightarrow> room base i \<Longrightarrow> e = None"
proof (induction ps arbitrary: w s full tail)
  case (Cons p ps)
  obtain n e2 w2 s2 where W: "write_loop exec w 0 p s = (n, e2, w2, s2)" by (metis prod_cases4)
  have e2: "e2 = None" by (rule write_loop_succeeds [OF W Cons.prems(2,3)])
  obtain full2 tail2 where "winv base i L full2 tail2 w2 s2"
    using write_loop_winv [OF W [unfolded e2] Cons.prems(2)] by blast
  then show ?case using Cons.IH Cons.prems W e2 by (simp add: writer_Write_def)
qed simp

lemma writer_Close_succeeds:
  assumes "writer_Close exec w s = (e, s1)" and inv: "winv base i L full tail w s" and "room base i"
  shows "e = None"
proof -
  have "flush exec w n s \<noteq> (Inl e', s')" for n e' s'
    using flush_succeeds [OF inv assms(3), of w n] inv by (auto simp: winv_def)
  moreover have "w_buf w \<noteq> []" using inv by (auto simp: winv_def)
  ultimately show ?thesis
    using assms(1) by (auto simp: writer_Close_def Let_def split: if_splits prod.splits sum.splits)
qed

lemma copy_close_succeeds:
  assumes "0 < L" and "room (rows s) i"
  shows "\<exists>w1 s1 s2. io_Copy exec (NewWriter i L) ps s = (None, w1, s1) \<and>
           writer_Close exec w1 s1 = (None, s2)"
proof -
  obtain e w1 s1 where C: "io_Copy exec (NewWriter i L) ps s = (e, w1, s1)" by (metis prod_cases3)
  note inv = winv_NewWriter [OF assms(1) refl, of s i]
  have e: "e = None" by (rule io_Copy_succeeds [OF C inv assms(2)])
  obtain full tail where inv1: "winv (rows s) i L full tail w1 s1"
    using io_Copy_winv [OF C [unfolded e] inv] by blast
  obtain e2 s2 where D: "writer_Close exec w1 s1 = (e2, s2)" by (metis surj_pair)
  with writer_Close_succeeds [OF D inv1 assms(2)] C e show ?thesis by blast
qed

end

text \<open>\<open>Exec\<close> of the writer's INSERT on the \<open>entries_data\<close> table, with its primary key and CHECK.\<close>

definition accepts_chunk :: "env \<Rightarrow> chunk_row list \<Rightarrow> chunk_row \<Rightarrow> bool" where
  "accepts_chunk E rs r \<longleftrightarrow>
     \<not> sq_fault E OpInsertEntry (Suc (nat (cr_chunk_index r))) \<and> 0 \<le> cr_chunk_index r \<and>
     (cr_id r, cr_chunk_index r) \<notin> (\<lambda>x. (cr_id x, cr_chunk_index x)) ` set rs"

definition exec_chunk :: "env \<Rightarrow> db \<Rightarrow> chunk_row \<Rightarrow> (store_error + unit) \<times> db" where
  "exec_chunk E d r =
     (if sq_fault E OpInsertEntry (Suc (nat (cr_chunk_index r))) then (Inl DriverError, d)
      else if \<not> accepts_chunk E (entries_data d) r then (Inl ConstraintError, d)
      else (Inr (), d\<lparr>entries_data := entries_data d @ [r]\<rparr>))"

interpretation chunk_table:
  sql_exec "exec_chunk E" entries_data "\<lambda>d x. d\<lparr>entries_data := x\<rparr>" "accepts_chunk E" for E
  by unfold_locales (auto simp: exec_chunk_def accepts_chunk_def split: if_splits)

lemma number_rows_keys:
  "map (\<lambda>x. (cr_id x, cr_chunk_index x)) (number_rows i k cs) =
     map (\<lambda>j. (i, int j)) [k..<k + length cs]"
proof -
  have "map (\<lambda>x. (cr_id x, cr_chunk_index x)) (number_rows i k cs) =
      map (\<lambda>j. (i, int j)) (map fst (zip [k..<k + length cs] cs))"
    unfolding number_rows_def map_map by (rule map_cong) auto
  moreover have "map fst (zip [k..<k + length cs] cs) = [k..<k + length cs]" by simp
  ultimately show ?thesis by (simp only:)
qed

lemma number_rows_key_notin:
  "(i, int (length cs)) \<notin> (\<lambda>x. (cr_id x, cr_chunk_index x)) ` set (number_rows i 0 cs)"
  unfolding set_map [symmetric] number_rows_keys by auto

lemma chunk_table_room:
  assumes "\<And>k. \<not> sq_fault E OpInsertEntry (Suc k)" and "\<And>r. r \<in> set base \<Longrightarrow> cr_id r \<noteq> i"
  shows "chunk_table.room E base i"
  using assms number_rows_key_notin [of i]
  by (auto simp: chunk_table.room_def accepts_chunk_def image_Un)

lemma file_rows_id: "r \<in> set (file_rows i L s) \<Longrightarrow> cr_id r = i"
  by (auto simp: file_rows_def number_rows_def)

lemma exec_chunk_keys:
  "distinct (map (\<lambda>r. (cr_id r, cr_chunk_index r)) (entries_data t)) \<Longrightarrow>
     exec_chunk E t r = (Inr u, t1) \<Longrightarrow>
     distinct (map (\<lambda>r. (cr_id r, cr_chunk_index r)) (entries_data t1))"
  by (auto simp: exec_chunk_def accepts_chunk_def image_iff split: if_splits)

end
