(* ===== verification/FileReader.thy ===== *)
theory FileReader
  imports Chunks
begin

text \<open>
  The reader of \<open>store/sqlite/file/reader.go\<close>: it finds the chunk size and the file length from
  the first and the last row of the file, and serves \<open>Read\<close> and \<open>Seek\<close> through a buffer of one
  chunk. The loop of \<open>Read\<close> is a partial function, so a loop that never returns is \<^const>\<open>None\<close>;
  the lemmas show that on a stored file it returns, with the bytes at the reader's position.
\<close>

record reader =
  r_entryID :: string
  r_fileLength :: int
  r_offset :: int
  r_chunkSize :: int
  r_buf :: string

datatype read_error = EOF | ReadError store_error | ReadPanic

datatype whence = SeekStart | SeekCurrent | SeekEnd

definition chunks_of :: "db \<Rightarrow> string \<Rightarrow> chunk_row list" where
  "chunks_of d i = sort_key cr_chunk_index (filter (\<lambda>r. cr_id r = i) (entries_data d))"

definition getChunkSize :: "env \<Rightarrow> db \<Rightarrow> string \<Rightarrow> store_error + int" where
  "getChunkSize E d i =
     (if sq_fault E OpReadEntryFile 0 then Inl DriverError
      else case chunks_of d i of
             [] \<Rightarrow> Inl ErrNoRows
           | r # _ \<Rightarrow> Inr (int (length (cr_chunk r))))"

definition getFileLength :: "env \<Rightarrow> db \<Rightarrow> string \<Rightarrow> int \<Rightarrow> store_error + int" where
  "getFileLength E d i chunkSize =
     (if sq_fault E OpReadEntryFile 1 then Inl DriverError
      else case rev (chunks_of d i) of
             [] \<Rightarrow> Inl ErrNoRows
           | r # _ \<Rightarrow> Inr (chunkSize * cr_chunk_index r + int (length (cr_chunk r))))"

definition NewReader :: "env \<Rightarrow> db \<Rightarrow> string \<Rightarrow> store_error + reader" where
  "NewReader E d i =
     (case getChunkSize E d i of
        Inl e \<Rightarrow> Inl e
      | Inr chunkSize \<Rightarrow>
          (case getFileLength E d i chunkSize of
             Inl e \<Rightarrow> Inl e
           | Inr len \<Rightarrow> Inr \<lparr>r_entryID = i, r_fileLength = len, r_offset = 0,
                             r_chunkSize = chunkSize, r_buf = []\<rparr>))"

definition populateBuffer :: "env \<Rightarrow> db \<Rightarrow> reader \<Rightarrow> read_error option \<times> reader" where
  "populateBuffer E d fr =
     (if r_offset fr = r_fileLength fr then (Some EOF, fr)
      else if r_chunkSize fr = 0 then (Some ReadPanic, fr)
      else (let chunkIndex = quot (r_offset fr) (r_chunkSize fr) in
            if sq_fault E OpReadEntryFile (Suc (Suc (nat chunkIndex))) then (Some (ReadError DriverError), fr)
            else case first_row (filter (\<lambda>r. cr_id r = r_entryID fr \<and> cr_chunk_index r = chunkIndex)
                        (entries_data d)) of
                   None \<Rightarrow> (Some (ReadError ErrNoRows), fr)
                 | Some row \<Rightarrow>
                     (let chunk = cr_chunk row; readStart = remnd (r_offset fr) (r_chunkSize fr) in
                      if readStart < 0 \<or> int (length chunk) < readStart then (Some ReadPanic, fr)
                      else (None, fr\<lparr>r_buf := drop (nat readStart) chunk,
                                    r_offset := r_offset fr + (int (length chunk) - readStart)\<rparr>))))"

text \<open>
  The loop of \<open>Read\<close> into a slice of \<open>k\<close> bytes, \<open>acc\<close> being the bytes read so far: the buffer
  reports the end when it is empty and bytes are wanted.
\<close>

partial_function (option) read_loop ::
  "env \<Rightarrow> db \<Rightarrow> reader \<Rightarrow> nat \<Rightarrow> string \<Rightarrow> (string \<times> read_error option \<times> reader) option" where
  "read_loop E d fr k acc =
     (if r_buf fr = [] \<and> length acc < k then
        (if r_offset fr = r_fileLength fr then Some (acc, Some EOF, fr)
         else case populateBuffer E d fr of
                (Some e, fr1) \<Rightarrow> Some (acc, Some e, fr1)
              | (None, fr1) \<Rightarrow> read_loop E d fr1 k acc)
      else (let n = min (k - length acc) (length (r_buf fr));
                acc1 = acc @ take n (r_buf fr);
                fr1 = fr\<lparr>r_buf := drop n (r_buf fr)\<rparr>
            in if k \<le> length acc1 then Some (acc1, None, fr1)
               else read_loop E d fr1 k acc1))"

definition reader_Read :: "env \<Rightarrow> db \<Rightarrow> reader \<Rightarrow> nat \<Rightarrow> (string \<times> read_error option \<times> reader) option" where
  "reader_Read E d fr k = read_loop E d fr k []"

definition reader_Seek :: "reader \<Rightarrow> int \<Rightarrow> whence \<Rightarrow> int \<times> reader" where
  "reader_Seek fr offset whence =
     (let fr1 = fr\<lparr>r_buf := []\<rparr>;
          fr2 = (case whence of
                   SeekStart \<Rightarrow> fr1\<lparr>r_offset := offset\<rparr>
                 | SeekCurrent \<Rightarrow> fr1\<lparr>r_offset := r_offset fr1 + offset\<rparr>
                 | SeekEnd \<Rightarrow> fr1\<lparr>r_offset := r_fileLength fr1 - offset\<rparr>)
      in (r_offset fr2, fr2))"

section \<open>Stored files\<close>

text \<open>The chunks of entry \<open>i\<close> are those the writer leaves for the bytes \<open>s\<close>.\<close>

definition stored :: "db \<Rightarrow> string \<Rightarrow> nat \<Rightarrow> string \<Rightarrow> bool" where
  "stored d i L s \<longleftrightarrow>
     0 < L \<and> s \<noteq> [] \<and> filter (\<lambda>r. cr_id r = i) (entries_data d) = file_rows i L s"

definition reads_ok :: "env \<Rightarrow> bool" where
  "reads_ok E \<longleftrightarrow> (\<forall>k. \<not> sq_fault E OpReadEntryFile k)"

lemma file_rows_nth:
  assumes "0 < L" and "j * L < length s"
  shows "filter (\<lambda>r. cr_chunk_index r = int j) (file_rows i L s) =
    [\<lparr>cr_id = i, cr_chunk_index = int j, cr_chunk = take L (drop (j * L) s)\<rparr>]"
proof -
  define cs where "cs = split_chunks L s"
  have j: "j < length cs" "cs ! j = take L (drop (j * L) s)"
    using nth_split_chunks [OF assms] by (simp_all add: cs_def)
  have split: "cs = take j cs @ cs ! j # drop (Suc j) cs" using j(1) by (simp add: id_take_nth_drop)
  have none: "filter (\<lambda>r. cr_chunk_index r = int j) (number_rows i k ds) = []"
    if "j < k \<or> k + length ds \<le> j" for k ds
    using that by (auto simp: number_rows_def filter_empty_conv set_zip)
  have "number_rows i 0 cs = number_rows i 0 (take j cs) @ number_rows i j [cs ! j] @
      number_rows i (Suc j) (drop (Suc j) cs)"
    using j(1) by (subst split) (simp add: number_rows_append [of _ _ "_ @ _"] number_rows_append
        number_rows_append [of i j "[cs ! j]" "drop (Suc j) cs", simplified])
  then show ?thesis
    using j by (simp add: file_rows_def cs_def [symmetric] none number_rows_single)
qed

lemma split_chunks_min: "0 < L \<Longrightarrow> s \<noteq> [] \<Longrightarrow> split_chunks (min L (length s)) s = split_chunks L s"
  using split_chunks_short [of s L] split_chunks_short [of s "length s"] by (auto simp: min_def)

lemma number_rows_indices: "map cr_chunk_index (number_rows i k cs) = map int [k..<k + length cs]"
  using arg_cong [OF number_rows_keys [of i k cs], of "map snd"] by (simp add: comp_def)

lemma chunks_of_stored:
  assumes "stored d i L s"
  shows "chunks_of d i = file_rows i L s"
proof -
  have "sorted (map cr_chunk_index (file_rows i L s))"
    unfolding file_rows_def number_rows_indices by (simp add: sorted_map sorted_wrt_upt)
  then show ?thesis
    using assms by (simp add: chunks_of_def stored_def sorted_sort_id sort_key_id_if_sorted)
qed

lemma last_chunk:
  assumes "0 < C" and "s \<noteq> []"
  obtains j where "j * C < length s" "length s \<le> j * C + C" "length (split_chunks C s) = Suc j"
proof -
  define j where "j = (length s - 1) div C"
  have "(length s + C - 1) div C = Suc j"
  proof -
    have eq: "length s + C - 1 = (length s - 1) + C" using assms by (cases s) auto
    show ?thesis unfolding eq j_def using div_add_self2 [of C "length s - 1"] assms(1) by simp
  qed
  moreover have "j * C \<le> length s - 1" by (simp add: j_def)
  moreover have "length s - 1 < j * C + C"
    using dividend_less_div_times [OF assms(1), of "length s - 1"] by (simp add: j_def add.commute)
  moreover have "0 < length s" using assms(2) by simp
  ultimately have "j * C < length s" "length s \<le> j * C + C" "length (split_chunks C s) = Suc j"
    using length_split_chunks [OF assms(1), of s] by linarith+
  then show ?thesis by (rule that)
qed

text \<open>The reader's position: the file's bytes up to it are read, the buffer holds the next ones.\<close>

definition rinv :: "string \<Rightarrow> nat \<Rightarrow> string \<Rightarrow> nat \<Rightarrow> reader \<Rightarrow> bool" where
  "rinv i C s pos fr \<longleftrightarrow>
     r_entryID fr = i \<and> r_fileLength fr = int (length s) \<and> r_chunkSize fr = int C \<and>
     pos + length (r_buf fr) \<le> length s \<and> r_offset fr = int (pos + length (r_buf fr)) \<and>
     r_buf fr = take (length (r_buf fr)) (drop pos s)"

abbreviation "read_chunk L s \<equiv> min L (length s)"

lemma stored_read_chunk: "stored d i L s \<Longrightarrow> stored d i (read_chunk L s) s"
  by (simp add: stored_def file_rows_def split_chunks_min)

lemma NewReader_stored:
  assumes st: "stored d i L s" and "reads_ok E"
  shows "\<exists>fr. NewReader E d i = Inr fr \<and> rinv i (read_chunk L s) s 0 fr"
proof -
  define C where "C = read_chunk L s"
  have C: "0 < C" "C \<le> length s" "s \<noteq> []" using st by (auto simp: stored_def C_def)
  define cs where "cs = split_chunks C s"
  have rows: "chunks_of d i = number_rows i 0 cs"
    using chunks_of_stored [OF stored_read_chunk [OF st]] by (simp add: file_rows_def cs_def C_def)
  obtain j where j: "j * C < length s" "length s \<le> j * C + C" "length cs = Suc j"
    using last_chunk [OF C(1,3)] unfolding cs_def by blast
  have first: "cs ! 0 = take C s" and lst: "cs ! j = drop (j * C) s"
    using nth_split_chunks [OF C(1), of 0 s] nth_split_chunks [OF C(1) j(1)] C j
    by (simp_all add: cs_def)
  have nth: "number_rows i 0 cs ! m = \<lparr>cr_id = i, cr_chunk_index = int m, cr_chunk = cs ! m\<rparr>"
    if "m < Suc j" for m
    using that j(3) by (simp add: number_rows_def del: upt_Suc)
  have len: "length (number_rows i 0 cs) = Suc j" using j(3) by (simp add: number_rows_def)
  obtain more where "chunks_of d i = \<lparr>cr_id = i, cr_chunk_index = 0, cr_chunk = take C s\<rparr> # more"
    using nth [of 0] len first rows by (cases "number_rows i 0 cs") auto
  then have size: "getChunkSize E d i = Inr (int C)"
    using assms(2) C by (simp add: getChunkSize_def reads_ok_def)
  obtain more' where "rev (chunks_of d i) =
      \<lparr>cr_id = i, cr_chunk_index = int j, cr_chunk = drop (j * C) s\<rparr> # more'"
    using nth [of j] len lst rows
    by (metis hd_Cons_tl hd_rev last_conv_nth length_0_conv lessI diff_Suc_1 nat.distinct(1) rev_is_Nil_conv)
  then have "getFileLength E d i (int C) = Inr (int C * int j + int (length s - j * C))"
    using assms(2) by (simp add: getFileLength_def reads_ok_def)
  moreover have "int C * int j + int (length s - j * C) = int (length s)"
    using j(1) by (simp add: of_nat_diff mult.commute)
  ultimately show ?thesis
    using size by (simp add: NewReader_def rinv_def C_def)
qed

lemma reader_Seek_rinv:
  "rinv i C s pos fr \<Longrightarrow> n \<le> length s \<Longrightarrow>
     reader_Seek fr (int n) SeekStart = (int n, snd (reader_Seek fr (int n) SeekStart)) \<and>
     rinv i C s n (snd (reader_Seek fr (int n) SeekStart))"
  "rinv i C s pos fr \<Longrightarrow>
     fst (reader_Seek fr 0 SeekEnd) = int (length s) \<and>
     rinv i C s (length s) (snd (reader_Seek fr 0 SeekEnd))"
  by (simp_all add: reader_Seek_def rinv_def)

lemma populate_rinv:
  assumes st: "stored d i L s" and ok: "reads_ok E" and inv: "rinv i (read_chunk L s) s pos fr"
    and empty: "r_buf fr = []" and pos: "pos < length s"
  shows "\<exists>fr1. populateBuffer E d fr = (None, fr1) \<and> rinv i (read_chunk L s) s pos fr1 \<and> r_buf fr1 \<noteq> []"
proof -
  define C where "C = read_chunk L s"
  have C: "0 < C" using st by (auto simp: stored_def C_def)
  define j where "j = pos div C"
  have f: "r_entryID fr = i" "r_fileLength fr = int (length s)" "r_chunkSize fr = int C"
    "r_offset fr = int pos"
    using inv empty by (auto simp: rinv_def C_def)
  have idx: "quot (r_offset fr) (r_chunkSize fr) = int j"
    "remnd (r_offset fr) (r_chunkSize fr) = int (pos mod C)"
    using C by (simp_all add: f j_def zdiv_int zmod_int)
  have jC: "j * C + pos mod C = pos" by (simp add: j_def)
  then have "j * C < length s" using pos by linarith
  have "filter (\<lambda>r. cr_id r = i \<and> cr_chunk_index r = int j) (entries_data d) =
      filter (\<lambda>r. cr_chunk_index r = int j) (filter (\<lambda>r. cr_id r = i) (entries_data d))"
    by (simp add: conj_commute)
  also have "\<dots> = [\<lparr>cr_id = i, cr_chunk_index = int j, cr_chunk = take C (drop (j * C) s)\<rparr>]"
    using stored_read_chunk [OF st] file_rows_nth [OF C \<open>j * C < length s\<close>]
    by (simp add: stored_def C_def)
  finally have row: "first_row (filter (\<lambda>r. cr_id r = i \<and> cr_chunk_index r = int j) (entries_data d)) =
      Some \<lparr>cr_id = i, cr_chunk_index = int j, cr_chunk = take C (drop (j * C) s)\<rparr>" by simp
  define b where "b = drop (pos mod C) (take C (drop (j * C) s))"
  have b: "b = take (C - pos mod C) (drop pos s)"
    using jC by (simp add: b_def drop_take add.commute)
  have modC: "pos mod C < C" using C by simp
  have lenc: "pos mod C \<le> length (take C (drop (j * C) s))" using jC pos modC by simp
  have lenb: "int (length (take C (drop (j * C) s))) - int (pos mod C) = int (length b)"
    using lenc by (simp add: b_def of_nat_diff)
  define fr1 where "fr1 = fr\<lparr>r_buf := b, r_offset := int pos + int (length b)\<rparr>"
  have "populateBuffer E d fr = (None, fr1)"
    unfolding populateBuffer_def Let_def idx f(1) row
    using pos C ok lenc lenb modC by (simp add: f reads_ok_def fr1_def b_def)
  moreover have "b \<noteq> []" using b pos modC by simp
  moreover have "rinv i C s pos fr1"
    using f pos by (auto simp: rinv_def fr1_def b min_def)
  ultimately show ?thesis by (auto simp: fr1_def C_def)
qed

text \<open>A turn that serves from the buffer, or has nothing left to serve.\<close>

lemma read_turn:
  assumes inv: "rinv i C s pos fr" and serve: "r_buf fr \<noteq> [] \<or> k \<le> length acc"
    and n: "n = min (k - length acc) (length (r_buf fr))" and fr1: "fr1 = fr\<lparr>r_buf := drop n (r_buf fr)\<rparr>"
  shows "read_loop E d fr k acc =
      (if k \<le> length acc + n then Some (acc @ take n (drop pos s), None, fr1)
       else read_loop E d fr1 k (acc @ take n (drop pos s)))"
    and "rinv i C s (pos + n) fr1" and "pos + length (r_buf fr) \<le> length s"
proof -
  define b where "b = r_buf fr"
  have b: "b = take (length b) (drop pos s)" "pos + length b \<le> length s"
    using inv by (auto simp: rinv_def b_def)
  show "pos + length (r_buf fr) \<le> length s" using b(2) by (simp add: b_def)
  have nb: "n = min (k - length acc) (length b)" by (simp add: n b_def)
  then have taken: "take n b = take n (drop pos s)"
    using b(1) by (metis min.cobounded2 min.commute min.left_idem take_take)
  have len: "length (take n b) = n" using nb by simp
  have "read_loop E d fr k acc =
      (if k \<le> length (acc @ take n b) then Some (acc @ take n b, None, fr1)
       else read_loop E d fr1 k (acc @ take n b))"
    using serve by (subst read_loop.simps) (auto simp: Let_def nb b_def fr1)
  then show "read_loop E d fr k acc =
      (if k \<le> length acc + n then Some (acc @ take n (drop pos s), None, fr1)
       else read_loop E d fr1 k (acc @ take n (drop pos s)))"
    using len unfolding taken [symmetric] by simp
  have "drop n b = take (length b - n) (drop (pos + n) s)"
    using b(1) by (metis add.commute drop_drop drop_take)
  then show "rinv i C s (pos + n) fr1" using inv b by (auto simp: rinv_def fr1 b_def nb min_def)
qed

text \<open>A read returns the bytes at the position, and reports the end when it asks beyond it.\<close>

lemma read_loop_stored:
  assumes st: "stored d i L s" and ok: "reads_ok E"
  shows "rinv i (read_chunk L s) s pos fr \<Longrightarrow> length acc \<le> k \<Longrightarrow>
    \<exists>fr1. read_loop E d fr k acc =
        Some (acc @ take (k - length acc) (drop pos s),
              if length s - pos < k - length acc then Some EOF else None, fr1) \<and>
      rinv i (read_chunk L s) s (pos + min (k - length acc) (length s - pos)) fr1"
proof (induction "k - length acc" arbitrary: pos fr acc rule: less_induct)
  case less
  note inv = less.prems(1)
  define want where "want = k - length acc"
  have served: "\<exists>fr1. read_loop E d fr k acc =
        Some (acc @ take want (drop pos s), if length s - pos < want then Some EOF else None, fr1) \<and>
      rinv i (read_chunk L s) s (pos + min want (length s - pos)) fr1"
    if inv: "rinv i (read_chunk L s) s pos fr" and buf: "r_buf fr \<noteq> [] \<or> want = 0" for fr
  proof -
    define n where "n = min want (length (r_buf fr))"
    define fr1 where "fr1 = fr\<lparr>r_buf := drop n (r_buf fr)\<rparr>"
    have "r_buf fr \<noteq> [] \<or> k \<le> length acc" using buf by (auto simp: want_def)
    note turn = read_turn [OF inv this n_def [unfolded want_def] fr1_def]
    show ?thesis
    proof (cases "want \<le> length (r_buf fr)")
      case True
      then show ?thesis using turn less.prems(2) by (auto simp: n_def want_def min_def)
    next
      case False
      then have n: "n = length (r_buf fr)" by (simp add: n_def)
      with False buf have "0 < n" by auto
      then have "want - n < want" using False n by simp
      moreover have acc: "k - length (acc @ take n (drop pos s)) = want - n" "length (acc @ take n (drop pos s)) \<le> k"
        using turn(3) False n by (auto simp: want_def)
      ultimately obtain fr2 where rest: "read_loop E d fr1 k (acc @ take n (drop pos s)) =
          Some ((acc @ take n (drop pos s)) @ take (want - n) (drop (pos + n) s),
                if length s - (pos + n) < want - n then Some EOF else None, fr2)"
        and inv2: "rinv i (read_chunk L s) s (pos + n + min (want - n) (length s - (pos + n))) fr2"
        using less.hyps [of "acc @ take n (drop pos s)", OF _ turn(2)] unfolding acc(1) want_def [symmetric] by blast
      have "take n (drop pos s) @ take (want - n) (drop (pos + n) s) = take want (drop pos s)"
        using False n by (metis add.commute drop_drop le_add_diff_inverse nat_le_linear take_add)
      moreover have "length s - (pos + n) < want - n \<longleftrightarrow> length s - pos < want"
        using False n turn(3) by auto
      moreover have "pos + n + min (want - n) (length s - (pos + n)) = pos + min want (length s - pos)"
        using False n turn(3) by auto
      note inv2 [unfolded this]
      moreover have "\<not> k \<le> length acc + n" using False n by (simp add: want_def)
      ultimately show ?thesis using rest turn(1) by auto
    qed
  qed
  show ?case
  proof (cases "r_buf fr \<noteq> [] \<or> want = 0")
    case True
    then show ?thesis using served inv unfolding want_def by blast
  next
    case False
    then have empty: "r_buf fr = []" "length acc < k" using less.prems(2) by (auto simp: want_def)
    have posle: "pos \<le> length s" using inv by (simp add: rinv_def)
    show ?thesis
    proof (cases "pos = length s")
      case True
      then have "r_offset fr = r_fileLength fr" using inv empty(1) by (simp add: rinv_def)
      then have "read_loop E d fr k acc = Some (acc, Some EOF, fr)"
        using empty by (subst read_loop.simps) simp
      then show ?thesis using True inv empty by auto
    next
      case less_len: False
      then obtain fr1 where fr1: "populateBuffer E d fr = (None, fr1)"
        "rinv i (read_chunk L s) s pos fr1" "r_buf fr1 \<noteq> []"
        using populate_rinv [OF st ok inv empty(1)] posle by auto
      have "r_offset fr \<noteq> r_fileLength fr" using inv empty(1) less_len by (simp add: rinv_def)
      then have "read_loop E d fr k acc = read_loop E d fr1 k acc"
        using empty fr1(1) by (subst read_loop.simps) simp
      then show ?thesis using served [OF fr1(2)] fr1(3) unfolding want_def by simp
    qed
  qed
qed

lemma reader_Read_stored:
  assumes "stored d i L s" "reads_ok E" "rinv i (read_chunk L s) s pos fr"
  shows "\<exists>fr1. reader_Read E d fr k =
      Some (take k (drop pos s), if length s - pos < k then Some EOF else None, fr1) \<and>
    rinv i (read_chunk L s) s (pos + min k (length s - pos)) fr1"
  using read_loop_stored [OF assms(1,2), of pos fr "[]" k] assms(3)
  by (simp add: reader_Read_def)

end
