(* ===== verification/StoreGuestLinks.thy ===== *)
theory StoreGuestLinks
  imports Schema
begin

text \<open>
  The statements every store operation is made of, and \<open>store/sqlite/guest_links.go\<close>.
  A reading operation maps the database to a result or an error; a writing operation returns
  an error or nothing, and the database after it. In a transaction the database after an
  error is the one before it.
\<close>

section \<open>Statements, transactions, rows\<close>

text \<open>Statement \<open>k\<close> of an operation: the driver runs it, or fails.\<close>

definition stmt :: "env \<Rightarrow> store_op \<Rightarrow> nat \<Rightarrow> store_error + unit" where
  "stmt E op k = ensure (\<not> sq_fault E op k) DriverError"

definition no_faults :: "env \<Rightarrow> store_op \<Rightarrow> bool" where
  "no_faults E op \<longleftrightarrow> (\<forall>k. \<not> sq_fault E op k)"

lemma stmt_cases: "stmt E op k = Inl e \<Longrightarrow> e = DriverError" "stmt E op k = Inr u \<longleftrightarrow> \<not> sq_fault E op k"
  by (auto simp: stmt_def ensure_def split: if_splits)

lemma stmt_ok [simp]: "no_faults E op \<Longrightarrow> stmt E op k = Inr ()"
  by (simp add: stmt_def no_faults_def)

definition transaction :: "db \<Rightarrow> store_error + 'a \<times> db \<Rightarrow> (store_error + 'a) \<times> db" where
  "transaction d body = (case body of Inl e \<Rightarrow> (Inl e, d) | Inr (a, d1) \<Rightarrow> (Inr a, d1))"

lemma transaction_simps [simp]:
  "transaction d (Inl e) = (Inl e, d)" "transaction d (Inr (a, d1)) = (Inr a, d1)"
  by (simp_all add: transaction_def)

lemma transaction_atomic: "transaction d body = (Inl e, d1) \<Longrightarrow> d1 = d"
  by (auto simp: transaction_def split: sum.splits)

text \<open>
  The rows a loop over \<open>rows.Next()\<close> gets to see: when a step fails, \<open>Next\<close> returns false as it
  does at the end, and the loop ends without an error of its own.
\<close>

fun fetched :: "env \<Rightarrow> store_op \<Rightarrow> nat \<Rightarrow> 'a list \<Rightarrow> 'a list" where
  "fetched E op k [] = []"
| "fetched E op k (r # rs) = (if sq_fault E op k then [] else r # fetched E op (Suc k) rs)"

lemma fetched_all [simp]: "no_faults E op \<Longrightarrow> fetched E op k rs = rs"
  by (induction rs arbitrary: k) (auto simp: no_faults_def)

lemma fetched_subset: "set (fetched E op k rs) \<subseteq> set rs"
  by (induction rs arbitrary: k) auto

section \<open>Guest links\<close>

text \<open>\<open>SUM(CASE WHEN entries.id IS NOT NULL ...)\<close> over the left join with \<open>entries\<close>.\<close>

definition entry_count :: "db \<Rightarrow> guest_link_id \<Rightarrow> int" where
  "entry_count d i = int (length (filter (\<lambda>r. er_guest_link_id r = Some i) (entries d)))"

definition guestLinkFromRow :: "guest_link_row \<Rightarrow> int \<Rightarrow> store_error + guest_link" where
  "guestLinkFromRow r filesUploaded =
     (if check_null (\<lambda>n. 0 \<le> n) (glr_max_file_bytes r) \<and> glr_url_expiration_time r \<noteq> None then
        and_then (parseDatetime (glr_creation_time r)) (\<lambda>ct.
        and_then (parseDatetime (the (glr_url_expiration_time r))) (\<lambda>uet.
        and_then (case glr_file_expiration_time r of
                    None \<Rightarrow> Inr FileLifetimeInfinite
                  | Some s \<Rightarrow> parseFileLifetime s) (\<lambda>fileLifetime.
          Inr \<lparr>gl_ID = glr_id r, gl_Label = glr_label r,
               gl_OwnerID = (case glr_owner_user_id r of None \<Rightarrow> NoOwner | Some v \<Rightarrow> UserID v),
               gl_Created = ct, gl_UrlExpires = uet, gl_MaxFileLifetime = fileLifetime,
               gl_MaxFileBytes = map_option of_int (glr_max_file_bytes r),
               gl_MaxFileUploads = glr_max_file_uploads r,
               gl_IsDisabled = glr_is_disabled r, gl_FilesUploaded = filesUploaded\<rparr>)))
      else Inl ConversionError)"

text \<open>On a missing row the error carries the variable that was to be scanned into: the empty ID.\<close>

definition GetGuestLink :: "env \<Rightarrow> db \<Rightarrow> guest_link_id \<Rightarrow> store_error + guest_link" where
  "GetGuestLink E d i =
     and_then (stmt E OpGetGuestLink 0) (\<lambda>_.
       case first_row (filter (\<lambda>r. glr_id r = i) (guest_links d)) of
         None \<Rightarrow> Inl (GuestLinkNotFoundError [])
       | Some r \<Rightarrow> guestLinkFromRow r (entry_count d (glr_id r)))"

text \<open>SQL leaves the order of the result open; this is the order of the table.\<close>

definition GetGuestLinks :: "env \<Rightarrow> db \<Rightarrow> user_id \<Rightarrow> store_error + guest_link list" where
  "GetGuestLinks E d owner =
     and_then (stmt E OpGetGuestLinks 0) (\<lambda>_.
       map_result (\<lambda>r. guestLinkFromRow r (entry_count d (glr_id r)))
         (fetched E OpGetGuestLinks 1
            (filter (\<lambda>r. glr_owner_user_id r = Some (UserID_Int64 owner)) (guest_links d))))"

definition owner_column :: "user_id \<Rightarrow> int option" where
  "owner_column i = (if UserID_Empty i then None else Some (UserID_Int64 i))"

definition guest_link_row_of :: "guest_link \<Rightarrow> guest_link_row" where
  "guest_link_row_of gl =
     \<lparr>glr_id = gl_ID gl, glr_label = gl_Label gl, glr_is_disabled = gl_IsDisabled gl,
      glr_max_file_bytes = map_option uint (gl_MaxFileBytes gl),
      glr_max_file_uploads = gl_MaxFileUploads gl,
      glr_creation_time = formatTime (gl_Created gl),
      glr_url_expiration_time = Some (formatExpirationTime (gl_UrlExpires gl)),
      glr_file_expiration_time = Some (formatFileLifetime (gl_MaxFileLifetime gl)),
      glr_owner_user_id = owner_column (gl_OwnerID gl)\<rparr>"

text \<open>\<open>database/sql\<close> refuses an unsigned argument whose high bit is set.\<close>

definition InsertGuestLink :: "env \<Rightarrow> db \<Rightarrow> guest_link \<Rightarrow> (store_error + unit) \<times> db" where
  "InsertGuestLink E d gl =
     (let r = guest_link_row_of gl in
      if sq_fault E OpInsertGuestLink 0 \<or> \<not> check_null (\<lambda>n. n < 2 ^ 63) (glr_max_file_bytes r)
      then (Inl DriverError, d)
      else if glr_id r \<in> glr_id ` set (guest_links d) \<or> \<not> guest_link_ok E d r
      then (Inl ConstraintError, d)
      else (Inr (), d\<lparr>guest_links := guest_links d @ [r]\<rparr>))"

definition DeleteGuestLink :: "env \<Rightarrow> db \<Rightarrow> guest_link_id \<Rightarrow> (store_error + unit) \<times> db" where
  "DeleteGuestLink E d i =
     transaction d
       (and_then (stmt E OpDeleteGuestLink 0) (\<lambda>_.
        and_then (stmt E OpDeleteGuestLink 1) (\<lambda>_.
          let d1 = d\<lparr>entries := map (\<lambda>r. if er_guest_link_id r = Some i
                       then r\<lparr>er_guest_link_id := None\<rparr> else r) (entries d)\<rparr> in
        and_then (stmt E OpDeleteGuestLink 2) (\<lambda>_.
          let d2 = d1\<lparr>guest_links := filter (\<lambda>r. glr_id r \<noteq> i) (guest_links d1)\<rparr> in
        and_then (stmt E OpDeleteGuestLink 3) (\<lambda>_. Inr ((), d2))))))"

definition set_disabled :: "guest_link_id \<Rightarrow> bool \<Rightarrow> db \<Rightarrow> db" where
  "set_disabled i b d =
     d\<lparr>guest_links := map (\<lambda>r. if glr_id r = i then r\<lparr>glr_is_disabled := b\<rparr> else r) (guest_links d)\<rparr>"

definition DisableGuestLink :: "env \<Rightarrow> db \<Rightarrow> guest_link_id \<Rightarrow> (store_error + unit) \<times> db" where
  "DisableGuestLink E d i =
     (if sq_fault E OpDisableGuestLink 0 then (Inl DriverError, d)
      else (Inr (), set_disabled i True d))"

definition EnableGuestLink :: "env \<Rightarrow> db \<Rightarrow> guest_link_id \<Rightarrow> (store_error + unit) \<times> db" where
  "EnableGuestLink E d i =
     (if sq_fault E OpEnableGuestLink 0 then (Inl DriverError, d)
      else (Inr (), set_disabled i False d))"

section \<open>What the operations do\<close>

text \<open>A guest link that can be stored and read back.\<close>

definition storable_guest_link :: "guest_link \<Rightarrow> bool" where
  "storable_guest_link gl \<longleftrightarrow>
     text_range (gl_Created gl) \<and> text_range (gl_UrlExpires gl) \<and>
     24 * hour \<le> lifetime_d (gl_MaxFileLifetime gl) \<and>
     lifetime_d (gl_MaxFileLifetime gl) \<le> max_int64"

definition as_stored_guest_link :: "guest_link \<Rightarrow> int \<Rightarrow> guest_link" where
  "as_stored_guest_link gl n =
     gl\<lparr>gl_Created := trunc_secs (gl_Created gl), gl_UrlExpires := trunc_secs (gl_UrlExpires gl),
        gl_FilesUploaded := n\<rparr>"

lemma owner_column_inverse:
  "(case owner_column i of None \<Rightarrow> NoOwner | Some v \<Rightarrow> UserID v) = i"
  by (cases i) (simp add: owner_column_def UserID_Empty_def NoOwner_def)

lemma guestLinkFromRow_of [row_simps]:
  assumes "storable_guest_link gl"
  shows "guestLinkFromRow (guest_link_row_of gl) n = Inr (as_stored_guest_link gl n)"
proof -
  have "map_option of_int (map_option uint b) = b" for b :: "u64 option"
    by (cases b) simp_all
  moreover have "check_null (\<lambda>n. 0 \<le> n) (map_option uint b)" for b :: "u64 option"
    by (cases b) simp_all
  ultimately show ?thesis
    using assms
    by (simp add: guestLinkFromRow_def guest_link_row_of_def storable_guest_link_def
        formatExpirationTime_def owner_column_inverse as_stored_guest_link_def)
qed

lemma InsertGuestLink_ok:
  assumes "InsertGuestLink E d gl = (Inr u, d1)"
  shows "d1 = d\<lparr>guest_links := guest_links d @ [guest_link_row_of gl]\<rparr>"
    and "gl_ID gl \<notin> glr_id ` set (guest_links d)" and "guest_link_ok E d (guest_link_row_of gl)"
  using assms by (auto simp: InsertGuestLink_def Let_def guest_link_row_of_def split: if_splits)

lemma InsertGuestLink_err: "InsertGuestLink E d gl = (Inl e, d1) \<Longrightarrow> d1 = d"
  by (auto simp: InsertGuestLink_def Let_def split: if_splits)

lemma guest_link_row_of_id [simp]: "glr_id (guest_link_row_of gl) = gl_ID gl"
  by (simp add: guest_link_row_of_def)

lemma entry_count_guest_links [simp]: "entry_count (d\<lparr>guest_links := gls\<rparr>) i = entry_count d i"
  by (simp add: entry_count_def)

lemma GetGuestLink_inserted:
  assumes "storable_guest_link gl" and "InsertGuestLink E d gl = (Inr u, d1)"
    and "\<not> sq_fault E' OpGetGuestLink 0"
  shows "GetGuestLink E' d1 (gl_ID gl) = Inr (as_stored_guest_link gl (entry_count d (gl_ID gl)))"
proof -
  have "filter (\<lambda>r. glr_id r = gl_ID gl) (guest_links d) = []"
    using InsertGuestLink_ok(2) [OF assms(2)] by (auto simp: filter_empty_conv image_iff)
  then show ?thesis
    unfolding InsertGuestLink_ok(1) [OF assms(2)]
    using assms(1,3) by (simp add: GetGuestLink_def stmt_def guestLinkFromRow_of)
qed

lemma DeleteGuestLink_atomic: "DeleteGuestLink E d i = (Inl e, d1) \<Longrightarrow> d1 = d \<and> e = DriverError"
  unfolding DeleteGuestLink_def
  by (auto simp: transaction_def and_then_def Let_def split: sum.splits dest: stmt_cases(1))

lemma DeleteGuestLink_ok:
  "DeleteGuestLink E d i = (Inr u, d1) \<Longrightarrow>
     d1 = d\<lparr>entries := map (\<lambda>r. if er_guest_link_id r = Some i
               then r\<lparr>er_guest_link_id := None\<rparr> else r) (entries d),
            guest_links := filter (\<lambda>r. glr_id r \<noteq> i) (guest_links d)\<rparr>"
  unfolding DeleteGuestLink_def
  by (auto simp: transaction_def and_then_def Let_def split: sum.splits)

lemma map_clear_ref_id:
  "map er_id (map (\<lambda>r. if er_guest_link_id r = i then r\<lparr>er_guest_link_id := None\<rparr> else r) rs) =
     map er_id rs"
  by (induction rs) auto

lemma GetGuestLink_deleted:
  assumes "DeleteGuestLink E d i = (Inr u, d1)" and "\<not> sq_fault E' OpGetGuestLink 0"
  shows "GetGuestLink E' d1 i = Inl (GuestLinkNotFoundError [])"
    and "r \<in> set (entries d1) \<Longrightarrow> er_guest_link_id r \<noteq> Some i"
    and "map er_id (entries d1) = map er_id (entries d)"
proof -
  note d1 = DeleteGuestLink_ok [OF assms(1)]
  have "filter (\<lambda>r. glr_id r = i) (guest_links d1) = []" by (simp add: d1)
  then show "GetGuestLink E' d1 i = Inl (GuestLinkNotFoundError [])"
    using assms(2) by (simp add: GetGuestLink_def stmt_def)
  show "r \<in> set (entries d1) \<Longrightarrow> er_guest_link_id r \<noteq> Some i"
    by (auto simp: d1)
  show "map er_id (entries d1) = map er_id (entries d)"
    unfolding d1 using map_clear_ref_id [of "Some i" "entries d"] by simp
qed

lemma guestLinkFromRow_fields:
  "guestLinkFromRow r n = Inr gl \<Longrightarrow>
     gl_ID gl = glr_id r \<and> gl_IsDisabled gl = glr_is_disabled r \<and> gl_FilesUploaded gl = n \<and>
     gl_MaxFileUploads gl = glr_max_file_uploads r \<and>
     gl_OwnerID gl = (case glr_owner_user_id r of None \<Rightarrow> NoOwner | Some v \<Rightarrow> UserID v)"
  by (auto simp: guestLinkFromRow_def and_then_eq_Inr_iff split: if_splits)

lemma GetGuestLink_Inr:
  assumes "GetGuestLink E d i = Inr gl"
  obtains r where "r \<in> set (guest_links d)" "glr_id r = i"
    "guestLinkFromRow r (entry_count d i) = Inr gl" "gl_ID gl = i"
    "gl_FilesUploaded gl = entry_count d i"
proof -
  obtain r where r: "first_row (filter (\<lambda>r. glr_id r = i) (guest_links d)) = Some r"
    and gl: "guestLinkFromRow r (entry_count d (glr_id r)) = Inr gl"
    using assms by (auto simp: GetGuestLink_def and_then_eq_Inr_iff split: option.splits)
  with first_row_filterD [OF r] guestLinkFromRow_fields [OF gl] that [of r] show ?thesis by simp
qed

lemma GetGuestLinks_owner:
  assumes "GetGuestLinks E d owner = Inr gls" and "gl \<in> set gls"
  shows "gl_OwnerID gl = UserID (UserID_Int64 owner)"
proof -
  have "map_result (\<lambda>r. guestLinkFromRow r (entry_count d (glr_id r)))
         (fetched E OpGetGuestLinks 1
            (filter (\<lambda>r. glr_owner_user_id r = Some (UserID_Int64 owner)) (guest_links d))) = Inr gls"
    using assms(1) by (auto simp: GetGuestLinks_def and_then_eq_Inr_iff)
  from map_result_member [OF this assms(2)]
  obtain r where mem: "r \<in> set (fetched E OpGetGuestLinks 1
      (filter (\<lambda>r. glr_owner_user_id r = Some (UserID_Int64 owner)) (guest_links d)))"
    and r: "guestLinkFromRow r (entry_count d (glr_id r)) = Inr gl" by (elim bexE)
  from subsetD [OF fetched_subset mem] have "glr_owner_user_id r = Some (UserID_Int64 owner)" by simp
  with guestLinkFromRow_fields [OF r] show ?thesis by simp
qed

end
