(* ===== verification/StoreEntries.thy ===== *)
theory StoreEntries
  imports StoreGuestLinks FileReader
begin

text \<open>
  \<open>store/sqlite/entries.go\<close> and \<open>downloads.go\<close>: the metadata of entries, their insertion with
  their content, their update and deletion, and the history of their downloads. Inserting an
  entry is not a transaction: a failure can leave chunks without an entry behind.
\<close>

section \<open>Reading metadata\<close>

definition file_bytes :: "db \<Rightarrow> string \<Rightarrow> int" where
  "file_bytes d i = int (sum_list (map (\<lambda>r. length (cr_chunk r)) (filter (\<lambda>r. cr_id r = i) (entries_data d))))"

definition has_chunks :: "db \<Rightarrow> string \<Rightarrow> bool" where
  "has_chunks d i \<longleftrightarrow> list_ex (\<lambda>r. cr_id r = i) (entries_data d)"

text \<open>The left join with \<open>users\<close>.\<close>

definition owner_username :: "db \<Rightarrow> int option \<Rightarrow> string option" where
  "owner_username d owner =
     (case owner of
        None \<Rightarrow> None
      | Some v \<Rightarrow> map_option ur_username (first_row (filter (\<lambda>u. ur_id u = v) (users d))))"

definition ownerFromColumns :: "int option \<Rightarrow> string option \<Rightarrow> domain_error + (user_id \<times> username)" where
  "ownerFromColumns i name =
     (case i of
        None \<Rightarrow> Inr (NoOwner, Username [])
      | Some v \<Rightarrow>
          (case name of
             None \<Rightarrow> Inr (UserID v, Username [])
           | Some n \<Rightarrow>
               (case NewUsername n of
                  Inl e \<Rightarrow> Inl e
                | Inr u \<Rightarrow> Inr (UserID v, u))))"

definition parseDownloadPassphrase :: "string option \<Rightarrow> domain_error + download_passphrase" where
  "parseDownloadPassphrase raw =
     (case raw of None \<Rightarrow> Inr NoDownloadPassphrase | Some s \<Rightarrow> NewDownloadPassphrase s)"

definition downloadPassphraseString :: "download_passphrase \<Rightarrow> string option" where
  "downloadPassphraseString p =
     (if DownloadPassphrase_Empty p then None else Some (Passphrase_value (DownloadPassphrase_passphrase p)))"

text \<open>\<open>ResolveReadEntriesOptions\<close>: each option overwrites the owner; the zero owner means all.\<close>

definition ResolveReadEntriesOptions :: "user_id list \<Rightarrow> user_id" where
  "ResolveReadEntriesOptions opts = foldl (\<lambda>_ i. i) NoOwner opts"

definition entry_list_item :: "db \<Rightarrow> entry_row \<Rightarrow> store_error + upload_metadata" where
  "entry_list_item d r =
     (case er_expiration_time r of
        None \<Rightarrow> Inl ConversionError
      | Some exp \<Rightarrow>
          and_then (wrap_domain (EntryIDFromString (er_id r))) (\<lambda>i.
          and_then (parseDatetime (er_upload_time r)) (\<lambda>ut.
          and_then (parseDatetime exp) (\<lambda>et.
          and_then (wrap_domain (FileSizeFromUint64 (of_int (file_bytes d (er_id r))))) (\<lambda>size.
          and_then (wrap_domain (ownerFromColumns (er_owner_user_id r)
                       (owner_username d (er_owner_user_id r)))) (\<lambda>(owner, name).
            Inr \<lparr>um_ID = i, um_Filename = er_filename r, um_Note = er_note r, um_OwnerID = owner,
                 um_OwnerUsername = name, um_ContentType = er_content_type r, um_Uploaded = ut,
                 um_Expires = et, um_Size = size, um_GuestLink = NoGuestLink, um_DownloadCount = 0,
                 um_DownloadPassphrase = NoDownloadPassphrase\<rparr>))))))"

definition GetEntriesMetadata :: "env \<Rightarrow> db \<Rightarrow> user_id list \<Rightarrow> store_error + upload_metadata list" where
  "GetEntriesMetadata E d opts =
     and_then (stmt E OpGetEntriesMetadata 0) (\<lambda>_.
       let owner = ResolveReadEntriesOptions opts;
           rows = filter (\<lambda>r. has_chunks d (er_id r) \<and>
                    (UserID_Empty owner \<or> er_owner_user_id r = Some (UserID_Int64 owner))) (entries d)
       in map_result (entry_list_item d) (fetched E OpGetEntriesMetadata 1 rows))"

definition entry_guest_link :: "env \<Rightarrow> db \<Rightarrow> entry_row \<Rightarrow> store_error + guest_link" where
  "entry_guest_link E d r =
     (case er_guest_link_id r of
        None \<Rightarrow> Inr NoGuestLink
      | Some g \<Rightarrow> (if g = [] then Inr NoGuestLink else GetGuestLink E d g))"

definition entry_from_row :: "env \<Rightarrow> db \<Rightarrow> entry_id \<Rightarrow> entry_row \<Rightarrow> store_error + upload_metadata" where
  "entry_from_row E d i r =
     (case er_expiration_time r of
        None \<Rightarrow> Inl ConversionError
      | Some exp \<Rightarrow>
          and_then (entry_guest_link E d r) (\<lambda>guestLink.
          and_then (parseDatetime (er_upload_time r)) (\<lambda>ut.
          and_then (parseDatetime exp) (\<lambda>et.
          and_then (wrap_domain (FileSizeFromUint64 (of_int (file_bytes d (er_id r))))) (\<lambda>size.
          and_then (wrap_domain (parseDownloadPassphrase (er_download_passphrase r))) (\<lambda>pass.
          and_then (wrap_domain (ownerFromColumns (er_owner_user_id r)
                       (owner_username d (er_owner_user_id r)))) (\<lambda>(owner, name).
            Inr \<lparr>um_ID = i, um_Filename = er_filename r, um_Note = er_note r, um_OwnerID = owner,
                 um_OwnerUsername = name, um_ContentType = er_content_type r, um_Uploaded = ut,
                 um_Expires = et, um_Size = size, um_GuestLink = guestLink, um_DownloadCount = 0,
                 um_DownloadPassphrase = pass\<rparr>)))))))"

text \<open>An entry without any chunk does not survive the inner join: it is not found.\<close>

definition GetEntryMetadata :: "env \<Rightarrow> db \<Rightarrow> entry_id \<Rightarrow> store_error + upload_metadata" where
  "GetEntryMetadata E d i =
     and_then (stmt E OpGetEntryMetadata 0) (\<lambda>_.
       case first_row (filter (\<lambda>r. er_id r = EntryID_value i \<and> has_chunks d (er_id r)) (entries d)) of
         None \<Rightarrow> Inl (EntryNotFoundError i)
       | Some r \<Rightarrow> entry_from_row E d i r)"

definition ReadEntryFile :: "env \<Rightarrow> db \<Rightarrow> entry_id \<Rightarrow> store_error + reader" where
  "ReadEntryFile E d i = NewReader E d (EntryID_value i)"

section \<open>Inserting, updating, deleting\<close>

text \<open>The owner of a guest upload is read from its guest link, NULL when there is no such link.\<close>

definition inserted_owner :: "db \<Rightarrow> upload_metadata \<Rightarrow> int option" where
  "inserted_owner d md =
     (if gl_ID (um_GuestLink md) \<noteq> [] then
        (case first_row (filter (\<lambda>g. glr_id g = gl_ID (um_GuestLink md)) (guest_links d)) of
           None \<Rightarrow> None
         | Some g \<Rightarrow> glr_owner_user_id g)
      else owner_column (um_OwnerID md))"

definition entry_row_of :: "db \<Rightarrow> upload_metadata \<Rightarrow> entry_row" where
  "entry_row_of d md =
     \<lparr>er_id = EntryID_value (um_ID md),
      er_guest_link_id = (if gl_ID (um_GuestLink md) = [] then None else Some (gl_ID (um_GuestLink md))),
      er_filename = um_Filename md, er_note = um_Note md, er_content_type = um_ContentType md,
      er_upload_time = formatTime (um_Uploaded md),
      er_expiration_time = Some (formatExpirationTime (um_Expires md)),
      er_download_passphrase = downloadPassphraseString (um_DownloadPassphrase md),
      er_owner_user_id = inserted_owner d md\<rparr>"

definition insert_entry_row :: "env \<Rightarrow> db \<Rightarrow> upload_metadata \<Rightarrow> (store_error + unit) \<times> db" where
  "insert_entry_row E d md =
     (let r = entry_row_of d md in
      if sq_fault E OpInsertEntry 0 then (Inl DriverError, d)
      else if er_id r \<in> er_id ` set (entries d) \<or> \<not> entry_ok E d r then (Inl ConstraintError, d)
      else (Inr (), d\<lparr>entries := entries d @ [r]\<rparr>))"

definition write_error_to_store :: "store_error write_error \<Rightarrow> store_error" where
  "write_error_to_store e = (case e of ExecError x \<Rightarrow> x | WriterPanic \<Rightarrow> PanicError)"

definition InsertEntry :: "env \<Rightarrow> db \<Rightarrow> source \<Rightarrow> upload_metadata \<Rightarrow> (store_error + unit) \<times> db" where
  "InsertEntry E d src md =
     (let w = NewWriter (EntryID_value (um_ID md)) (st_chunkSize E) in
      case io_Copy (exec_chunk E) w (src_pieces src) d of
        (Some e, _, d1) \<Rightarrow> (Inl (write_error_to_store e), d1)
      | (None, w1, d1) \<Rightarrow>
          (if src_fails src then (Inl ReaderError, d1)
           else case writer_Close (exec_chunk E) w1 d1 of
                  (Some e, d2) \<Rightarrow> (Inl (write_error_to_store e), d2)
                | (None, d2) \<Rightarrow> insert_entry_row E d2 md))"

definition updated_entry_row :: "upload_metadata \<Rightarrow> entry_row \<Rightarrow> entry_row" where
  "updated_entry_row md r =
     r\<lparr>er_filename := um_Filename md,
       er_expiration_time := Some (formatExpirationTime (um_Expires md)),
       er_note := um_Note md,
       er_download_passphrase := downloadPassphraseString (um_DownloadPassphrase md)\<rparr>"

definition UpdateEntryMetadata :: "env \<Rightarrow> db \<Rightarrow> entry_id \<Rightarrow> upload_metadata \<Rightarrow> (store_error + unit) \<times> db" where
  "UpdateEntryMetadata E d i md =
     (if sq_fault E OpUpdateEntryMetadata 0 then (Inl DriverError, d)
      else if \<not> list_all (\<lambda>r. er_id r = EntryID_value i \<longrightarrow> entry_checks E (updated_entry_row md r)) (entries d)
      then (Inl ConstraintError, d)
      else if \<not> list_ex (\<lambda>r. er_id r = EntryID_value i) (entries d) then (Inl (EntryNotFoundError i), d)
      else (Inr (), d\<lparr>entries := map (\<lambda>r. if er_id r = EntryID_value i then updated_entry_row md r else r)
                        (entries d)\<rparr>))"

definition DeleteEntry :: "env \<Rightarrow> db \<Rightarrow> entry_id \<Rightarrow> (store_error + unit) \<times> db" where
  "DeleteEntry E d i =
     transaction d
       (and_then (stmt E OpDeleteEntry 0) (\<lambda>_.
        and_then (stmt E OpDeleteEntry 1) (\<lambda>_.
          let d1 = d\<lparr>downloads := filter (\<lambda>r. dl_entry_id r \<noteq> EntryID_value i) (downloads d)\<rparr> in
        and_then (stmt E OpDeleteEntry 2) (\<lambda>_.
          let d2 = d1\<lparr>entries_data := filter (\<lambda>r. cr_id r \<noteq> EntryID_value i) (entries_data d1)\<rparr> in
        and_then (stmt E OpDeleteEntry 3) (\<lambda>_.
          let d3 = d2\<lparr>entries := filter (\<lambda>r. er_id r \<noteq> EntryID_value i) (entries d2)\<rparr> in
        and_then (stmt E OpDeleteEntry 4) (\<lambda>_. Inr ((), d3)))))))"

section \<open>Download history\<close>

definition download_row_of :: "entry_id \<Rightarrow> download_record \<Rightarrow> download_row" where
  "download_row_of i r =
     \<lparr>dl_entry_id = EntryID_value i, dl_timestamp = formatTime (dr_Time r),
      dl_client_ip = dr_ClientIP r, dl_user_agent = dr_UserAgent r\<rparr>"

definition InsertEntryDownload :: "env \<Rightarrow> db \<Rightarrow> entry_id \<Rightarrow> download_record \<Rightarrow> (store_error + unit) \<times> db" where
  "InsertEntryDownload E d i r =
     (if sq_fault E OpInsertEntryDownload 0 then (Inl DriverError, d)
      else if \<not> download_ok E d (download_row_of i r) then (Inl ConstraintError, d)
      else (Inr (), d\<lparr>downloads := downloads d @ [download_row_of i r]\<rparr>))"

text \<open>\<open>ORDER BY download_timestamp DESC\<close>: insertion keeps the order of equal timestamps.\<close>

fun insert_desc :: "download_row \<Rightarrow> download_row list \<Rightarrow> download_row list" where
  "insert_desc x [] = [x]"
| "insert_desc x (y # ys) =
     (if text_less (dl_timestamp x) (dl_timestamp y) then y # insert_desc x ys else x # y # ys)"

definition sort_downloads :: "download_row list \<Rightarrow> download_row list" where
  "sort_downloads rs = foldr insert_desc rs []"

definition GetEntryDownloads :: "env \<Rightarrow> db \<Rightarrow> entry_id \<Rightarrow> store_error + download_record list" where
  "GetEntryDownloads E d i =
     and_then (stmt E OpGetEntryDownloads 0) (\<lambda>_.
       map_result (\<lambda>r. and_then (parseDatetime (dl_timestamp r)) (\<lambda>dt.
           Inr \<lparr>dr_Time = dt, dr_ClientIP = dl_client_ip r, dr_UserAgent = dl_user_agent r\<rparr>))
         (fetched E OpGetEntryDownloads 1
           (sort_downloads (filter (\<lambda>r. dl_entry_id r = EntryID_value i) (downloads d)))))"

section \<open>What insertion does\<close>

lemma entry_row_of_entries_data [simp]:
  "entry_row_of (d\<lparr>entries_data := x\<rparr>) md = entry_row_of d md"
  "entry_ok E (d\<lparr>entries_data := x\<rparr>) r = entry_ok E d r"
  by (simp_all add: entry_row_of_def inserted_owner_def entry_ok_def)

lemma entry_row_of_id [simp]: "er_id (entry_row_of d md) = EntryID_value (um_ID md)"
  by (simp add: entry_row_of_def)

lemma NewWriter_id [simp]: "w_entryID (NewWriter i L) = i"
  by (simp add: NewWriter_def)

lemma InsertEntry_ok:
  assumes ins: "InsertEntry E d src md = (Inr u, d1)" and "0 < st_chunkSize E"
  shows "\<not> src_fails src"
    and "d1 = d\<lparr>entries_data := entries_data d @
                   file_rows (EntryID_value (um_ID md)) (st_chunkSize E) (concat (src_pieces src)),
                entries := entries d @ [entry_row_of d md]\<rparr>"
    and "EntryID_value (um_ID md) \<notin> er_id ` set (entries d)"
    and "entry_ok E d (entry_row_of d md)"
proof -
  obtain w1 d2 d3 where copy: "io_Copy (exec_chunk E)
        (NewWriter (EntryID_value (um_ID md)) (st_chunkSize E)) (src_pieces src) d = (None, w1, d2)"
    and fails: "\<not> src_fails src" and close: "writer_Close (exec_chunk E) w1 d2 = (None, d3)"
    and row: "insert_entry_row E d3 md = (Inr u, d1)"
    using ins by (auto simp: InsertEntry_def Let_def split: prod.splits option.splits if_splits)
  have d3: "d3 = d\<lparr>entries_data := entries_data d @
      file_rows (EntryID_value (um_ID md)) (st_chunkSize E) (concat (src_pieces src))\<rparr>"
    by (rule chunk_table.copy_close_rows [OF assms(2) copy close])
  show "\<not> src_fails src" by (rule fails)
  show "d1 = d\<lparr>entries_data := entries_data d @
                   file_rows (EntryID_value (um_ID md)) (st_chunkSize E) (concat (src_pieces src)),
                entries := entries d @ [entry_row_of d md]\<rparr>"
    and "EntryID_value (um_ID md) \<notin> er_id ` set (entries d)"
    and "entry_ok E d (entry_row_of d md)"
    using row by (auto simp: insert_entry_row_def Let_def d3 split: if_splits)
qed

text \<open>A failed insertion leaves every table alone but for chunks of the new ID.\<close>

lemma InsertEntry_err_adds:
  assumes "InsertEntry E d src md = (Inl e, d1)"
  shows "chunk_table.adds E (EntryID_value (um_ID md)) d d1"
proof -
  let ?i = "EntryID_value (um_ID md)"
  obtain oe w1 d2 where copy: "io_Copy (exec_chunk E) (NewWriter ?i (st_chunkSize E)) (src_pieces src) d =
      (oe, w1, d2)" by (metis prod_cases3)
  note a = chunk_table.io_Copy_adds [OF copy]
  show ?thesis
  proof (cases "oe = None \<and> \<not> src_fails src")
    case False
    then have "d1 = d2" using assms copy
      by (auto simp: InsertEntry_def Let_def split: option.splits if_splits)
    with a show ?thesis by simp
  next
    case True
    obtain oe2 d3 where close: "writer_Close (exec_chunk E) w1 d2 = (oe2, d3)" by (metis surj_pair)
    have "chunk_table.adds E ?i d d3"
      using a chunk_table.writer_Close_adds [OF close] chunk_table.adds_trans by auto
    moreover have "d1 = d3"
      using assms copy True close
      by (auto simp: InsertEntry_def Let_def insert_entry_row_def split: option.splits if_splits)
    ultimately show ?thesis by simp
  qed
qed

lemma InsertEntry_err:
  "InsertEntry E d src md = (Inl e, d1) \<Longrightarrow>
     \<exists>rs. d1 = d\<lparr>entries_data := entries_data d @ rs\<rparr> \<and> (\<forall>r \<in> set rs. cr_id r = EntryID_value (um_ID md))"
  by (rule chunk_table.adds_rows [OF InsertEntry_err_adds])

lemma InsertEntry_succeeds:
  assumes "0 < st_chunkSize E" and "no_faults E OpInsertEntry" and "\<not> src_fails src"
    and fresh: "\<forall>r \<in> set (entries_data d). cr_id r \<noteq> EntryID_value (um_ID md)"
    and new: "EntryID_value (um_ID md) \<notin> er_id ` set (entries d)"
    and ok: "entry_ok E d (entry_row_of d md)"
  shows "\<exists>d1. InsertEntry E d src md = (Inr (), d1)"
proof -
  let ?i = "EntryID_value (um_ID md)"
  have "chunk_table.room E (entries_data d) ?i"
    using assms by (intro chunk_table_room) (auto simp: no_faults_def)
  then obtain w1 s1 s2 where copy: "io_Copy (exec_chunk E) (NewWriter ?i (st_chunkSize E))
        (src_pieces src) d = (None, w1, s1)" and close: "writer_Close (exec_chunk E) w1 s1 = (None, s2)"
    using chunk_table.copy_close_succeeds [OF assms(1)] by blast
  have "s2 = d\<lparr>entries_data := entries_data d @ file_rows ?i (st_chunkSize E) (concat (src_pieces src))\<rparr>"
    by (rule chunk_table.copy_close_rows [OF assms(1) copy close])
  then show ?thesis
    using copy close new ok assms(2,3)
    by (simp add: InsertEntry_def Let_def insert_entry_row_def no_faults_def)
qed

lemma file_bytes_append:
  "entries_data d1 = entries_data d @ rs \<Longrightarrow> (\<forall>r \<in> set rs. cr_id r = i) \<Longrightarrow>
     (\<forall>r \<in> set (entries_data d). cr_id r \<noteq> i) \<Longrightarrow>
     file_bytes d1 i = int (sum_list (map (\<lambda>r. length (cr_chunk r)) rs))"
proof -
  assume e: "entries_data d1 = entries_data d @ rs" and rs: "\<forall>r \<in> set rs. cr_id r = i"
    and d: "\<forall>r \<in> set (entries_data d). cr_id r \<noteq> i"
  have "filter (\<lambda>r. cr_id r = i) (entries_data d1) = rs"
    using rs d by (auto simp: e filter_empty_conv intro: filter_eq_self)
  then show ?thesis by (simp add: file_bytes_def)
qed

lemma file_rows_chunks: "map cr_chunk (file_rows i L s) = split_chunks L s"
proof -
  have "map cr_chunk (number_rows i k cs) = cs" for k cs
    unfolding number_rows_def by (rule nth_equalityI) auto
  then show ?thesis by (simp add: file_rows_def)
qed

lemma file_rows_bytes:
  "0 < L \<Longrightarrow> sum_list (map (\<lambda>r. length (cr_chunk r)) (file_rows i L s)) = length s"
  using length_concat [of "split_chunks L s"] concat_split_chunks [of L s]
    file_rows_chunks [of i L s] map_map [of length cr_chunk "file_rows i L s"]
  by (simp add: comp_def)

lemma stored_inserted:
  assumes "InsertEntry E d src md = (Inr u, d1)" and "0 < st_chunkSize E"
    and "\<forall>r \<in> set (entries_data d). cr_id r \<noteq> EntryID_value (um_ID md)"
    and "concat (src_pieces src) \<noteq> []"
  shows "stored d1 (EntryID_value (um_ID md)) (st_chunkSize E) (concat (src_pieces src))"
  using assms(2-4)
  by (auto simp: InsertEntry_ok(2) [OF assms(1,2)] stored_def filter_empty_conv
      intro!: filter_eq_self dest: file_rows_id)

text \<open>Metadata that the columns can hold.\<close>

definition storable_entry :: "upload_metadata \<Rightarrow> bool" where
  "storable_entry md \<longleftrightarrow>
     text_range (um_Uploaded md) \<and> text_range (um_Expires md) \<and>
     (um_DownloadPassphrase md = NoDownloadPassphrase \<or>
      (\<exists>raw. NewDownloadPassphrase raw = Inr (um_DownloadPassphrase md)))"

lemma parse_passphrase_column:
  "storable_entry md \<Longrightarrow>
     parseDownloadPassphrase (downloadPassphraseString (um_DownloadPassphrase md)) =
       Inr (um_DownloadPassphrase md)"
  by (auto simp: storable_entry_def parseDownloadPassphrase_def downloadPassphraseString_def
      DownloadPassphrase_Empty_def Passphrase_Empty_def NoDownloadPassphrase_def validate_simps)

lemma has_chunks_file_rows:
  "0 < L \<Longrightarrow> s \<noteq> [] \<Longrightarrow> entries_data d = rs @ file_rows i L s \<Longrightarrow> has_chunks d i"
proof -
  assume *: "0 < L" "s \<noteq> []" "entries_data d = rs @ file_rows i L s"
  have "file_rows i L s \<noteq> []"
    using * file_rows_chunks [of i L s] by (auto simp: split_chunks.simps [of L s])
  then obtain r where "r \<in> set (file_rows i L s)" by (cases "file_rows i L s") auto
  with * file_rows_id [OF this] show ?thesis by (auto simp: has_chunks_def list_ex_iff)
qed

lemma first_row_append_new:
  "x \<notin> k ` set rs \<Longrightarrow> k r = x \<Longrightarrow> P r \<Longrightarrow>
     first_row (filter (\<lambda>r. k r = x \<and> P r) (rs @ [r])) = Some r"
proof -
  assume *: "x \<notin> k ` set rs" "k r = x" "P r"
  then have "filter (\<lambda>r. k r = x \<and> P r) rs = []"
    by (auto simp: filter_empty_conv) (metis imageI)
  with * show ?thesis by simp
qed

lemma GetEntryMetadata_inserted_row:
  assumes ins: "InsertEntry E d src md = (Inr u, d1)" and L: "0 < st_chunkSize E"
    and ne: "concat (src_pieces src) \<noteq> []" and ok: "\<not> sq_fault E' OpGetEntryMetadata 0"
  shows "GetEntryMetadata E' d1 (um_ID md) = entry_from_row E' d1 (um_ID md) (entry_row_of d md)"
proof -
  note d1 = InsertEntry_ok [OF ins L]
  have hc: "has_chunks d1 (EntryID_value (um_ID md))"
    by (rule has_chunks_file_rows [OF L ne]) (simp add: d1(2))
  have ents: "entries d1 = entries d @ [entry_row_of d md]" by (simp add: d1(2))
  have "first_row (filter (\<lambda>r. er_id r = EntryID_value (um_ID md) \<and> has_chunks d1 (er_id r)) (entries d1)) =
      Some (entry_row_of d md)"
    unfolding ents by (rule first_row_append_new [OF d1(3)]) (simp_all add: hc)
  then show ?thesis using ok by (simp add: GetEntryMetadata_def stmt_def)
qed

definition as_stored_entry :: "db \<Rightarrow> upload_metadata \<Rightarrow> nat \<Rightarrow> guest_link \<Rightarrow> user_id \<times> username \<Rightarrow> upload_metadata" where
  "as_stored_entry d md n gl owner =
     md\<lparr>um_OwnerID := fst owner, um_OwnerUsername := snd owner,
        um_Uploaded := trunc_secs (um_Uploaded md), um_Expires := trunc_secs (um_Expires md),
        um_Size := FileSize (of_nat n), um_GuestLink := gl, um_DownloadCount := 0\<rparr>"

text \<open>
  An inserted entry reads back with its times in whole seconds, the number of bytes written as
  its size, and as its owner the one of the guest link, if it came through one.
\<close>

lemma GetEntryMetadata_inserted:
  assumes ins: "InsertEntry E d src md = (Inr u, d1)" and L: "0 < st_chunkSize E"
    and fresh: "\<forall>r \<in> set (entries_data d). cr_id r \<noteq> EntryID_value (um_ID md)"
    and ne: "concat (src_pieces src) \<noteq> []" and small: "length (concat (src_pieces src)) < 2 ^ 64"
    and st: "storable_entry md" and ok: "\<not> sq_fault E' OpGetEntryMetadata 0"
    and gl: "entry_guest_link E' d1 (entry_row_of d md) = Inr gl"
    and owner: "ownerFromColumns (inserted_owner d md) (owner_username d (inserted_owner d md)) = Inr own"
  shows "GetEntryMetadata E' d1 (um_ID md) =
    Inr (as_stored_entry d md (length (concat (src_pieces src))) gl own)"
proof -
  note d1 = InsertEntry_ok [OF ins L]
  let ?i = "EntryID_value (um_ID md)" and ?s = "concat (src_pieces src)"
  have "file_bytes d1 ?i = int (sum_list (map (\<lambda>r. length (cr_chunk r)) (file_rows ?i (st_chunkSize E) ?s)))"
    by (rule file_bytes_append [OF _ _ fresh]) (auto simp: d1(2) dest: file_rows_id)
  then have bytes: "file_bytes d1 ?i = int (length ?s)" using file_rows_bytes [OF L] by simp
  have "(of_nat (length ?s) :: u64) \<noteq> 0"
    using small ne by (auto simp: word_of_nat_eq_0_iff dest: dvd_imp_le)
  then have size: "FileSizeFromUint64 (of_int (file_bytes d1 ?i)) = Inr (FileSize (of_nat (length ?s)))"
    by (simp add: FileSizeFromUint64_def bytes)
  have un: "owner_username d1 v = owner_username d v" for v
    by (simp add: owner_username_def d1(2) split: option.split)
  have row: "er_expiration_time (entry_row_of d md) = Some (formatTime (um_Expires md))"
    "er_upload_time (entry_row_of d md) = formatTime (um_Uploaded md)"
    "er_download_passphrase (entry_row_of d md) = downloadPassphraseString (um_DownloadPassphrase md)"
    "er_owner_user_id (entry_row_of d md) = inserted_owner d md"
    "er_filename (entry_row_of d md) = um_Filename md" "er_note (entry_row_of d md) = um_Note md"
    "er_content_type (entry_row_of d md) = um_ContentType md"
    by (simp_all add: entry_row_of_def formatExpirationTime_def)
  have rng: "text_range (um_Uploaded md)" "text_range (um_Expires md)" using st by (simp_all add: storable_entry_def)
  show ?thesis
    unfolding GetEntryMetadata_inserted_row [OF ins L ne ok] entry_from_row_def
    by (simp add: row gl rng size un owner parse_passphrase_column [OF st] as_stored_entry_def
        case_prod_beta)
qed

section \<open>What deletion and update do\<close>

lemma DeleteEntry_atomic: "DeleteEntry E d i = (Inl e, d1) \<Longrightarrow> d1 = d \<and> e = DriverError"
  unfolding DeleteEntry_def
  by (auto simp: transaction_def and_then_def Let_def split: sum.splits dest: stmt_cases(1))

lemma DeleteEntry_ok:
  "DeleteEntry E d i = (Inr u, d1) \<Longrightarrow>
     d1 = d\<lparr>downloads := filter (\<lambda>r. dl_entry_id r \<noteq> EntryID_value i) (downloads d),
            entries_data := filter (\<lambda>r. cr_id r \<noteq> EntryID_value i) (entries_data d),
            entries := filter (\<lambda>r. er_id r \<noteq> EntryID_value i) (entries d)\<rparr>"
  unfolding DeleteEntry_def
  by (auto simp: transaction_def and_then_def Let_def split: sum.splits)

lemma GetEntryMetadata_deleted:
  assumes "DeleteEntry E d i = (Inr u, d1)" and "\<not> sq_fault E' OpGetEntryMetadata 0"
  shows "GetEntryMetadata E' d1 i = Inl (EntryNotFoundError i)"
proof -
  have "filter (\<lambda>r. er_id r = EntryID_value i \<and> has_chunks d1 (er_id r)) (entries d1) = []"
    by (auto simp: DeleteEntry_ok [OF assms(1)] filter_empty_conv)
  then show ?thesis using assms(2) by (simp add: GetEntryMetadata_def stmt_def)
qed

lemma UpdateEntryMetadata_cases:
  assumes "UpdateEntryMetadata E d i md = (r, d1)"
  shows "(\<exists>e. r = Inl e \<and> d1 = d) \<or>
    (r = Inr () \<and> EntryID_value i \<in> er_id ` set (entries d) \<and>
     d1 = d\<lparr>entries := map (\<lambda>r. if er_id r = EntryID_value i then updated_entry_row md r else r) (entries d)\<rparr>)"
proof -
  have "list_ex (\<lambda>r. er_id r = EntryID_value i) (entries d) \<longleftrightarrow> EntryID_value i \<in> er_id ` set (entries d)"
    by (simp add: list_ex_iff image_iff) metis
  then show ?thesis
    using assms unfolding UpdateEntryMetadata_def by (auto split: if_splits)
qed

lemma GetEntryMetadata_Inr:
  assumes "GetEntryMetadata E d i = Inr md"
  obtains r where "r \<in> set (entries d)" "er_id r = EntryID_value i" "entry_from_row E d i r = Inr md"
    "has_chunks d (EntryID_value i)"
proof -
  obtain r where r: "first_row (filter (\<lambda>r. er_id r = EntryID_value i \<and> has_chunks d (er_id r)) (entries d)) = Some r"
    and f: "entry_from_row E d i r = Inr md"
    using assms by (auto simp: GetEntryMetadata_def and_then_eq_Inr_iff split: option.splits)
  with first_row_filterD [OF r] that show ?thesis by metis
qed

lemma entry_from_row_fields:
  assumes "entry_from_row E d i r = Inr md"
  shows "um_ID md = i" and "um_Filename md = er_filename r"
    and "um_OwnerID md = (case er_owner_user_id r of None \<Rightarrow> NoOwner | Some v \<Rightarrow> UserID v)"
    and "parseDownloadPassphrase (er_download_passphrase r) = Inr (um_DownloadPassphrase md)"
  using assms
  by (auto simp: entry_from_row_def and_then_eq_Inr_iff wrap_domain_def ownerFromColumns_def
      split: option.splits sum.splits)

end
