(* ===== verification/StoreUsers.thy ===== *)
theory StoreUsers
  imports StoreGuestLinks
begin

text \<open>
  \<open>store/sqlite/users.go\<close> and \<open>sessions.go\<close>: users recorded at login, the first of whom becomes
  an administrator and takes over what has no owner, administrators that can be added and
  removed but for the last, and sessions looked up by the hash of their token.
\<close>

section \<open>Users\<close>

definition userFromRow :: "user_row \<Rightarrow> store_error + user" where
  "userFromRow r =
     and_then (wrap_domain (NewOIDCSubject (ur_oidc_subject r))) (\<lambda>subject.
     and_then (wrap_domain (NewUsername (ur_username r))) (\<lambda>name.
     and_then (case ur_email r of None \<Rightarrow> Inr NoEmailAddress | Some e \<Rightarrow> wrap_domain (NewEmailAddress e)) (\<lambda>email.
     and_then (case ur_preferred_language r of None \<Rightarrow> Inr NoLanguage | Some l \<Rightarrow> wrap_domain (NewLanguage l)) (\<lambda>lang.
     and_then (parseDatetime (ur_creation_time r)) (\<lambda>created.
     and_then (parseDatetime (ur_last_login_time r)) (\<lambda>lastLogin.
       Inr \<lparr>usr_ID = UserID (ur_id r), usr_Subject = subject, usr_Username = name,
            usr_Email = email, usr_IsAdmin = ur_is_admin r, usr_PreferredLanguage = lang,
            usr_Created = created, usr_LastLogin = lastLogin\<rparr>))))))"

definition emailToNullString :: "email_address \<Rightarrow> string option" where
  "emailToNullString e = (if EmailAddress_Empty e then None else Some (EmailAddress_String e))"

text \<open>The ID SQLite gives a new row of a table with an integer primary key.\<close>

definition next_user_id :: "db \<Rightarrow> int" where
  "next_user_id d = foldr max (map ur_id (users d)) 0 + 1"

definition claimOwnerlessRows :: "env \<Rightarrow> db \<Rightarrow> int \<Rightarrow> store_error + db" where
  "claimOwnerlessRows E d adminID =
     and_then (stmt E OpRecordUserLogin 4) (\<lambda>_.
       let d1 = d\<lparr>entries := map (\<lambda>r. if er_owner_user_id r = None
                    then r\<lparr>er_owner_user_id := Some adminID\<rparr> else r) (entries d)\<rparr> in
     and_then (stmt E OpRecordUserLogin 5) (\<lambda>_.
       Inr (d1\<lparr>guest_links := map (\<lambda>r. if glr_owner_user_id r = None
                    then r\<lparr>glr_owner_user_id := Some adminID\<rparr> else r) (guest_links d1)\<rparr>)))"

definition new_user_row :: "env \<Rightarrow> user_identity \<Rightarrow> int \<Rightarrow> bool \<Rightarrow> user_row" where
  "new_user_row E identity i isAdmin =
     \<lparr>ur_id = i, ur_oidc_subject = OIDCSubject_String (ui_Subject identity),
      ur_username = Username_String (ui_Username identity),
      ur_email = emailToNullString (ui_Email identity), ur_is_admin = isAdmin,
      ur_preferred_language = None, ur_creation_time = formatTime (st_now E),
      ur_last_login_time = formatTime (st_now E)\<rparr>"

definition isFirstUser :: "env \<Rightarrow> db \<Rightarrow> store_error + bool" where
  "isFirstUser E d = and_then (stmt E OpRecordUserLogin 2) (\<lambda>_. Inr (users d = []))"

definition insert_user :: "env \<Rightarrow> db \<Rightarrow> user_identity \<Rightarrow> store_error + int \<times> db" where
  "insert_user E d identity =
     and_then (isFirstUser E d) (\<lambda>isAdmin.
     and_then (stmt E OpRecordUserLogin 3) (\<lambda>_.
       let i = next_user_id d; r = new_user_row E identity i isAdmin;
           d1 = d\<lparr>users := users d @ [r]\<rparr> in
     and_then (ensure (user_ok E r \<and> ur_oidc_subject r \<notin> ur_oidc_subject ` set (users d)) ConstraintError) (\<lambda>_.
     and_then (if isAdmin then claimOwnerlessRows E d1 i else Inr d1) (\<lambda>d2. Inr (i, d2)))))"

definition login_row :: "env \<Rightarrow> user_identity \<Rightarrow> user_row \<Rightarrow> user_row" where
  "login_row E identity r =
     r\<lparr>ur_username := Username_String (ui_Username identity),
       ur_email := emailToNullString (ui_Email identity),
       ur_last_login_time := formatTime (st_now E)\<rparr>"

definition update_user :: "env \<Rightarrow> db \<Rightarrow> user_identity \<Rightarrow> int \<Rightarrow> store_error + int \<times> db" where
  "update_user E d identity i =
     and_then (stmt E OpRecordUserLogin 3) (\<lambda>_.
     and_then (ensure (list_all (\<lambda>r. ur_id r = i \<longrightarrow> user_ok E (login_row E identity r)) (users d)) ConstraintError) (\<lambda>_.
       Inr (i, d\<lparr>users := map (\<lambda>r. if ur_id r = i then login_row E identity r else r) (users d)\<rparr>)))"

definition RecordUserLogin :: "env \<Rightarrow> db \<Rightarrow> user_identity \<Rightarrow> (store_error + user) \<times> db" where
  "RecordUserLogin E d identity =
     transaction d
       (and_then (stmt E OpRecordUserLogin 0) (\<lambda>_.
        and_then (stmt E OpRecordUserLogin 1) (\<lambda>_.
        and_then (case first_row (filter (\<lambda>r. ur_oidc_subject r = OIDCSubject_String (ui_Subject identity)) (users d)) of
                    None \<Rightarrow> insert_user E d identity
                  | Some r \<Rightarrow> update_user E d identity (ur_id r)) (\<lambda>(i, d1).
        and_then (stmt E OpRecordUserLogin 6) (\<lambda>_.
        and_then (of_option ErrNoRows (first_row (filter (\<lambda>r. ur_id r = i) (users d1)))) (\<lambda>r.
        and_then (userFromRow r) (\<lambda>user.
        and_then (stmt E OpRecordUserLogin 7) (\<lambda>_. Inr (user, d1)))))))))"

definition sort_users :: "user_row list \<Rightarrow> user_row list" where
  "sort_users rs = sort_key ur_id rs"

text \<open>Unlike the other loops over rows, this one ends with \<open>rows.Err()\<close>.\<close>

definition GetUsers :: "env \<Rightarrow> db \<Rightarrow> store_error + user list" where
  "GetUsers E d =
     and_then (stmt E OpGetUsers 0) (\<lambda>_.
       let rows = sort_users (users d); got = fetched E OpGetUsers 1 rows in
     and_then (map_result userFromRow got) (\<lambda>us.
     and_then (ensure (length got = length rows) DriverError) (\<lambda>_. Inr us)))"

definition set_admin :: "int \<Rightarrow> bool \<Rightarrow> db \<Rightarrow> db" where
  "set_admin i b d =
     d\<lparr>users := map (\<lambda>r. if ur_id r = i then r\<lparr>ur_is_admin := b\<rparr> else r) (users d)\<rparr>"

definition GrantAdmin :: "env \<Rightarrow> db \<Rightarrow> user_id \<Rightarrow> (store_error + unit) \<times> db" where
  "GrantAdmin E d i =
     (if sq_fault E OpGrantAdmin 0 then (Inl DriverError, d)
      else if \<not> list_ex (\<lambda>r. ur_id r = UserID_Int64 i) (users d) then (Inl (UserNotFoundError i), d)
      else (Inr (), set_admin (UserID_Int64 i) True d))"

definition admin_count :: "db \<Rightarrow> nat" where
  "admin_count d = length (filter ur_is_admin (users d))"

definition RevokeAdmin :: "env \<Rightarrow> db \<Rightarrow> user_id \<Rightarrow> (store_error + unit) \<times> db" where
  "RevokeAdmin E d i =
     (if sq_fault E OpRevokeAdmin 0 then (Inl DriverError, d)
      else if list_ex (\<lambda>r. ur_id r = UserID_Int64 i \<and> ur_is_admin r) (users d) \<and> 1 < admin_count d
      then (Inr (), set_admin (UserID_Int64 i) False d)
      else if sq_fault E OpRevokeAdmin 1 then (Inl DriverError, d)
      else case first_row (filter (\<lambda>r. ur_id r = UserID_Int64 i) (users d)) of
             None \<Rightarrow> (Inl (UserNotFoundError i), d)
           | Some r \<Rightarrow> (if \<not> ur_is_admin r then (Inr (), d) else (Inl LastAdminError, d)))"

definition UpdateUserLanguage :: "env \<Rightarrow> db \<Rightarrow> user_id \<Rightarrow> language \<Rightarrow> (store_error + unit) \<times> db" where
  "UpdateUserLanguage E d i lang =
     (if sq_fault E OpUpdateUserLanguage 0 then (Inl DriverError, d)
      else if \<not> list_ex (\<lambda>r. ur_id r = UserID_Int64 i) (users d) then (Inl (UserNotFoundError i), d)
      else if Language_value lang \<noteq> ''en'' \<and> Language_value lang \<noteq> ''zh-TW'' then (Inl ConstraintError, d)
      else (Inr (), d\<lparr>users := map (\<lambda>r. if ur_id r = UserID_Int64 i
                        then r\<lparr>ur_preferred_language := Some (Language_value lang)\<rparr> else r) (users d)\<rparr>))"

section \<open>Sessions\<close>

definition session_row_of :: "session \<Rightarrow> session_row" where
  "session_row_of s =
     \<lparr>sr_token_hash = SessionTokenHash_String (ses_TokenHash s), sr_user_id = UserID_Int64 (ses_UserID s),
      sr_creation_time = formatTime (ses_Created s), sr_expiration_time = formatTime (ses_Expires s)\<rparr>"

definition InsertSession :: "env \<Rightarrow> db \<Rightarrow> session \<Rightarrow> (store_error + unit) \<times> db" where
  "InsertSession E d s =
     (if sq_fault E OpInsertSession 0 then (Inl DriverError, d)
      else if sr_token_hash (session_row_of s) \<in> sr_token_hash ` set (sessions d) \<or>
              \<not> session_ok E d (session_row_of s) then (Inl ConstraintError, d)
      else (Inr (), d\<lparr>sessions := sessions d @ [session_row_of s]\<rparr>))"

text \<open>\<open>datetime(sessions.expiration_time) > datetime(:now)\<close>; a NULL compares as false.\<close>

definition session_live :: "env \<Rightarrow> session_row \<Rightarrow> bool" where
  "session_live E r =
     (case (sq_datetime E (sr_expiration_time r), sq_datetime E (formatTime (st_now E))) of
        (Some a, Some b) \<Rightarrow> text_less b a
      | _ \<Rightarrow> False)"

definition session_expired :: "env \<Rightarrow> session_row \<Rightarrow> bool" where
  "session_expired E r =
     (case (sq_datetime E (sr_expiration_time r), sq_datetime E (formatTime (st_now E))) of
        (Some a, Some b) \<Rightarrow> \<not> text_less b a
      | _ \<Rightarrow> False)"

definition session_users :: "env \<Rightarrow> db \<Rightarrow> session_token_hash \<Rightarrow> user_row list" where
  "session_users E d h =
     concat (map (\<lambda>s. filter (\<lambda>u. ur_id u = sr_user_id s) (users d))
       (filter (\<lambda>s. sr_token_hash s = SessionTokenHash_String h \<and> session_live E s) (sessions d)))"

definition GetSessionUser :: "env \<Rightarrow> db \<Rightarrow> session_token_hash \<Rightarrow> store_error + user" where
  "GetSessionUser E d h =
     and_then (stmt E OpGetSessionUser 0) (\<lambda>_.
       case first_row (session_users E d h) of
         None \<Rightarrow> Inl SessionNotFoundError
       | Some r \<Rightarrow> userFromRow r)"

definition DeleteSession :: "env \<Rightarrow> db \<Rightarrow> session_token_hash \<Rightarrow> (store_error + unit) \<times> db" where
  "DeleteSession E d h =
     (if sq_fault E OpDeleteSession 0 then (Inl DriverError, d)
      else (Inr (), d\<lparr>sessions := filter (\<lambda>s. sr_token_hash s \<noteq> SessionTokenHash_String h) (sessions d)\<rparr>))"

definition deleteExpiredSessions :: "env \<Rightarrow> db \<Rightarrow> (store_error + unit) \<times> db" where
  "deleteExpiredSessions E d =
     (if sq_fault E OpDeleteExpiredSessions 0 then (Inl DriverError, d)
      else (Inr (), d\<lparr>sessions := filter (\<lambda>s. \<not> session_expired E s) (sessions d)\<rparr>))"

section \<open>Administrators\<close>

text \<open>Once there are users, one of them is an administrator.\<close>

definition has_admin :: "db \<Rightarrow> bool" where
  "has_admin d \<longleftrightarrow> users d = [] \<or> list_ex ur_is_admin (users d)"

text \<open>The rows of a table, once another table has changed.\<close>

lemma claimOwnerlessRows_ok:
  "claimOwnerlessRows E d a = Inr d1 \<Longrightarrow>
     d1 = d\<lparr>entries := map (\<lambda>r. if er_owner_user_id r = None
                 then r\<lparr>er_owner_user_id := Some a\<rparr> else r) (entries d),
            guest_links := map (\<lambda>r. if glr_owner_user_id r = None
                 then r\<lparr>glr_owner_user_id := Some a\<rparr> else r) (guest_links d)\<rparr>"
  by (auto simp: claimOwnerlessRows_def and_then_eq_Inr_iff)

lemma RecordUserLogin_atomic: "RecordUserLogin E d identity = (Inl e, d1) \<Longrightarrow> d1 = d"
  unfolding RecordUserLogin_def by (rule transaction_atomic)

lemma new_user_row_simps [simp]:
  "ur_oidc_subject (new_user_row E identity i a) = OIDCSubject_String (ui_Subject identity)"
  "ur_is_admin (new_user_row E identity i a) = a" "ur_id (new_user_row E identity i a) = i"
  by (simp_all add: new_user_row_def)

lemma insert_user_ok:
  assumes "insert_user E d identity = Inr (i, d1)"
  shows "i = next_user_id d" and "users d1 = users d @ [new_user_row E identity i (users d = [])]"
    and "OIDCSubject_String (ui_Subject identity) \<notin> ur_oidc_subject ` set (users d)"
    and "users d = [] \<Longrightarrow> claimOwnerlessRows E (d\<lparr>users := [new_user_row E identity i True]\<rparr>) i = Inr d1"
    and "users d \<noteq> [] \<Longrightarrow> d1 = d\<lparr>users := users d @ [new_user_row E identity i False]\<rparr>"
proof -
  define r where "r = new_user_row E identity (next_user_id d) (users d = [])"
  have i: "i = next_user_id d" and new: "OIDCSubject_String (ui_Subject identity) \<notin> ur_oidc_subject ` set (users d)"
    and d1: "(if users d = [] then claimOwnerlessRows E (d\<lparr>users := users d @ [r]\<rparr>) (next_user_id d)
              else Inr (d\<lparr>users := users d @ [r]\<rparr>)) = Inr d1"
    using assms by (auto simp: insert_user_def and_then_eq_Inr_iff isFirstUser_def ensure_def Let_def
        r_def split: if_splits)
  show "i = next_user_id d" and "OIDCSubject_String (ui_Subject identity) \<notin> ur_oidc_subject ` set (users d)"
    by (fact i new)+
  show "users d = [] \<Longrightarrow> claimOwnerlessRows E (d\<lparr>users := [new_user_row E identity i True]\<rparr>) i = Inr d1"
    and "users d \<noteq> [] \<Longrightarrow> d1 = d\<lparr>users := users d @ [new_user_row E identity i False]\<rparr>"
    using d1 i by (simp_all add: r_def)
  show "users d1 = users d @ [new_user_row E identity i (users d = [])]"
    using d1 i by (cases "users d = []") (auto simp: r_def dest: claimOwnerlessRows_ok)
qed

lemma RecordUserLogin_users:
  assumes "RecordUserLogin E d identity = (Inr u, d1)"
  shows "(\<exists>i. insert_user E d identity = Inr (i, d1) \<and>
      filter (\<lambda>r. ur_oidc_subject r = OIDCSubject_String (ui_Subject identity)) (users d) = []) \<or>
    (\<exists>r. r \<in> set (users d) \<and> ur_oidc_subject r = OIDCSubject_String (ui_Subject identity) \<and>
      d1 = d\<lparr>users := map (\<lambda>x. if ur_id x = ur_id r then login_row E identity x else x) (users d)\<rparr>)"
  using assms
  by (auto simp: RecordUserLogin_def transaction_def and_then_eq_Inr_iff update_user_def
      split: sum.splits option.splits prod.splits dest!: first_row_filterD)

lemma has_admin_login: "has_admin d \<Longrightarrow> RecordUserLogin E d identity = (r, d1) \<Longrightarrow> has_admin d1"
proof (cases r)
  case (Inl e)
  then show "has_admin d \<Longrightarrow> RecordUserLogin E d identity = (r, d1) \<Longrightarrow> has_admin d1"
    by (auto dest: RecordUserLogin_atomic)
next
  case (Inr u)
  assume h: "has_admin d" and "RecordUserLogin E d identity = (r, d1)"
  with Inr have "RecordUserLogin E d identity = (Inr u, d1)" by simp
  from RecordUserLogin_users [OF this] show "has_admin d1"
  proof (elim disjE exE conjE)
    fix i
    assume "insert_user E d identity = Inr (i, d1)"
    from insert_user_ok(2) [OF this] h show ?thesis
      by (auto simp: has_admin_def new_user_row_def)
  next
    fix x
    assume d1: "d1 = d\<lparr>users := map (\<lambda>y. if ur_id y = ur_id x then login_row E identity y else y) (users d)\<rparr>"
    have "list_ex ur_is_admin (map (\<lambda>y. if ur_id y = ur_id x then login_row E identity y else y) us) =
        list_ex ur_is_admin us" for us
      by (induction us) (auto simp: login_row_def)
    with h show ?thesis by (simp add: has_admin_def d1)
  qed
qed

lemma list_ex_set_admin:
  "list_ex ur_is_admin us \<Longrightarrow>
     list_ex ur_is_admin (map (\<lambda>r. if ur_id r = i then r\<lparr>ur_is_admin := True\<rparr> else r) us)"
  by (induction us) auto

lemma has_admin_grant: "has_admin d \<Longrightarrow> GrantAdmin E d i = (r, d1) \<Longrightarrow> has_admin d1"
  using list_ex_set_admin [of "users d" "UserID_Int64 i"]
  by (auto simp: GrantAdmin_def has_admin_def set_admin_def split: if_splits)

text \<open>Among users with distinct IDs, clearing one administrator's flag removes exactly one.\<close>

lemma admin_count_revoke:
  "distinct (map ur_id rs) \<Longrightarrow>
     length (filter ur_is_admin rs) \<le>
       Suc (length (filter ur_is_admin (map (\<lambda>r. if ur_id r = i then r\<lparr>ur_is_admin := False\<rparr> else r) rs)))"
proof (induction rs)
  case (Cons r rs)
  show ?case
  proof (cases "ur_id r = i")
    case True
    with Cons.prems have "\<forall>x \<in> set rs. ur_id x \<noteq> i" by (auto simp: image_iff)
    then have "map (\<lambda>r. if ur_id r = i then r\<lparr>ur_is_admin := False\<rparr> else r) rs = rs"
      by (induction rs) auto
    with True show ?thesis by simp
  next
    case False
    with Cons show ?thesis by simp
  qed
qed simp

lemma has_admin_revoke:
  assumes "has_admin d" and "distinct (map ur_id (users d))" and "RevokeAdmin E d i = (r, d1)"
  shows "has_admin d1"
proof (cases "d1 = d")
  case False
  with assms(3) have d1: "d1 = set_admin (UserID_Int64 i) False d" and "1 < admin_count d"
    by (auto simp: RevokeAdmin_def split: if_splits option.splits)
  have us: "users d1 =
      map (\<lambda>r. if ur_id r = UserID_Int64 i then r\<lparr>ur_is_admin := False\<rparr> else r) (users d)"
    by (simp add: d1 set_admin_def)
  have "0 < admin_count d1"
    using admin_count_revoke [OF assms(2), of "UserID_Int64 i"] \<open>1 < admin_count d\<close>
    unfolding admin_count_def us by linarith
  then show ?thesis by (auto simp: admin_count_def has_admin_def list_ex_iff filter_empty_conv)
qed (use assms in simp)

lemma RevokeAdmin_last:
  assumes "keys_ok d" and "u \<in> set (users d)" "ur_is_admin u" and "admin_count d = 1"
    and "\<not> sq_fault E OpRevokeAdmin 0" "\<not> sq_fault E OpRevokeAdmin 1"
  shows "RevokeAdmin E d (UserID (ur_id u)) = (Inl LastAdminError, d)"
proof -
  have "filter (\<lambda>r. ur_id r = ur_id u) (users d) = [u]"
    using assms(1,2) by (intro first_row_filter_distinct) (auto simp: keys_ok_def)
  then show ?thesis using assms by (simp add: RevokeAdmin_def)
qed

lemma RevokeAdmin_demotes:
  assumes "RevokeAdmin E d i = (Inr (), d1)" and "u \<in> set (users d1)" "ur_id u = UserID_Int64 i"
    and "keys_ok d"
  shows "\<not> ur_is_admin u"
proof -
  consider "d1 = set_admin (UserID_Int64 i) False d"
    | r where "d1 = d" "first_row (filter (\<lambda>r. ur_id r = UserID_Int64 i) (users d)) = Some r"
      "\<not> ur_is_admin r"
    using assms(1) by (auto simp: RevokeAdmin_def split: if_splits option.splits)
  then show ?thesis
  proof cases
    case 1
    with assms(2,3) show ?thesis by (auto simp: set_admin_def split: if_splits)
  next
    case 2
    have "filter (\<lambda>r. ur_id r = ur_id u) (users d) = [u]"
      using assms(2,4) 2(1) by (intro first_row_filter_distinct) (auto simp: keys_ok_def)
    with 2 assms(3) show ?thesis by simp
  qed
qed

section \<open>First login\<close>

lemma le_foldr_max: "x \<in> set xs \<Longrightarrow> x \<le> foldr max xs (0 :: int)"
  by (induction xs) auto

lemma next_user_id_fresh: "next_user_id d \<notin> ur_id ` set (users d)"
proof
  assume "next_user_id d \<in> ur_id ` set (users d)"
  then have "next_user_id d \<le> foldr max (map ur_id (users d)) 0" by (intro le_foldr_max) simp
  then show False by (simp add: next_user_id_def)
qed

lemma next_user_id_pos: "1 \<le> next_user_id d"
proof -
  have "0 \<le> foldr max xs (0 :: int)" for xs by (induction xs) auto
  then show ?thesis by (simp add: next_user_id_def)
qed

text \<open>After the first login nothing is without an owner, and the administrator owns what was.\<close>

lemma first_login_claims:
  assumes "RecordUserLogin E d identity = (Inr u, d1)" and "users d = []"
  shows "r \<in> set (entries d1) \<Longrightarrow> er_owner_user_id r \<noteq> None"
    and "g \<in> set (guest_links d1) \<Longrightarrow> glr_owner_user_id g \<noteq> None"
    and "users d1 = [new_user_row E identity (next_user_id d) True]"
    and "entries_data d1 = entries_data d" "map er_id (entries d1) = map er_id (entries d)"
proof -
  obtain i where i: "insert_user E d identity = Inr (i, d1)"
    using RecordUserLogin_users [OF assms(1)] assms(2) by auto
  note ok = insert_user_ok [OF i]
  note d1 = claimOwnerlessRows_ok [OF ok(4) [OF assms(2)]]
  show "r \<in> set (entries d1) \<Longrightarrow> er_owner_user_id r \<noteq> None"
    and "g \<in> set (guest_links d1) \<Longrightarrow> glr_owner_user_id g \<noteq> None"
    by (auto simp: d1)
  show "users d1 = [new_user_row E identity (next_user_id d) True]"
    using ok(1,2) assms(2) by simp
  show "entries_data d1 = entries_data d" by (simp add: d1)
  have "map er_id (map (\<lambda>r. if er_owner_user_id r = None then r\<lparr>er_owner_user_id := Some i\<rparr> else r) es) =
      map er_id es" for es by (induction es) auto
  then show "map er_id (entries d1) = map er_id (entries d)" by (simp add: d1)
qed

section \<open>Session lookup\<close>

lemma session_live_iff:
  assumes "datetime_law E" and "text_range (st_now E)" and "text_range e"
    and "sr_expiration_time s = formatTime e"
  shows "session_live E s \<longleftrightarrow> unix_secs (st_now E) < unix_secs e"
    and "session_expired E s \<longleftrightarrow> unix_secs e \<le> unix_secs (st_now E)"
  using assms text_less_datetime_text [OF assms(2,3)]
  by (auto simp: session_live_def session_expired_def datetime_law_def)

lemma session_users_in:
  "u \<in> set (session_users E d h) \<longleftrightarrow>
     u \<in> set (users d) \<and> (\<exists>s \<in> set (sessions d). sr_token_hash s = SessionTokenHash_String h \<and>
       session_live E s \<and> ur_id u = sr_user_id s)"
  by (auto simp: session_users_def)

lemma GetSessionUser_Inr:
  assumes "GetSessionUser E d h = Inr u"
  obtains r s where "r \<in> set (users d)" "s \<in> set (sessions d)" "userFromRow r = Inr u"
    "sr_token_hash s = SessionTokenHash_String h" "session_live E s" "sr_user_id s = ur_id r"
proof -
  obtain r where "first_row (session_users E d h) = Some r" "userFromRow r = Inr u"
    using assms by (auto simp: GetSessionUser_def and_then_eq_Inr_iff split: option.splits)
  with first_row_SomeD session_users_in that show ?thesis by metis
qed

lemma userFromRow_fields:
  "userFromRow r = Inr u \<Longrightarrow>
     usr_ID u = UserID (ur_id r) \<and> usr_IsAdmin u = ur_is_admin r \<and>
     Username_String (usr_Username u) = ur_username r"
  by (auto simp: userFromRow_def and_then_eq_Inr_iff wrap_domain_def NewUsername_def
      split: sum.splits option.splits)

lemma GetSessionUser_live:
  assumes keys: "keys_ok d" and "r \<in> set (users d)" "s \<in> set (sessions d)"
    and "sr_token_hash s = SessionTokenHash_String h" "session_live E s" "sr_user_id s = ur_id r"
    and "\<not> sq_fault E OpGetSessionUser 0"
  shows "GetSessionUser E d h = userFromRow r"
proof -
  have "filter (\<lambda>x. sr_token_hash x = sr_token_hash s) (sessions d) = [s]"
    using keys assms(3) by (intro first_row_filter_distinct) (auto simp: keys_ok_def)
  then have "filter (\<lambda>x. sr_token_hash x = SessionTokenHash_String h \<and> session_live E x) (sessions d) = [s]"
    using assms(4,5) filter_filter [of "session_live E" "\<lambda>x. sr_token_hash x = sr_token_hash s" "sessions d"]
    by (simp add: conj_commute)
  moreover have "filter (\<lambda>u. ur_id u = ur_id r) (users d) = [r]"
    using keys assms(2) by (intro first_row_filter_distinct) (auto simp: keys_ok_def)
  ultimately have "session_users E d h = [r]"
    using assms(6) by (simp add: session_users_def)
  then show ?thesis using assms(7) by (simp add: GetSessionUser_def stmt_def)
qed

lemma GetSessionUser_none:
  assumes "\<And>s. s \<in> set (sessions d) \<Longrightarrow> sr_token_hash s = SessionTokenHash_String h \<Longrightarrow> \<not> session_live E s"
    and "\<not> sq_fault E OpGetSessionUser 0"
  shows "GetSessionUser E d h = Inl SessionNotFoundError"
proof -
  have "filter (\<lambda>s. sr_token_hash s = SessionTokenHash_String h \<and> session_live E s) (sessions d) = []"
    using assms(1) by (auto simp: filter_empty_conv)
  then have "session_users E d h = []" by (simp add: session_users_def)
  then show ?thesis using assms(2) by (simp add: GetSessionUser_def stmt_def)
qed

lemma GetSessionUser_deleted:
  assumes "DeleteSession E d h = (Inr u, d1)" and "\<not> sq_fault E' OpGetSessionUser 0"
  shows "GetSessionUser E' d1 h = Inl SessionNotFoundError"
  using assms
  by (intro GetSessionUser_none) (auto simp: DeleteSession_def split: if_splits)

text \<open>Purging expired sessions logs nobody out whose session is still live.\<close>

lemma live_not_expired: "session_live E s \<Longrightarrow> \<not> session_expired E s"
  by (auto simp: session_live_def session_expired_def split: option.splits)

lemma GetSessionUser_purged:
  assumes "deleteExpiredSessions E d = (Inr u, d1)"
  shows "GetSessionUser E d1 h = GetSessionUser E d h"
proof -
  have d1: "d1 = d\<lparr>sessions := filter (\<lambda>s. \<not> session_expired E s) (sessions d)\<rparr>"
    using assms by (auto simp: deleteExpiredSessions_def split: if_splits)
  have "filter (\<lambda>s. sr_token_hash s = SessionTokenHash_String h \<and> session_live E s) (sessions d1) =
      filter (\<lambda>s. sr_token_hash s = SessionTokenHash_String h \<and> session_live E s) (sessions d)"
    by (auto simp: d1 intro!: filter_cong dest: live_not_expired)
  then have "session_users E d1 h = session_users E d h" by (simp add: session_users_def d1)
  then show ?thesis by (simp add: GetSessionUser_def)
qed

end
