(* ===== verification/StoreSettings.thy ===== *)
theory StoreSettings
  imports StoreGuestLinks
begin

text \<open>
  \<open>store/sqlite/settings.go\<close> and \<open>oidc_settings.go\<close>: the one row of settings, and the one row
  of identity-provider settings with the hash of the one-time setup token.
\<close>

section \<open>Settings\<close>

text \<open>Scanning an integer column into a \<open>uint16\<close> and a \<open>sql.NullInt16\<close>: out of range fails.\<close>

definition scan_u16 :: "int option \<Rightarrow> store_error + u16" where
  "scan_u16 c =
     (case c of
        None \<Rightarrow> Inl ConversionError
      | Some v \<Rightarrow> (if 0 \<le> v \<and> v < 65536 then Inr (of_int v) else Inl ConversionError))"

definition scan_null_i16 :: "int option \<Rightarrow> store_error + int option" where
  "scan_null_i16 c =
     (case c of
        None \<Rightarrow> Inr None
      | Some v \<Rightarrow> (if - 32768 \<le> v \<and> v < 32768 then Inr (Some v) else Inl ConversionError))"

definition zero_settings :: settings where
  "zero_settings =
     \<lparr>set_DefaultFileLifetime = FileLifetime 0, set_DownloadHistoryRetention = Retention 0,
      set_DefaultLanguage = SiteDefaultLanguageAuto, set_MaxNonAdminFileLifetime = FileLifetime 0\<rparr>"

definition settings_from_row :: "settings_row \<Rightarrow> store_error + settings" where
  "settings_from_row r =
     and_then (scan_u16 (str_default_expiration_in_days r)) (\<lambda>expirationInDays.
     and_then (scan_null_i16 (str_download_history_retention_days r)) (\<lambda>retentionDays.
     and_then (scan_null_i16 (str_max_non_admin_file_lifetime_days r)) (\<lambda>maxDays.
     and_then (case retentionDays of
                 None \<Rightarrow> Inr KeepDownloadHistoryForever
               | Some v \<Rightarrow> wrap_domain (NewDownloadHistoryRetentionInDays (of_int v))) (\<lambda>retention.
     and_then (case str_default_language r of
                 None \<Rightarrow> Inr SiteDefaultLanguageAuto
               | Some l \<Rightarrow> wrap_domain (NewSiteDefaultLanguage l)) (\<lambda>lang.
       Inr \<lparr>set_DefaultFileLifetime = NewFileLifetimeInDays expirationInDays,
            set_DownloadHistoryRetention = retention, set_DefaultLanguage = lang,
            set_MaxNonAdminFileLifetime =
              (case maxDays of None \<Rightarrow> FileLifetimeInfinite
               | Some v \<Rightarrow> NewFileLifetimeInDays (of_int v))\<rparr>)))))"

definition ReadSettings :: "env \<Rightarrow> db \<Rightarrow> store_error + settings" where
  "ReadSettings E d =
     and_then (stmt E OpReadSettings 0) (\<lambda>_.
       case settings_table d of
         None \<Rightarrow> Inr zero_settings
       | Some r \<Rightarrow> settings_from_row r)"

definition settings_row_of :: "settings \<Rightarrow> settings_row" where
  "settings_row_of s =
     \<lparr>str_default_expiration_in_days = Some (uint (FileLifetime_Days (set_DefaultFileLifetime s))),
      str_download_history_retention_days =
        map_option sint (Retention_Days (set_DownloadHistoryRetention s)),
      str_default_language =
        (if SiteDefaultLanguage_IsAuto (set_DefaultLanguage s) then None
         else Some (SiteDefaultLanguage_String (set_DefaultLanguage s))),
      str_max_non_admin_file_lifetime_days =
        (if \<not> FileLifetime_Equal (set_MaxNonAdminFileLifetime s) FileLifetimeInfinite \<and>
            FileLifetime_Days (set_MaxNonAdminFileLifetime s) \<noteq> 0
         then Some (sint (FileLifetime_Days (set_MaxNonAdminFileLifetime s))) else None)\<rparr>"

text \<open>An UPDATE of a missing row succeeds and does nothing.\<close>

definition UpdateSettings :: "env \<Rightarrow> db \<Rightarrow> settings \<Rightarrow> (store_error + unit) \<times> db" where
  "UpdateSettings E d s =
     (if sq_fault E OpUpdateSettings 0 then (Inl DriverError, d)
      else case settings_table d of
             None \<Rightarrow> (Inr (), d)
           | Some _ \<Rightarrow>
               (if \<not> settings_ok (settings_row_of s) then (Inl ConstraintError, d)
                else (Inr (), d\<lparr>settings_table := Some (settings_row_of s)\<rparr>)))"

text \<open>The settings that the settings page can produce.\<close>

definition storable_settings :: "settings \<Rightarrow> bool" where
  "storable_settings s \<longleftrightarrow>
     (\<exists>n. set_DefaultFileLifetime s = NewFileLifetimeInDays n) \<and>
     (set_DownloadHistoryRetention s = KeepDownloadHistoryForever \<or>
      (\<exists>n. NewDownloadHistoryRetentionInDays n = Inr (set_DownloadHistoryRetention s))) \<and>
     (\<exists>raw. NewSiteDefaultLanguage raw = Inr (set_DefaultLanguage s)) \<and>
     (set_MaxNonAdminFileLifetime s = FileLifetimeInfinite \<or>
      (\<exists>n. set_MaxNonAdminFileLifetime s = NewFileLifetimeInDays n \<and> 1 \<le> n \<and> n \<le> 32767))"

lemma sint_small: "n \<le> 32767 \<Longrightarrow> sint (n :: u16) = uint n"
proof -
  assume n: "n \<le> 32767"
  have "- 32768 \<le> uint n" using uint_ge_0 [of n] by linarith
  moreover have "uint n < 32768" using n by (simp add: word_le_def)
  ultimately show ?thesis by (simp add: sint_uint signed_take_bit_int_eq_self_iff)
qed

lemma retention_column:
  assumes "r = KeepDownloadHistoryForever \<or> (\<exists>n. NewDownloadHistoryRetentionInDays n = Inr r)"
  shows "(r = KeepDownloadHistoryForever \<and> map_option sint (Retention_Days r) = None) \<or>
    (\<exists>n. map_option sint (Retention_Days r) = Some (uint n) \<and> 1 \<le> uint n \<and> uint n \<le> 3650 \<and>
         NewDownloadHistoryRetentionInDays n = Inr r)"
proof (cases "r = KeepDownloadHistoryForever")
  case True
  then show ?thesis by (simp add: Retention_Days_def)
next
  case False
  with assms obtain n where n: "NewDownloadHistoryRetentionInDays n = Inr r" by blast
  then have r: "r = Retention n" and b: "\<not> n < 1" "\<not> n > 3650"
    by (auto simp: NewDownloadHistoryRetentionInDays_def split: if_splits)
  have u: "1 \<le> uint n" "uint n \<le> 3650" using b by (simp_all add: word_less_def)
  then have "sint n = uint n" by (intro sint_small) (simp add: word_le_def)
  moreover have "n \<noteq> 0" using b(1) by auto
  ultimately show ?thesis
    using n u by (auto simp: r Retention_Days_def Retention_IsForever_def intro!: exI [of _ n])
qed

lemma settings_round_trip:
  assumes s: "storable_settings s"
  shows "settings_ok (settings_row_of s)" and "settings_from_row (settings_row_of s) = Inr s"
proof -
  obtain n where n: "set_DefaultFileLifetime s = NewFileLifetimeInDays n"
    using s by (auto simp: storable_settings_def)
  have nb: "0 \<le> uint n" "uint n < 65536" using uint_lt2p [of n] by simp_all
  obtain raw where raw: "NewSiteDefaultLanguage raw = Inr (set_DefaultLanguage s)"
    using s by (auto simp: storable_settings_def)
  then consider "set_DefaultLanguage s = SiteDefaultLanguage []"
    | "set_DefaultLanguage s = SiteDefaultLanguage ''en''"
    | "set_DefaultLanguage s = SiteDefaultLanguage ''zh-TW''"
    by (auto simp: NewSiteDefaultLanguage_iff SiteDefaultLanguageAuto_def split: if_splits)
  then have lang: "check_null (\<lambda>l. l = ''en'' \<or> l = ''zh-TW'') (str_default_language (settings_row_of s))"
    "(case str_default_language (settings_row_of s) of None \<Rightarrow> Inr SiteDefaultLanguageAuto
      | Some l \<Rightarrow> wrap_domain (NewSiteDefaultLanguage l)) = Inr (set_DefaultLanguage s)"
    by (cases; simp add: settings_row_of_def SiteDefaultLanguage_IsAuto_def SiteDefaultLanguageAuto_def
        SiteDefaultLanguage_String_def NewSiteDefaultLanguage_def NewLanguage_def supportedLanguages_def
        LanguageEnglish_def LanguageTraditionalChinese_def)+
  define m where "m = set_MaxNonAdminFileLifetime s"
  have "m = FileLifetimeInfinite \<or> (\<exists>k. m = NewFileLifetimeInDays k \<and> 1 \<le> k \<and> k \<le> 32767)"
    using s by (auto simp: storable_settings_def m_def)
  then have mx: "(m = FileLifetimeInfinite \<and> str_max_non_admin_file_lifetime_days (settings_row_of s) = None) \<or>
      (\<exists>k. m = NewFileLifetimeInDays k \<and> str_max_non_admin_file_lifetime_days (settings_row_of s) = Some (uint k) \<and>
        1 \<le> uint k \<and> uint k \<le> 32767)"
  proof
    assume "\<exists>k. m = NewFileLifetimeInDays k \<and> 1 \<le> k \<and> k \<le> 32767"
    then obtain k where k: "m = NewFileLifetimeInDays k" "1 \<le> k" "k \<le> 32767" by blast
    then have u: "1 \<le> uint k" "uint k \<le> 32767" by (simp_all add: word_le_def)
    then have "k \<noteq> 0" "k \<noteq> 36500" by auto
    then show ?thesis
      using k u by (simp add: settings_row_of_def m_def [symmetric] FileLifetimeInfinite_days sint_small)
  qed (simp add: settings_row_of_def m_def)
  have ret: "set_DownloadHistoryRetention s = KeepDownloadHistoryForever \<or>
      (\<exists>n. NewDownloadHistoryRetentionInDays n = Inr (set_DownloadHistoryRetention s))"
    using s by (auto simp: storable_settings_def)
  note ret = retention_column [OF ret]
  have cols: "str_default_expiration_in_days (settings_row_of s) = Some (uint n)"
    "str_download_history_retention_days (settings_row_of s) =
       map_option sint (Retention_Days (set_DownloadHistoryRetention s))"
    by (simp_all add: settings_row_of_def n)
  show "settings_ok (settings_row_of s)"
    unfolding settings_ok_def cols using nb lang(1) ret mx by auto
  show "settings_from_row (settings_row_of s) = Inr s"
    unfolding settings_from_row_def cols lang(2)
    using nb ret mx n by (cases s) (auto simp: scan_u16_def scan_null_i16_def m_def)
qed

lemma ReadSettings_updated:
  assumes "storable_settings s" and "settings_table d \<noteq> None"
    and "\<not> sq_fault E OpUpdateSettings 0" and "\<not> sq_fault E' OpReadSettings 0"
  shows "\<exists>d1. UpdateSettings E d s = (Inr (), d1) \<and> ReadSettings E' d1 = Inr s"
  using assms settings_round_trip [OF assms(1)]
  by (auto simp: UpdateSettings_def ReadSettings_def stmt_def)

text \<open>A cap of more than 32767 days, other than the infinite one, is refused by the database.\<close>

lemma UpdateSettings_cap_wraps:
  assumes "set_MaxNonAdminFileLifetime s = NewFileLifetimeInDays n" and "32767 < n" "n \<noteq> 36500"
    and "settings_table d \<noteq> None" and "\<not> sq_fault E OpUpdateSettings 0"
  shows "UpdateSettings E d s = (Inl ConstraintError, d)"
proof -
  have u: "32767 < uint n" "uint n < 65536" using assms(2) uint_lt2p [of n] by (simp_all add: word_less_def)
  have "uint n div 32768 = 1" using u by (intro int_div_pos_eq [where r = "uint n - 32768"]) simp_all
  then have "sint n = uint n - 65536"
    using u by (simp add: sint_uint signed_take_bit_eq_take_bit_minus bit_iff_odd take_bit_int_eq_self)
  moreover have "n \<noteq> 0" using u by auto
  ultimately have "str_max_non_admin_file_lifetime_days (settings_row_of s) = Some (uint n - 65536)"
    using assms(1,3) by (simp add: settings_row_of_def FileLifetimeInfinite_days)
  then have "\<not> settings_ok (settings_row_of s)" using u by (simp add: settings_ok_def)
  then show ?thesis using assms(4,5) by (auto simp: UpdateSettings_def)
qed

section \<open>Identity-provider settings\<close>

definition null_string :: "string option \<Rightarrow> string" where
  "null_string c = (case c of None \<Rightarrow> [] | Some s \<Rightarrow> s)"

definition oidc_from_row :: "env \<Rightarrow> oidc_row \<Rightarrow> store_error + oidc_settings" where
  "oidc_from_row E r =
     (case or_issuer_url r of
        None \<Rightarrow> Inr NoOIDCSettings
      | Some issuerRaw \<Rightarrow>
          and_then (wrap_domain (NewOIDCIssuerURL (env_url_parse E) issuerRaw)) (\<lambda>issuer.
          and_then (wrap_domain (NewOIDCClientID (null_string (or_client_id r)))) (\<lambda>clientID.
          and_then (wrap_domain (NewOIDCClientSecret (null_string (or_client_secret r)))) (\<lambda>secret.
          and_then (wrap_domain (NewOIDCRedirectURL (env_url_parse E) (null_string (or_redirect_url r)))) (\<lambda>redirect.
            Inr \<lparr>os_IssuerURL = issuer, os_ExpectedIssuer = null_string (or_expected_issuer r),
                 os_ClientID = clientID, os_ClientSecret = secret, os_RedirectURL = redirect,
                 os_CACertPEM = null_string (or_ca_cert_pem r)\<rparr>)))))"

definition ReadOIDCSettings :: "env \<Rightarrow> db \<Rightarrow> store_error + oidc_settings" where
  "ReadOIDCSettings E d =
     and_then (stmt E OpReadOIDCSettings 0) (\<lambda>_.
       case oidc_table d of None \<Rightarrow> Inr NoOIDCSettings | Some r \<Rightarrow> oidc_from_row E r)"

definition string_or_null :: "string \<Rightarrow> string option" where
  "string_or_null s = (if s = [] then None else Some s)"

definition oidc_row_of :: "oidc_settings \<Rightarrow> oidc_row" where
  "oidc_row_of s =
     \<lparr>or_issuer_url = Some (OIDCIssuerURL_String (os_IssuerURL s)),
      or_expected_issuer = string_or_null (os_ExpectedIssuer s),
      or_client_id = Some (OIDCClientID_String (os_ClientID s)),
      or_client_secret = Some (OIDCClientSecret_String (os_ClientSecret s)),
      or_redirect_url = Some (OIDCRedirectURL_String (os_RedirectURL s)),
      or_ca_cert_pem = string_or_null (os_CACertPEM s),
      or_setup_token_hash = None\<rparr>"

definition UpdateOIDCSettings :: "env \<Rightarrow> db \<Rightarrow> oidc_settings \<Rightarrow> (store_error + unit) \<times> db" where
  "UpdateOIDCSettings E d s =
     (if sq_fault E OpUpdateOIDCSettings 0 then (Inl DriverError, d)
      else (Inr (), d\<lparr>oidc_table := map_option (\<lambda>_. oidc_row_of s) (oidc_table d)\<rparr>))"

text \<open>Clearing keeps the hash of the setup token.\<close>

definition ClearOIDCSettings :: "env \<Rightarrow> db \<Rightarrow> (store_error + unit) \<times> db" where
  "ClearOIDCSettings E d =
     (if sq_fault E OpClearOIDCSettings 0 then (Inl DriverError, d)
      else (Inr (), d\<lparr>oidc_table := map_option
              (\<lambda>r. empty_oidc_row\<lparr>or_setup_token_hash := or_setup_token_hash r\<rparr>) (oidc_table d)\<rparr>))"

definition NeedsSetup :: "env \<Rightarrow> db \<Rightarrow> store_error + bool" where
  "NeedsSetup E d =
     and_then (stmt E OpNeedsSetup 0) (\<lambda>_.
       case oidc_table d of None \<Rightarrow> Inl ErrNoRows | Some r \<Rightarrow> Inr (or_issuer_url r = None))"

definition GenerateSetupToken :: "env \<Rightarrow> db \<Rightarrow> (store_error + setup_token) \<times> db" where
  "GenerateSetupToken E d =
     (let token = NewSetupToken (env_draw E) in
      if sq_fault E OpGenerateSetupToken 0 then (Inl DriverError, d)
      else case oidc_table d of
             None \<Rightarrow> (Inr token, d)
           | Some r \<Rightarrow>
               (let r1 = r\<lparr>or_setup_token_hash := Some (SetupToken_Hash token)\<rparr> in
                if \<not> oidc_ok E r1 then (Inl ConstraintError, d)
                else (Inr token, d\<lparr>oidc_table := Some r1\<rparr>)))"

definition ValidateSetupToken :: "env \<Rightarrow> db \<Rightarrow> setup_token \<Rightarrow> store_error + bool" where
  "ValidateSetupToken E d token =
     and_then (stmt E OpValidateSetupToken 0) (\<lambda>_.
       case oidc_table d of
         None \<Rightarrow> Inl ErrNoRows
       | Some r \<Rightarrow>
           (case or_setup_token_hash r of
              None \<Rightarrow> Inr False
            | Some h \<Rightarrow> Inr (ConstantTimeCompare h (SetupToken_Hash token))))"

text \<open>Settings as the setup form builds them, through the validating constructors.\<close>

definition valid_oidc_settings :: "env \<Rightarrow> oidc_settings \<Rightarrow> bool" where
  "valid_oidc_settings E s \<longleftrightarrow>
     (\<exists>raw. NewOIDCIssuerURL (env_url_parse E) raw = Inr (os_IssuerURL s)) \<and>
     (\<exists>raw. NewOIDCRedirectURL (env_url_parse E) raw = Inr (os_RedirectURL s)) \<and>
     (\<exists>raw. NewOIDCClientID raw = Inr (os_ClientID s)) \<and>
     (\<exists>raw. NewOIDCClientSecret raw = Inr (os_ClientSecret s))"

lemma null_string_or_null [simp]: "null_string (string_or_null s) = s"
  by (simp add: null_string_def string_or_null_def)

lemma null_string_Some [simp]: "null_string (Some s) = s"
  by (simp add: null_string_def)

lemma issuer_again: "NewOIDCIssuerURL up raw = Inr u \<Longrightarrow> NewOIDCIssuerURL up (OIDCIssuerURL_String u) = Inr u"
  by (auto simp: NewOIDCIssuerURL_def newOIDCURL_def split: option.splits if_splits prod.splits)

lemma redirect_again: "NewOIDCRedirectURL up raw = Inr u \<Longrightarrow> NewOIDCRedirectURL up (OIDCRedirectURL_String u) = Inr u"
  by (auto simp: NewOIDCRedirectURL_def newOIDCURL_def split: option.splits if_splits prod.splits sum.splits)

lemma client_id_again: "NewOIDCClientID raw = Inr c \<Longrightarrow> NewOIDCClientID (OIDCClientID_String c) = Inr c"
  by (cases c) (auto simp: NewOIDCClientID_def split: if_splits)

lemma client_secret_again:
  "NewOIDCClientSecret raw = Inr c \<Longrightarrow> NewOIDCClientSecret (OIDCClientSecret_String c) = Inr c"
  by (cases c) (auto simp: NewOIDCClientSecret_def split: if_splits)

lemma oidc_round_trip:
  assumes "valid_oidc_settings E s"
  shows "oidc_from_row E (oidc_row_of s) = Inr s"
proof -
  have "NewOIDCIssuerURL (env_url_parse E) (OIDCIssuerURL_String (os_IssuerURL s)) = Inr (os_IssuerURL s)"
    "NewOIDCRedirectURL (env_url_parse E) (OIDCRedirectURL_String (os_RedirectURL s)) = Inr (os_RedirectURL s)"
    "NewOIDCClientID (OIDCClientID_String (os_ClientID s)) = Inr (os_ClientID s)"
    "NewOIDCClientSecret (OIDCClientSecret_String (os_ClientSecret s)) = Inr (os_ClientSecret s)"
    using assms
    by (auto simp: valid_oidc_settings_def
        dest: issuer_again redirect_again client_id_again client_secret_again)
  then show ?thesis by (simp add: oidc_from_row_def oidc_row_of_def)
qed

lemma UpdateOIDCSettings_ok:
  assumes "UpdateOIDCSettings E d s = (Inr u, d1)" and "oidc_table d \<noteq> None"
  shows "oidc_table d1 = Some (oidc_row_of s)"
  using assms by (auto simp: UpdateOIDCSettings_def split: if_splits)

text \<open>Completing the setup turns it off, and no setup token is valid any more.\<close>

lemma setup_once:
  assumes "UpdateOIDCSettings E d s = (Inr u, d1)" and "oidc_table d \<noteq> None"
    and "\<not> sq_fault E' OpNeedsSetup 0" "\<not> sq_fault E' OpValidateSetupToken 0"
  shows "NeedsSetup E' d1 = Inr False" and "ValidateSetupToken E' d1 token = Inr False"
  using UpdateOIDCSettings_ok [OF assms(1,2)] assms(3,4)
  by (simp_all add: NeedsSetup_def ValidateSetupToken_def stmt_def oidc_row_of_def)

lemma length_SetupToken_Hash [simp]: "length (SetupToken_Hash t) = 64"
  by (simp add: SetupToken_Hash_def length_hex_encode)

lemma GenerateSetupToken_valid:
  assumes "GenerateSetupToken E d = (Inr token, d1)" and "oidc_table d \<noteq> None"
    and "\<not> sq_fault E' OpValidateSetupToken 0"
  shows "ValidateSetupToken E' d1 t = Inr (SetupToken_Hash t = SetupToken_Hash token)"
  using assms
  by (auto simp: GenerateSetupToken_def ValidateSetupToken_def stmt_def Let_def split: if_splits option.splits)

end
