(* ===== verification/StorePurge.thy ===== *)
theory StorePurge
  imports StoreEntries StoreUsers StoreSettings
begin

text \<open>
  \<open>store/sqlite/cleanup.go\<close>: \<open>Purge\<close> deletes expired entries with everything that belongs to
  them (a transaction), chunks without an entry, download records older than the retention
  period, and expired sessions, in this order; a failing stage ends it and keeps what the
  earlier stages did. Returning free pages to the filesystem changes no table.
\<close>

text \<open>The order of expiry is the byte order of the formatted timestamps.\<close>

definition entry_expired :: "env \<Rightarrow> entry_row \<Rightarrow> bool" where
  "entry_expired E r =
     (case er_expiration_time r of
        None \<Rightarrow> False
      | Some exp \<Rightarrow> text_less exp (formatTime (st_now E)))"

definition expired_ids :: "env \<Rightarrow> db \<Rightarrow> string list" where
  "expired_ids E d = map er_id (filter (entry_expired E) (entries d))"

definition deleteExpiredEntries :: "env \<Rightarrow> db \<Rightarrow> (store_error + unit) \<times> db" where
  "deleteExpiredEntries E d =
     transaction d
       (and_then (stmt E OpDeleteExpiredEntries 0) (\<lambda>_.
        and_then (stmt E OpDeleteExpiredEntries 1) (\<lambda>_.
          let d1 = d\<lparr>downloads := filter (\<lambda>r. dl_entry_id r \<notin> set (expired_ids E d)) (downloads d)\<rparr> in
        and_then (stmt E OpDeleteExpiredEntries 2) (\<lambda>_.
          let d2 = d1\<lparr>entries_data := filter (\<lambda>r. cr_id r \<notin> set (expired_ids E d1)) (entries_data d1)\<rparr> in
        and_then (stmt E OpDeleteExpiredEntries 3) (\<lambda>_.
          let d3 = d2\<lparr>entries := filter (\<lambda>r. \<not> entry_expired E r) (entries d2)\<rparr> in
        and_then (stmt E OpDeleteExpiredEntries 4) (\<lambda>_. Inr ((), d3)))))))"

definition deleteOrphanedRows :: "env \<Rightarrow> db \<Rightarrow> (store_error + unit) \<times> db" where
  "deleteOrphanedRows E d =
     (if sq_fault E OpDeleteOrphanedRows 0 then (Inl DriverError, d)
      else (Inr (), d\<lparr>entries_data := filter (\<lambda>r. cr_id r \<in> set (map er_id (entries d))) (entries_data d)\<rparr>))"

definition download_expired :: "env \<Rightarrow> time \<Rightarrow> download_row \<Rightarrow> bool" where
  "download_expired E cutoff r =
     (case (sq_datetime E (dl_timestamp r), sq_datetime E (formatTime cutoff)) of
        (Some a, Some b) \<Rightarrow> text_less a b
      | _ \<Rightarrow> False)"

definition deleteExpiredDownloadHistory :: "env \<Rightarrow> db \<Rightarrow> (store_error + unit) \<times> db" where
  "deleteExpiredDownloadHistory E d =
     (case ReadSettings E d of
        Inl e \<Rightarrow> (Inl e, d)
      | Inr s \<Rightarrow>
          (case Retention_CutoffFrom (set_DownloadHistoryRetention s) (st_now E) of
             None \<Rightarrow> (Inr (), d)
           | Some cutoff \<Rightarrow>
               (if sq_fault E OpDeleteExpiredDownloadHistory 0 then (Inl DriverError, d)
                else (Inr (), d\<lparr>downloads := filter (\<lambda>r. \<not> download_expired E cutoff r) (downloads d)\<rparr>))))"

definition reclaimFreePages :: "env \<Rightarrow> db \<Rightarrow> (store_error + unit) \<times> db" where
  "reclaimFreePages E d =
     (if sq_fault E OpReclaimFreePages 0 then (Inl DriverError, d)
      else if sq_fault E OpReclaimFreePages 1 then (Inl DriverError, d)
      else if sq_fault E OpReclaimFreePages 2 then (Inl DriverError, d)
      else if \<not> st_optimizeForLitestream E \<and> sq_fault E OpReclaimFreePages 3 then (Inl DriverError, d)
      else (Inr (), d))"

text \<open>One stage after another, until one fails.\<close>

definition then_do :: "('e + unit) \<times> 's \<Rightarrow> ('s \<Rightarrow> ('e + unit) \<times> 's) \<Rightarrow> ('e + unit) \<times> 's" where
  "then_do r f = (case r of (Inl e, d) \<Rightarrow> (Inl e, d) | (Inr _, d) \<Rightarrow> f d)"

lemma then_do_simps [simp]: "then_do (Inl e, d) f = (Inl e, d)" "then_do (Inr u, d) f = f d"
  by (simp_all add: then_do_def)

lemma then_do_ok: "then_do r f = (Inr u, d2) \<longleftrightarrow> (\<exists>d1. r = (Inr (), d1) \<and> f d1 = (Inr u, d2))"
  by (auto simp: then_do_def split: prod.splits sum.splits)

definition Purge :: "env \<Rightarrow> db \<Rightarrow> (store_error + unit) \<times> db" where
  "Purge E d =
     then_do (then_do (then_do (then_do (deleteExpiredEntries E d)
       (deleteOrphanedRows E)) (deleteExpiredDownloadHistory E)) (deleteExpiredSessions E))
       (reclaimFreePages E)"

section \<open>What a purge leaves\<close>

lemma deleteExpiredEntries_ok:
  "deleteExpiredEntries E d = (Inr u, d1) \<Longrightarrow>
     d1 = d\<lparr>downloads := filter (\<lambda>r. dl_entry_id r \<notin> set (expired_ids E d)) (downloads d),
            entries_data := filter (\<lambda>r. cr_id r \<notin> set (expired_ids E d)) (entries_data d),
            entries := filter (\<lambda>r. \<not> entry_expired E r) (entries d)\<rparr>"
  unfolding deleteExpiredEntries_def
  by (auto simp: transaction_def and_then_def Let_def expired_ids_def split: sum.splits)

lemma deleteExpiredEntries_atomic: "deleteExpiredEntries E d = (Inl e, d1) \<Longrightarrow> d1 = d"
  unfolding deleteExpiredEntries_def by (rule transaction_atomic)

lemma deleteExpiredDownloadHistory_ok:
  assumes "deleteExpiredDownloadHistory E d = (Inr u, d1)"
  obtains s where "ReadSettings E d = Inr s"
    "d1 = d\<lparr>downloads := filter (\<lambda>r. case Retention_CutoffFrom (set_DownloadHistoryRetention s) (st_now E) of
              None \<Rightarrow> True | Some cutoff \<Rightarrow> \<not> download_expired E cutoff r) (downloads d)\<rparr>"
  using assms that
  by (auto simp: deleteExpiredDownloadHistory_def split: sum.splits option.splits if_splits)

lemma ReadSettings_frame [simp]:
  "ReadSettings E (d\<lparr>entries := a\<rparr>) = ReadSettings E d"
  "ReadSettings E (d\<lparr>entries_data := b\<rparr>) = ReadSettings E d"
  "ReadSettings E (d\<lparr>downloads := c\<rparr>) = ReadSettings E d"
  by (simp_all add: ReadSettings_def)

text \<open>With distinct entry IDs, no remaining entry loses a chunk or a download to an expired one.\<close>

lemma expired_ids_iff:
  assumes "distinct (map er_id (entries d))" and "r \<in> set (entries d)"
  shows "er_id r \<in> set (expired_ids E d) \<longleftrightarrow> entry_expired E r"
  using assms by (auto simp: expired_ids_def inj_on_eq_iff distinct_map)

definition purged :: "env \<Rightarrow> settings \<Rightarrow> db \<Rightarrow> db" where
  "purged E s d = d\<lparr>
      entries := filter (\<lambda>r. \<not> entry_expired E r) (entries d),
      entries_data := filter (\<lambda>c. cr_id c \<notin> set (expired_ids E d) \<and>
          cr_id c \<in> er_id ` set (filter (\<lambda>r. \<not> entry_expired E r) (entries d))) (entries_data d),
      downloads := filter (\<lambda>r. dl_entry_id r \<notin> set (expired_ids E d) \<and>
          (case Retention_CutoffFrom (set_DownloadHistoryRetention s) (st_now E) of
             None \<Rightarrow> True | Some cutoff \<Rightarrow> \<not> download_expired E cutoff r)) (downloads d),
      sessions := filter (\<lambda>s. \<not> session_expired E s) (sessions d)\<rparr>"

lemma Purge_ok:
  assumes "Purge E d = (Inr u, d1)"
  obtains s where "ReadSettings E d = Inr s" and "d1 = purged E s d"
proof -
  obtain da db dc dd where a: "deleteExpiredEntries E d = (Inr (), da)"
    and b: "deleteOrphanedRows E da = (Inr (), db)"
    and c: "deleteExpiredDownloadHistory E db = (Inr (), dc)"
    and e: "deleteExpiredSessions E dc = (Inr (), dd)" and f: "reclaimFreePages E dd = (Inr u, d1)"
    using assms unfolding Purge_def then_do_ok by blast
  note da = deleteExpiredEntries_ok [OF a]
  have db: "db = da\<lparr>entries_data := filter (\<lambda>r. cr_id r \<in> set (map er_id (entries da))) (entries_data da)\<rparr>"
    using b by (auto simp: deleteOrphanedRows_def split: if_splits)
  obtain s where s: "ReadSettings E db = Inr s"
    and dc: "dc = db\<lparr>downloads := filter (\<lambda>r. case Retention_CutoffFrom (set_DownloadHistoryRetention s) (st_now E) of
              None \<Rightarrow> True | Some cutoff \<Rightarrow> \<not> download_expired E cutoff r) (downloads db)\<rparr>"
    using deleteExpiredDownloadHistory_ok [OF c] by blast
  have dd: "dd = dc\<lparr>sessions := filter (\<lambda>s. \<not> session_expired E s) (sessions dc)\<rparr>"
    using e by (auto simp: deleteExpiredSessions_def split: if_splits)
  have d1: "d1 = dd" using f by (auto simp: reclaimFreePages_def split: if_splits)
  show ?thesis
  proof (rule that)
    show "ReadSettings E d = Inr s" using s unfolding db da by simp
  qed (simp add: d1 dd dc db da purged_def conj_commute)
qed

lemma entry_expired_iff:
  assumes "text_range (st_now E)" "text_range et" and "er_expiration_time r = Some (formatTime et)"
  shows "entry_expired E r \<longleftrightarrow> unix_secs et < unix_secs (st_now E)"
  using assms by (simp add: entry_expired_def text_less_formatTime)

lemma download_expired_iff:
  assumes "datetime_law E" and "text_range cutoff" "text_range t" and "dl_timestamp r = formatTime t"
  shows "download_expired E cutoff r \<longleftrightarrow> unix_secs t < unix_secs cutoff"
  using assms by (simp add: download_expired_def datetime_law_def text_less_datetime_text)

text \<open>Without failing statements a purge succeeds.\<close>

lemma Purge_succeeds:
  assumes "\<And>op. no_faults E op" and "ReadSettings E d = Inr s"
  shows "\<exists>d1. Purge E d = (Inr (), d1)"
proof -
  have f: "\<not> sq_fault E op k" for op k using assms(1) [of op] by (simp add: no_faults_def)
  obtain da where a: "deleteExpiredEntries E d = (Inr (), da)"
    by (simp add: deleteExpiredEntries_def Let_def assms(1))
  have ra: "ReadSettings E (da\<lparr>entries_data := x\<rparr>) = Inr s" for x
    using assms(2) by (simp add: deleteExpiredEntries_ok [OF a])
  obtain db where b: "deleteOrphanedRows E da = (Inr (), db)" "ReadSettings E db = Inr s"
    using f ra by (simp add: deleteOrphanedRows_def)
  obtain dc where c: "deleteExpiredDownloadHistory E db = (Inr (), dc)"
    using f b(2) by (cases "Retention_CutoffFrom (set_DownloadHistoryRetention s) (st_now E)")
      (simp_all add: deleteExpiredDownloadHistory_def)
  show ?thesis
    using f by (simp add: Purge_def a b c deleteExpiredSessions_def reclaimFreePages_def)
qed

section \<open>Deletions keep the keys\<close>

text \<open>Operations that only delete rows of entries, chunks, downloads and sessions.\<close>

definition keeps_some :: "'a list \<Rightarrow> 'a list \<Rightarrow> bool" where
  "keeps_some xs ys \<longleftrightarrow> (\<exists>P. ys = filter P xs)"

lemma keeps_some_filter [simp]: "keeps_some xs (filter P xs)"
  by (auto simp: keeps_some_def)

lemma keeps_some_refl [simp]: "keeps_some xs xs"
  using keeps_some_filter [of xs "\<lambda>_. True"] by simp

lemma keeps_some_trans: "keeps_some xs ys \<Longrightarrow> keeps_some ys zs \<Longrightarrow> keeps_some xs zs"
  by (auto simp: keeps_some_def)

definition shrinks :: "db \<Rightarrow> db \<Rightarrow> bool" where
  "shrinks d d1 \<longleftrightarrow>
     keeps_some (entries d) (entries d1) \<and> keeps_some (entries_data d) (entries_data d1) \<and>
     keeps_some (downloads d) (downloads d1) \<and> keeps_some (sessions d) (sessions d1) \<and>
     guest_links d1 = guest_links d \<and> users d1 = users d \<and>
     settings_table d1 = settings_table d \<and> oidc_table d1 = oidc_table d"

lemma shrinks_refl: "shrinks d d"
  by (simp add: shrinks_def)

lemma shrinks_trans: "shrinks d d1 \<Longrightarrow> shrinks d1 d2 \<Longrightarrow> shrinks d d2"
  unfolding shrinks_def using keeps_some_trans by metis

lemma shrinks_keys: "shrinks d d1 \<Longrightarrow> keys_ok d \<Longrightarrow> keys_ok d1"
  by (auto simp: shrinks_def keeps_some_def keys_ok_def distinct_map_filter_sub)

lemma shrinks_filter:
  "shrinks d (d\<lparr>entries_data := filter Q (entries_data d)\<rparr>)"
  "shrinks d (d\<lparr>downloads := filter R (downloads d)\<rparr>)"
  "shrinks d (d\<lparr>sessions := filter S (sessions d)\<rparr>)"
  "shrinks d (d\<lparr>downloads := filter R (downloads d), entries_data := filter Q (entries_data d),
      entries := filter P (entries d)\<rparr>)"
  by (simp_all add: shrinks_def)

lemma then_do_shrinks:
  "shrinks d (snd r) \<Longrightarrow> (\<And>d1. shrinks d1 (snd (f d1))) \<Longrightarrow> shrinks d (snd (then_do r f))"
  by (auto simp: then_do_def split: prod.splits sum.splits intro: shrinks_trans)

lemma DeleteEntry_shrinks: "shrinks d (snd (DeleteEntry E d i))"
proof (cases "DeleteEntry E d i")
  case (Pair r d1)
  show ?thesis
  proof (cases r)
    case (Inl e)
    with Pair DeleteEntry_atomic [of E d i e d1] show ?thesis by (simp add: shrinks_refl)
  next
    case (Inr u)
    with Pair DeleteEntry_ok [of E d i u d1] show ?thesis by (simp add: shrinks_filter)
  qed
qed

lemma deleteExpiredEntries_shrinks: "shrinks d (snd (deleteExpiredEntries E d))"
proof (cases "deleteExpiredEntries E d")
  case (Pair r d1)
  show ?thesis
  proof (cases r)
    case (Inl e)
    with Pair deleteExpiredEntries_atomic [of E d e d1] show ?thesis by (simp add: shrinks_refl)
  next
    case (Inr u)
    with Pair deleteExpiredEntries_ok [of E d u d1] show ?thesis by (simp add: shrinks_filter)
  qed
qed

lemma stage_shrinks:
  "shrinks d (snd (deleteOrphanedRows E d))" "shrinks d (snd (deleteExpiredDownloadHistory E d))"
  "shrinks d (snd (deleteExpiredSessions E d))" "shrinks d (snd (reclaimFreePages E d))"
  "shrinks d (snd (DeleteSession E d h))"
  by (auto simp: deleteOrphanedRows_def deleteExpiredDownloadHistory_def deleteExpiredSessions_def
      reclaimFreePages_def DeleteSession_def shrinks_refl shrinks_filter split: sum.splits option.splits)

text \<open>A purge, complete or not, only deletes rows.\<close>

lemma Purge_shrinks: "shrinks d (snd (Purge E d))"
  unfolding Purge_def
  by (intro then_do_shrinks deleteExpiredEntries_shrinks stage_shrinks)

end
