(* ===== verification/Store.thy ===== *)
theory Store
  imports StorePurge
begin

text \<open>
  The store as a whole: every operation that changes the database as one step of a transition
  relation, under any clock, any pattern of statement failures and any arguments, and the
  invariant of every database that steps reach from the one the migrations leave: keys are
  unique, users include an administrator, both singleton rows exist, sessions and owned rows
  belong to users, and no download record is orphaned where foreign keys are enforced.
\<close>

section \<open>Operations\<close>

datatype store_call =
  CallInsertEntry source upload_metadata
| CallUpdateEntryMetadata entry_id upload_metadata
| CallDeleteEntry entry_id
| CallInsertGuestLink guest_link
| CallDeleteGuestLink guest_link_id
| CallDisableGuestLink guest_link_id
| CallEnableGuestLink guest_link_id
| CallInsertEntryDownload entry_id download_record
| CallRecordUserLogin user_identity
| CallGrantAdmin user_id
| CallRevokeAdmin user_id
| CallUpdateUserLanguage user_id language
| CallInsertSession session
| CallDeleteSession session_token_hash
| CallUpdateSettings settings
| CallUpdateOIDCSettings oidc_settings
| CallClearOIDCSettings
| CallGenerateSetupToken
| CallPurge

text \<open>The database after an operation, whatever it returned.\<close>

definition run_call :: "env \<Rightarrow> store_call \<Rightarrow> db \<Rightarrow> db" where
  "run_call E c d =
     (case c of
        CallInsertEntry src md \<Rightarrow> snd (InsertEntry E d src md)
      | CallUpdateEntryMetadata i md \<Rightarrow> snd (UpdateEntryMetadata E d i md)
      | CallDeleteEntry i \<Rightarrow> snd (DeleteEntry E d i)
      | CallInsertGuestLink gl \<Rightarrow> snd (InsertGuestLink E d gl)
      | CallDeleteGuestLink i \<Rightarrow> snd (DeleteGuestLink E d i)
      | CallDisableGuestLink i \<Rightarrow> snd (DisableGuestLink E d i)
      | CallEnableGuestLink i \<Rightarrow> snd (EnableGuestLink E d i)
      | CallInsertEntryDownload i r \<Rightarrow> snd (InsertEntryDownload E d i r)
      | CallRecordUserLogin u \<Rightarrow> snd (RecordUserLogin E d u)
      | CallGrantAdmin i \<Rightarrow> snd (GrantAdmin E d i)
      | CallRevokeAdmin i \<Rightarrow> snd (RevokeAdmin E d i)
      | CallUpdateUserLanguage i l \<Rightarrow> snd (UpdateUserLanguage E d i l)
      | CallInsertSession s \<Rightarrow> snd (InsertSession E d s)
      | CallDeleteSession h \<Rightarrow> snd (DeleteSession E d h)
      | CallUpdateSettings s \<Rightarrow> snd (UpdateSettings E d s)
      | CallUpdateOIDCSettings s \<Rightarrow> snd (UpdateOIDCSettings E d s)
      | CallClearOIDCSettings \<Rightarrow> snd (ClearOIDCSettings E d)
      | CallGenerateSetupToken \<Rightarrow> snd (GenerateSetupToken E d)
      | CallPurge \<Rightarrow> snd (Purge E d))"

inductive reachable_db :: "db \<Rightarrow> bool" where
  initial: "reachable_db initial_db"
| step: "reachable_db d \<Longrightarrow> 0 < st_chunkSize E \<Longrightarrow> reachable_db (run_call E c d)"

inductive_cases reachable_dbE: "reachable_db d"

text \<open>The rows of the settings and of the identity provider's settings are always there.\<close>

definition singletons_ok :: "db \<Rightarrow> bool" where
  "singletons_ok d \<longleftrightarrow> settings_table d \<noteq> None \<and> oidc_table d \<noteq> None"

definition db_ok :: "db \<Rightarrow> bool" where
  "db_ok d \<longleftrightarrow> keys_ok d \<and> has_admin d \<and> singletons_ok d"

section \<open>Each operation keeps the invariant\<close>

lemma insert_entry_row_cases:
  "insert_entry_row E d md = (r, d1) \<Longrightarrow>
     d1 = d \<or> (d1 = d\<lparr>entries := entries d @ [entry_row_of d md]\<rparr> \<and>
               EntryID_value (um_ID md) \<notin> er_id ` set (entries d))"
  by (auto simp: insert_entry_row_def Let_def split: if_splits)

lemma InsertEntry_cases:
  obtains d2 where "chunk_table.adds E (EntryID_value (um_ID md)) d d2"
    "snd (InsertEntry E d src md) = d2 \<or>
     (snd (InsertEntry E d src md) = d2\<lparr>entries := entries d2 @ [entry_row_of d2 md]\<rparr> \<and>
      EntryID_value (um_ID md) \<notin> er_id ` set (entries d2))"
proof -
  obtain r d1 where R: "InsertEntry E d src md = (r, d1)" by (metis surj_pair)
  show ?thesis
  proof (cases r)
    case (Inl e)
    with R InsertEntry_err_adds [of E d src md e d1] that show ?thesis by simp
  next
    case (Inr u)
    let ?i = "EntryID_value (um_ID md)"
    obtain w1 d2 d3 where copy: "io_Copy (exec_chunk E) (NewWriter ?i (st_chunkSize E)) (src_pieces src) d =
          (None, w1, d2)"
      and close: "writer_Close (exec_chunk E) w1 d2 = (None, d3)"
      and row: "insert_entry_row E d3 md = (r, d1)"
      using R Inr by (auto simp: InsertEntry_def Let_def split: prod.splits option.splits if_splits)
    have "chunk_table.adds E ?i d d3"
      using chunk_table.io_Copy_adds [OF copy] chunk_table.writer_Close_adds [OF close]
        chunk_table.adds_trans by auto
    with that [OF this] insert_entry_row_cases [OF row] R show ?thesis by simp
  qed
qed

lemma adds_keys: "chunk_table.adds E i d d2 \<Longrightarrow> keys_ok d \<Longrightarrow> keys_ok d2"
proof -
  assume a: "chunk_table.adds E i d d2" and k: "keys_ok d"
  have "distinct (map (\<lambda>r. (cr_id r, cr_chunk_index r)) (entries_data d2))"
    by (rule chunk_table.adds_invariant [OF a]) (use k in \<open>auto simp: keys_ok_def dest: exec_chunk_keys\<close>)
  moreover obtain x where "d2 = d\<lparr>entries_data := x\<rparr>" using chunk_table.adds_put [OF a] by blast
  ultimately show ?thesis using k by (simp add: keys_ok_def)
qed

lemma adds_frame:
  "chunk_table.adds E i d d2 \<Longrightarrow> entries d2 = entries d \<and> users d2 = users d \<and>
     settings_table d2 = settings_table d \<and> oidc_table d2 = oidc_table d \<and>
     guest_links d2 = guest_links d \<and> sessions d2 = sessions d \<and> downloads d2 = downloads d"
  by (drule chunk_table.adds_put) (metis db.select_convs db.surjective db.update_convs(2))

lemma InsertEntry_db_ok: "db_ok d \<Longrightarrow> db_ok (snd (InsertEntry E d src md))"
proof -
  assume ok: "db_ok d"
  obtain d2 where a: "chunk_table.adds E (EntryID_value (um_ID md)) d d2"
    and c: "snd (InsertEntry E d src md) = d2 \<or>
     (snd (InsertEntry E d src md) = d2\<lparr>entries := entries d2 @ [entry_row_of d2 md]\<rparr> \<and>
      EntryID_value (um_ID md) \<notin> er_id ` set (entries d2))"
    by (rule InsertEntry_cases)
  have "db_ok d2"
    using ok adds_keys [OF a] adds_frame [OF a]
    by (simp add: db_ok_def has_admin_def singletons_ok_def)
  with c show ?thesis
    by (auto simp: db_ok_def has_admin_def singletons_ok_def keys_ok_def)
qed

lemma shrinks_db_ok: "shrinks d d1 \<Longrightarrow> db_ok d \<Longrightarrow> db_ok d1"
  using shrinks_keys [of d d1] by (auto simp: db_ok_def shrinks_def has_admin_def singletons_ok_def)

lemma map_key_same: "(\<And>r. k (f r) = k r) \<Longrightarrow> map k (map f rs) = map k rs"
  by simp

lemma UpdateEntryMetadata_db_ok: "db_ok d \<Longrightarrow> db_ok (snd (UpdateEntryMetadata E d i md))"
proof -
  assume ok: "db_ok d"
  obtain r d1 where R: "UpdateEntryMetadata E d i md = (r, d1)" by (metis surj_pair)
  have "map er_id (map (\<lambda>r. if er_id r = EntryID_value i then updated_entry_row md r else r) (entries d)) =
      map er_id (entries d)"
    by (rule map_key_same) (simp add: updated_entry_row_def)
  with UpdateEntryMetadata_cases [OF R] ok show ?thesis
    unfolding R by (auto simp: db_ok_def has_admin_def singletons_ok_def keys_ok_def simp del: map_map)
qed

lemma guest_link_calls_db_ok:
  assumes ok: "db_ok d"
  shows "db_ok (snd (InsertGuestLink E d gl))" "db_ok (snd (DeleteGuestLink E d i))"
    "db_ok (snd (DisableGuestLink E d i))" "db_ok (snd (EnableGuestLink E d i))"
proof -
  show "db_ok (snd (InsertGuestLink E d gl))"
    using ok by (auto simp: InsertGuestLink_def Let_def db_ok_def has_admin_def singletons_ok_def keys_ok_def)
  have same: "map glr_id (map (\<lambda>r. if glr_id r = i then r\<lparr>glr_is_disabled := b\<rparr> else r) gls) = map glr_id gls" for b gls
    by (rule map_key_same) simp
  show "db_ok (snd (DisableGuestLink E d i))" "db_ok (snd (EnableGuestLink E d i))"
    using ok by (auto simp: DisableGuestLink_def EnableGuestLink_def set_disabled_def db_ok_def
        has_admin_def singletons_ok_def keys_ok_def same simp del: map_map)
  obtain r d1 where R: "DeleteGuestLink E d i = (r, d1)" by (metis surj_pair)
  show "db_ok (snd (DeleteGuestLink E d i))"
  proof (cases r)
    case (Inl e)
    with R DeleteGuestLink_atomic [of E d i e d1] ok show ?thesis by simp
  next
    case (Inr u)
    with R have d1: "d1 = d\<lparr>entries := map (\<lambda>r. if er_guest_link_id r = Some i
               then r\<lparr>er_guest_link_id := None\<rparr> else r) (entries d),
            guest_links := filter (\<lambda>r. glr_id r \<noteq> i) (guest_links d)\<rparr>"
      using DeleteGuestLink_ok [of E d i u d1] by simp
    show ?thesis
      unfolding R using ok map_clear_ref_id [of "Some i" "entries d"]
      by (simp add: d1 db_ok_def has_admin_def singletons_ok_def keys_ok_def distinct_map_filter_sub
          del: map_map)
  qed
qed

lemma owner_claim_keys:
  "map er_id (map (\<lambda>r. if er_owner_user_id r = None then r\<lparr>er_owner_user_id := Some a\<rparr> else r) es) = map er_id es"
  "map glr_id (map (\<lambda>r. if glr_owner_user_id r = None then r\<lparr>glr_owner_user_id := Some a\<rparr> else r) gs) = map glr_id gs"
  by (rule map_key_same, simp)+

lemma RecordUserLogin_db_ok: "db_ok d \<Longrightarrow> db_ok (snd (RecordUserLogin E d identity))"
proof -
  assume ok: "db_ok d"
  obtain r d1 where R: "RecordUserLogin E d identity = (r, d1)" by (metis surj_pair)
  have admin: "has_admin d1" using has_admin_login [OF _ R] ok by (simp add: db_ok_def)
  have rest: "keys_ok d1 \<and> singletons_ok d1"
  proof (cases r)
    case (Inl e)
    with R RecordUserLogin_atomic [of E d identity e d1] ok show ?thesis by (simp add: db_ok_def)
  next
    case (Inr u)
    with R have "RecordUserLogin E d identity = (Inr u, d1)" by simp
    from RecordUserLogin_users [OF this] show ?thesis
    proof (elim disjE exE conjE)
      fix i
      assume i: "insert_user E d identity = Inr (i, d1)"
      note ui = insert_user_ok [OF i]
      show ?thesis
      proof (cases "users d = []")
        case True
        from claimOwnerlessRows_ok [OF ui(4) [OF True]] ok show ?thesis
          by (simp add: db_ok_def keys_ok_def singletons_ok_def owner_claim_keys del: map_map)
      next
        case False
        from ui(5) [OF False] ui(1,3) next_user_id_fresh [of d] ok show ?thesis
          by (simp add: db_ok_def keys_ok_def singletons_ok_def)
      qed
    next
      fix x
      assume d1: "d1 = d\<lparr>users := map (\<lambda>y. if ur_id y = ur_id x then login_row E identity y else y) (users d)\<rparr>"
      have "map k (map (\<lambda>y. if ur_id y = ur_id x then login_row E identity y else y) (users d)) = map k (users d)"
        if "\<And>y. k (login_row E identity y) = k y" for k :: "user_row \<Rightarrow> 'x"
        by (rule map_key_same) (simp add: that)
      from this [of ur_id] this [of ur_oidc_subject] ok show ?thesis
        by (simp add: d1 db_ok_def keys_ok_def singletons_ok_def login_row_def del: map_map)
    qed
  qed
  show ?thesis unfolding R using admin rest by (simp add: db_ok_def)
qed

lemma set_user_keys:
  assumes "\<And>r. ur_id (f r) = ur_id r" and "\<And>r. ur_oidc_subject (f r) = ur_oidc_subject r"
  shows "keys_ok d \<Longrightarrow> keys_ok (d\<lparr>users := map f (users d)\<rparr>)"
  using map_key_same [of ur_id f "users d"] map_key_same [of ur_oidc_subject f "users d"] assms
  by (simp add: keys_ok_def del: map_map)

lemma user_calls_db_ok:
  assumes ok: "db_ok d"
  shows "db_ok (snd (GrantAdmin E d i))" "db_ok (snd (RevokeAdmin E d i))"
    "db_ok (snd (UpdateUserLanguage E d i lang))"
proof -
  have keys: "keys_ok (set_admin k b d)" for k b
    unfolding set_admin_def by (rule set_user_keys) (use ok in \<open>simp_all add: db_ok_def\<close>)
  have sing: "singletons_ok (set_admin k b d)" for k b
    using ok by (simp add: set_admin_def db_ok_def singletons_ok_def)
  obtain r d1 where R: "GrantAdmin E d i = (r, d1)" by (metis surj_pair)
  then have "d1 = d \<or> d1 = set_admin (UserID_Int64 i) True d" by (auto simp: GrantAdmin_def split: if_splits)
  then show "db_ok (snd (GrantAdmin E d i))"
    using has_admin_grant [OF _ R] ok keys sing unfolding R by (auto simp: db_ok_def)
  obtain r2 d2 where R2: "RevokeAdmin E d i = (r2, d2)" by (metis surj_pair)
  then have "d2 = d \<or> d2 = set_admin (UserID_Int64 i) False d"
    by (auto simp: RevokeAdmin_def split: if_splits option.splits)
  moreover have "has_admin d2"
    by (rule has_admin_revoke [OF _ _ R2]) (use ok in \<open>simp_all add: db_ok_def keys_ok_def\<close>)
  ultimately show "db_ok (snd (RevokeAdmin E d i))"
    using ok keys sing unfolding R2 by (auto simp: db_ok_def)
  have "keys_ok (d\<lparr>users := map (\<lambda>r. if ur_id r = UserID_Int64 i
      then r\<lparr>ur_preferred_language := Some (Language_value lang)\<rparr> else r) (users d)\<rparr>)"
    by (rule set_user_keys) (use ok in \<open>simp_all add: db_ok_def\<close>)
  moreover have "list_ex ur_is_admin (map (\<lambda>r. if ur_id r = UserID_Int64 i
      then r\<lparr>ur_preferred_language := Some (Language_value lang)\<rparr> else r) us) = list_ex ur_is_admin us" for us
    by (induction us) auto
  ultimately show "db_ok (snd (UpdateUserLanguage E d i lang))"
    using ok by (auto simp: UpdateUserLanguage_def db_ok_def has_admin_def singletons_ok_def)
qed

lemma other_calls_db_ok:
  assumes ok: "db_ok d"
  shows "db_ok (snd (InsertEntryDownload E d e r))" "db_ok (snd (InsertSession E d s))"
    "db_ok (snd (UpdateSettings E d st))" "db_ok (snd (UpdateOIDCSettings E d os))"
    "db_ok (snd (ClearOIDCSettings E d))" "db_ok (snd (GenerateSetupToken E d))"
  using ok
  by (auto simp: InsertEntryDownload_def InsertSession_def UpdateSettings_def UpdateOIDCSettings_def
      ClearOIDCSettings_def GenerateSetupToken_def Let_def session_row_of_def
      db_ok_def has_admin_def singletons_ok_def keys_ok_def split: option.splits)

lemma run_call_db_ok: "db_ok d \<Longrightarrow> db_ok (run_call E c d)"
  by (cases c)
    (simp_all add: run_call_def InsertEntry_db_ok UpdateEntryMetadata_db_ok guest_link_calls_db_ok
      RecordUserLogin_db_ok user_calls_db_ok other_calls_db_ok
      shrinks_db_ok [OF DeleteEntry_shrinks] shrinks_db_ok [OF Purge_shrinks]
      shrinks_db_ok [OF stage_shrinks(5)])

lemma initial_db_ok: "db_ok initial_db"
  by (simp add: db_ok_def keys_ok_def has_admin_def singletons_ok_def initial_db_def)

lemma reachable_db_ok: "reachable_db d \<Longrightarrow> db_ok d"
  by (induction rule: reachable_db.induct) (simp_all add: initial_db_ok run_call_db_ok)

end
