(* ===== verification/FileSpec.thy ===== *)
theory FileSpec
  imports Store
begin

text \<open>
  What the store promises about files, without tables: a finite map from IDs to contents. A file
  is put whole under an ID that is free, keeps its content as long as it exists, and goes away
  whole, when it is deleted or when a purge finds it expired. Every operation of the store refines
  this specification, whatever it does to the tables and wherever it fails.
\<close>

section \<open>Specification\<close>

type_synonym file_map = "string \<rightharpoonup> string"

datatype file_op = Put string string | Drop string | Sweep "string set" | Keep

text \<open>
  The first argument tells whether the operation reports success. One that fails has changed no
  file, but for a purge that fails after its first stage: then it has removed what was expired.
  An empty file is not kept as one.
\<close>

inductive file_step :: "bool \<Rightarrow> file_op \<Rightarrow> file_map \<Rightarrow> file_map \<Rightarrow> bool" where
  put: "m i = None \<Longrightarrow> file_step True (Put i s) m (if s = [] then m else m(i \<mapsto> s))"
| drop: "file_step True (Drop i) m (m(i := None))"
| sweep: "file_step ok (Sweep A) m (m |` (- A))"
| keep: "file_step ok Keep m m"
| failed: "file_step False op m m"

inductive_cases file_stepE: "file_step ok op m m1"

lemma file_step_content: "file_step ok op m m1 \<Longrightarrow> m i = Some s \<Longrightarrow> m1 i = Some t \<Longrightarrow> t = s"
  by (auto simp: restrict_map_def elim!: file_stepE split: if_splits)

section \<open>Abstraction\<close>

text \<open>The chunks of an entry in the order they were written; an entry without chunks is no file.\<close>

definition chunk_text :: "db \<Rightarrow> string \<Rightarrow> string" where
  "chunk_text d i = concat (map cr_chunk (filter (\<lambda>r. cr_id r = i) (entries_data d)))"

definition files :: "db \<Rightarrow> file_map" where
  "files d i = (if i \<in> er_id ` set (entries d) \<and> has_chunks d i then Some (chunk_text d i) else None)"

definition entry_ids :: "db \<Rightarrow> string set" where "entry_ids d = er_id ` set (entries d)"

text \<open>Entries may go, but only those named, and an entry that stays keeps all its chunks.\<close>

definition sheds :: "string set \<Rightarrow> db \<Rightarrow> db \<Rightarrow> bool" where
  "sheds A d d1 \<longleftrightarrow> entry_ids d1 \<subseteq> entry_ids d \<and> entry_ids d - A \<subseteq> entry_ids d1 \<and>
     (\<exists>Q. entries_data d1 = filter Q (entries_data d) \<and>
        (\<forall>r \<in> set (entries_data d). cr_id r \<in> entry_ids d1 \<longrightarrow> Q r))"

lemma sheds_same: "entry_ids d1 = entry_ids d \<Longrightarrow> entries_data d1 = entries_data d \<Longrightarrow> sheds A d d1"
  unfolding sheds_def by (intro conjI exI [of _ "\<lambda>_. True"]) simp_all

lemma sheds_trans:
  assumes "sheds A d d1" and "sheds B d1 d2"
  shows "sheds (A \<union> B) d d2"
proof -
  obtain P where P: "entries_data d1 = filter P (entries_data d)"
      "\<And>r. r \<in> set (entries_data d) \<Longrightarrow> cr_id r \<in> entry_ids d1 \<Longrightarrow> P r"
    using assms(1) by (auto simp: sheds_def)
  obtain Q where Q: "entries_data d2 = filter Q (entries_data d1)"
      "\<And>r. r \<in> set (entries_data d1) \<Longrightarrow> cr_id r \<in> entry_ids d2 \<Longrightarrow> Q r"
    using assms(2) by (auto simp: sheds_def)
  have "entry_ids d2 \<subseteq> entry_ids d1" "entry_ids d1 \<subseteq> entry_ids d" "entry_ids d - (A \<union> B) \<subseteq> entry_ids d2"
    using assms by (auto simp: sheds_def)
  moreover have "entries_data d2 = filter (\<lambda>r. P r \<and> Q r) (entries_data d)"
    unfolding Q(1) P(1) filter_filter by (rule filter_cong) auto
  ultimately show ?thesis
    unfolding sheds_def using P Q by (intro conjI exI [of _ "\<lambda>r. P r \<and> Q r"]) auto
qed

lemma files_sheds:
  assumes "sheds A d d1"
  shows "files d1 = files d |` entry_ids d1"
proof -
  obtain Q where Q: "entries_data d1 = filter Q (entries_data d)"
      "\<And>r. r \<in> set (entries_data d) \<Longrightarrow> cr_id r \<in> entry_ids d1 \<Longrightarrow> Q r"
    and ids: "entry_ids d1 \<subseteq> entry_ids d"
    using assms by (auto simp: sheds_def)
  have same: "filter (\<lambda>r. cr_id r = i) (entries_data d1) = filter (\<lambda>r. cr_id r = i) (entries_data d)"
    if "i \<in> entry_ids d1" for i
    unfolding Q(1) filter_filter using that Q(2) by (intro filter_cong) auto
  then have chunks: "has_chunks d1 i = has_chunks d i" if "i \<in> entry_ids d1" for i
    using that filter_empty_conv [of "\<lambda>r. cr_id r = i" "entries_data d1"]
      filter_empty_conv [of "\<lambda>r. cr_id r = i" "entries_data d"]
    by (auto simp: has_chunks_def list_ex_iff)
  show ?thesis
    using ids same chunks by (intro ext) (auto simp: files_def chunk_text_def restrict_map_def entry_ids_def)
qed

lemma files_entry_ids: "files d |` entry_ids d = files d"
  by (intro ext) (simp add: files_def restrict_map_def entry_ids_def)

lemma files_kept: "sheds {} d d1 \<Longrightarrow> files d1 = files d"
proof -
  assume a: "sheds {} d d1"
  then have "entry_ids d1 = entry_ids d" by (simp add: sheds_def subset_antisym)
  with files_sheds [OF a] files_entry_ids [of d] show ?thesis by simp
qed

lemma sheds_keep: "sheds {} d d1 \<Longrightarrow> file_step ok Keep (files d) (files d1)"
  by (simp add: files_kept file_step.keep)

lemma files_swept:
  assumes "sheds A d d1" and "entry_ids d1 \<subseteq> - A"
  shows "files d1 = files d |` (- A)"
  unfolding files_sheds [OF assms(1)] using assms
  by (intro ext) (auto simp: restrict_map_def sheds_def files_def entry_ids_def)

text \<open>Whether an operation reports success.\<close>

definition succeeded :: "('e + 'a) \<times> 's \<Rightarrow> bool" where
  "succeeded r = (case fst r of Inl _ \<Rightarrow> False | Inr _ \<Rightarrow> True)"

lemma succeeded_simps [simp]: "\<not> succeeded (Inl e, d)" "succeeded (Inr u, d)"
  by (simp_all add: succeeded_def)

section \<open>The operations\<close>

text \<open>Chunks and an entry under one ID leave the files of the other IDs alone.\<close>

lemma files_other_id:
  assumes "entries_data d1 = entries_data d @ rs" and "\<forall>r \<in> set rs. cr_id r = i" and "j \<noteq> i"
    and "entry_ids d1 - {i} = entry_ids d - {i}"
  shows "files d1 j = files d j"
proof -
  have "filter (\<lambda>r. cr_id r = j) rs = []" using assms(2,3) by (auto simp: filter_empty_conv)
  moreover have "j \<in> entry_ids d1 \<longleftrightarrow> j \<in> entry_ids d" using assms(3,4) by blast
  moreover have "list_ex (\<lambda>r. cr_id r = j) rs = False" using assms(2,3) by (auto simp: list_ex_iff)
  ultimately show ?thesis by (simp add: files_def chunk_text_def has_chunks_def assms(1) entry_ids_def)
qed

text \<open>The chunks of a content, where there were none, make a file of that content.\<close>

lemma files_new_id:
  assumes "0 < L" and "\<forall>r \<in> set (entries_data d). cr_id r \<noteq> i" and "i \<in> entry_ids d1"
    and "entries_data d1 = entries_data d @ file_rows i L s"
  shows "files d1 i = (if s = [] then None else Some s)"
proof -
  have ids: "\<forall>r \<in> set (file_rows i L s). cr_id r = i" using file_rows_id by blast
  have old: "filter (\<lambda>r. cr_id r = i) (entries_data d) = []" using assms(2) by (simp add: filter_empty_conv)
  have all: "filter (\<lambda>r. cr_id r = i) (file_rows i L s) = file_rows i L s" using ids by (simp add: filter_id_conv)
  have whole: "chunk_text d1 i = s"
    using concat_split_chunks [OF assms(1), of s] old all
    by (simp add: chunk_text_def assms(4) file_rows_chunks)
  show ?thesis
  proof (cases "s = []")
    case True
    then have "file_rows i L s = []" by (simp only: file_rows_def split_chunks_Nil number_rows_def) simp
    with True old show ?thesis
      by (auto simp: files_def has_chunks_def list_ex_iff assms(4) filter_empty_conv)
  next
    case False
    then have "file_rows i L s \<noteq> []" using whole old by (auto simp: chunk_text_def assms(4))
    then have "has_chunks d1 i" using ids by (cases "file_rows i L s") (auto simp: has_chunks_def assms(4))
    with False whole assms(3) show ?thesis by (simp add: files_def entry_ids_def)
  qed
qed

lemma InsertEntry_files:
  assumes "0 < st_chunkSize E" and "EntryID_value (um_ID md) \<notin> entry_ids d"
    and "\<forall>r \<in> set (entries_data d). cr_id r \<noteq> EntryID_value (um_ID md)"
  shows "file_step (succeeded (InsertEntry E d src md)) (Put (EntryID_value (um_ID md)) (concat (src_pieces src)))
    (files d) (files (snd (InsertEntry E d src md)))"
proof -
  let ?i = "EntryID_value (um_ID md)" and ?s = "concat (src_pieces src)"
  obtain res d1 where R: "InsertEntry E d src md = (res, d1)" by (metis surj_pair)
  have none: "files d ?i = None" using assms(2) by (simp add: files_def entry_ids_def)
  show ?thesis
  proof (cases res)
    case (Inl e)
    then obtain rs where rs: "d1 = d\<lparr>entries_data := entries_data d @ rs\<rparr>" "\<forall>r \<in> set rs. cr_id r = ?i"
      using InsertEntry_err R by blast
    have "files d1 ?i = None" using assms(2) by (simp add: files_def rs(1) entry_ids_def)
    moreover have "files d1 j = files d j" if "j \<noteq> ?i" for j
      using files_other_id [OF _ rs(2) that] by (simp add: rs(1) entry_ids_def)
    ultimately have "files d1 = files d" using none by (intro ext) metis
    then show ?thesis using R Inl by (simp add: file_step.failed)
  next
    case (Inr u)
    have d1: "d1 = d\<lparr>entries_data := entries_data d @ file_rows ?i (st_chunkSize E) ?s,
        entries := entries d @ [entry_row_of d md]\<rparr>"
      using InsertEntry_ok(2) R Inr assms(1) by blast
    have "files d1 ?i = (if ?s = [] then None else Some ?s)"
      by (rule files_new_id [OF assms(1,3)]) (simp_all add: d1 entry_ids_def)
    moreover have "files d1 j = files d j" if "j \<noteq> ?i" for j
      using files_other_id [of d1 d "file_rows ?i (st_chunkSize E) ?s" ?i j] file_rows_id that
      by (auto simp: d1 entry_ids_def)
    ultimately have "files d1 = (if ?s = [] then files d else (files d)(?i \<mapsto> ?s))"
      using none by (intro ext) auto
    with file_step.put [of "files d" ?i ?s] none R Inr show ?thesis by simp
  qed
qed

lemma update_ids: "(\<And>r. er_id (f r) = er_id r) \<Longrightarrow> entry_ids (d\<lparr>entries := map f (entries d)\<rparr>) = entry_ids d"
  by (simp add: entry_ids_def image_image)

lemma UpdateEntryMetadata_sheds: "sheds {} d (snd (UpdateEntryMetadata E d i md))"
proof -
  obtain res d1 where R: "UpdateEntryMetadata E d i md = (res, d1)" by (metis surj_pair)
  from UpdateEntryMetadata_cases [OF R] show ?thesis
    unfolding R by (auto intro!: sheds_same simp: update_ids updated_entry_row_def)
qed

lemma DeleteEntry_files:
  "file_step (succeeded (DeleteEntry E d i)) (Drop (EntryID_value i)) (files d) (files (snd (DeleteEntry E d i)))"
proof (cases "DeleteEntry E d i")
  case (Pair res d1)
  show ?thesis
  proof (cases res)
    case (Inl e)
    then show ?thesis using Pair DeleteEntry_atomic [of E d i e d1] by (simp add: file_step.failed)
  next
    case (Inr u)
    with Pair DeleteEntry_ok [of E d i u d1]
    have "sheds {EntryID_value i} d d1" "entry_ids d1 \<subseteq> - {EntryID_value i}"
      by (auto simp: sheds_def entry_ids_def intro!: exI [of _ "\<lambda>r. cr_id r \<noteq> EntryID_value i"])
    from files_swept [OF this] have "files d1 = (files d)(EntryID_value i := None)"
      by (simp add: restrict_map_def fun_eq_iff)
    with file_step.drop [of "EntryID_value i" "files d"] Pair Inr show ?thesis by simp
  qed
qed

lemma stage_sheds:
  "sheds {} d (snd (deleteOrphanedRows E d))" "sheds {} d (snd (deleteExpiredDownloadHistory E d))"
  "sheds {} d (snd (deleteExpiredSessions E d))" "sheds {} d (snd (reclaimFreePages E d))"
proof -
  show "sheds {} d (snd (deleteOrphanedRows E d))"
    unfolding sheds_def
    by (intro conjI exI [of _ "\<lambda>r. sq_fault E OpDeleteOrphanedRows 0 \<or> cr_id r \<in> set (map er_id (entries d))"])
      (auto simp: deleteOrphanedRows_def entry_ids_def)
qed (auto simp: deleteExpiredDownloadHistory_def deleteExpiredSessions_def reclaimFreePages_def entry_ids_def
    intro!: sheds_same split: sum.splits option.splits)

lemma deleteExpiredEntries_files:
  assumes "keys_ok d" and "deleteExpiredEntries E d = (Inr u, d1)"
  shows "files d1 = files d |` (- set (expired_ids E d))"
proof -
  note d1 = deleteExpiredEntries_ok [OF assms(2)]
  have gone: "entry_ids d1 \<subseteq> - set (expired_ids E d)"
    using assms(1) by (auto simp: d1 entry_ids_def expired_ids_def keys_ok_def distinct_map dest: inj_onD)
  moreover have "sheds (set (expired_ids E d)) d d1"
    unfolding sheds_def using gone
    by (intro conjI exI [of _ "\<lambda>r. cr_id r \<notin> set (expired_ids E d)"])
      (auto simp: d1 entry_ids_def expired_ids_def)
  ultimately show ?thesis by (rule files_swept [rotated])
qed

lemma then_do_sheds:
  assumes "sheds A d (snd r)" and "\<And>d1. sheds {} d1 (snd (f d1))"
  shows "sheds A d (snd (then_do r f))"
  using assms(1) sheds_trans [OF assms(1) assms(2)]
  by (cases r; cases "fst r") (auto simp: then_do_def split: sum.splits)

lemma Purge_files:
  assumes "keys_ok d"
  shows "file_step (succeeded (Purge E d)) (Sweep (set (expired_ids E d))) (files d) (files (snd (Purge E d)))"
proof (cases "deleteExpiredEntries E d")
  case (Pair res d1)
  show ?thesis
  proof (cases res)
    case (Inl e)
    then show ?thesis
      using Pair deleteExpiredEntries_atomic [of E d e d1] by (simp add: Purge_def file_step.failed)
  next
    case (Inr u)
    have "sheds {} d1 (snd (Purge E d))"
      unfolding Purge_def Pair by (intro then_do_sheds stage_sheds) (simp add: sheds_same)
    then have "files (snd (Purge E d)) = files d |` (- set (expired_ids E d))"
      using deleteExpiredEntries_files [OF assms] Pair Inr by (simp add: files_kept)
    then show ?thesis by (simp add: file_step.sweep)
  qed
qed

lemma entry_ids_map: "entry_ids d = set (map er_id (entries d))"
  by (simp add: entry_ids_def)

lemma guest_link_calls_shed:
  "sheds {} d (snd (InsertGuestLink E d gl))" "sheds {} d (snd (DeleteGuestLink E d i))"
  "sheds {} d (snd (DisableGuestLink E d i))" "sheds {} d (snd (EnableGuestLink E d i))"
proof -
  show "sheds {} d (snd (DeleteGuestLink E d i))"
  proof (cases "DeleteGuestLink E d i")
    case (Pair res d1)
    show ?thesis
    proof (cases res)
      case (Inl e)
      then show ?thesis using Pair DeleteGuestLink_atomic [of E d i e d1] by (simp add: sheds_same)
    next
      case (Inr u)
      with Pair DeleteGuestLink_ok [of E d i u d1] map_clear_ref_id [of "Some i" "entries d"]
      show ?thesis by (auto intro!: sheds_same simp: entry_ids_map simp del: map_map set_map)
    qed
  qed
qed (auto intro!: sheds_same simp: entry_ids_def InsertGuestLink_def DisableGuestLink_def EnableGuestLink_def
    set_disabled_def Let_def)

lemma RecordUserLogin_sheds: "sheds {} d (snd (RecordUserLogin E d identity))"
proof (cases "RecordUserLogin E d identity")
  case (Pair res d1)
  show ?thesis
  proof (cases res)
    case (Inl e)
    then show ?thesis using Pair RecordUserLogin_atomic [of E d identity e d1] by (simp add: sheds_same)
  next
    case (Inr u)
    with Pair have R: "RecordUserLogin E d identity = (Inr u, d1)" by simp
    from RecordUserLogin_users [OF this]
    have "map er_id (entries d1) = map er_id (entries d) \<and> entries_data d1 = entries_data d"
    proof (elim disjE exE conjE)
      fix i
      assume "insert_user E d identity = Inr (i, d1)"
      note ui = insert_user_ok [OF this]
      show ?thesis
      proof (cases "users d = []")
        case True
        from claimOwnerlessRows_ok [OF ui(4) [OF True]] show ?thesis
          by (simp add: owner_claim_keys del: map_map)
      next
        case False
        from ui(5) [OF False] show ?thesis by simp
      qed
    qed simp
    then show ?thesis using Pair by (simp add: sheds_same entry_ids_map del: set_map)
  qed
qed

lemma other_calls_shed:
  "sheds {} d (snd (GrantAdmin E d u))" "sheds {} d (snd (RevokeAdmin E d u))"
  "sheds {} d (snd (UpdateUserLanguage E d u lang))"
  "sheds {} d (snd (InsertEntryDownload E d e r))" "sheds {} d (snd (InsertSession E d s))"
  "sheds {} d (snd (DeleteSession E d h))"
  "sheds {} d (snd (UpdateSettings E d st))" "sheds {} d (snd (UpdateOIDCSettings E d os))"
  "sheds {} d (snd (ClearOIDCSettings E d))" "sheds {} d (snd (GenerateSetupToken E d))"
  by (auto intro!: sheds_same simp: entry_ids_def GrantAdmin_def RevokeAdmin_def UpdateUserLanguage_def
      set_admin_def InsertEntryDownload_def InsertSession_def DeleteSession_def UpdateSettings_def
      UpdateOIDCSettings_def ClearOIDCSettings_def GenerateSetupToken_def Let_def split: option.splits)

section \<open>Refinement\<close>

text \<open>
  \<open>picoshare.NewEntryID\<close> draws an ID no file has had: what is inserted under it is not
  mixed with the chunks of another file.
\<close>

fun fresh_call :: "store_call \<Rightarrow> db \<Rightarrow> bool" where
  "fresh_call (CallInsertEntry src md) d \<longleftrightarrow>
     EntryID_value (um_ID md) \<notin> er_id ` set (entries d) \<and>
     EntryID_value (um_ID md) \<notin> cr_id ` set (entries_data d)"
| "fresh_call _ d \<longleftrightarrow> True"

fun file_op_of :: "env \<Rightarrow> db \<Rightarrow> store_call \<Rightarrow> file_op" where
  "file_op_of E d (CallInsertEntry src md) = Put (EntryID_value (um_ID md)) (concat (src_pieces src))"
| "file_op_of E d (CallDeleteEntry i) = Drop (EntryID_value i)"
| "file_op_of E d CallPurge = Sweep (set (expired_ids E d))"
| "file_op_of E d _ = Keep"

fun call_succeeded :: "env \<Rightarrow> db \<Rightarrow> store_call \<Rightarrow> bool" where
  "call_succeeded E d (CallInsertEntry src md) = succeeded (InsertEntry E d src md)"
| "call_succeeded E d (CallDeleteEntry i) = succeeded (DeleteEntry E d i)"
| "call_succeeded E d CallPurge = succeeded (Purge E d)"
| "call_succeeded E d _ = True"

lemma run_call_files:
  assumes "keys_ok d" and "fresh_call c d" and "0 < st_chunkSize E"
  shows "file_step (call_succeeded E d c) (file_op_of E d c) (files d) (files (run_call E c d))"
proof (cases c)
  case (CallInsertEntry src md)
  then show ?thesis
    using assms InsertEntry_files [of E md d src] by (force simp: run_call_def entry_ids_def)
qed (use assms in \<open>simp_all add: run_call_def DeleteEntry_files Purge_files sheds_keep
    UpdateEntryMetadata_sheds guest_link_calls_shed RecordUserLogin_sheds other_calls_shed\<close>)

end
