(* ===== verification/StoreRefs.thy ===== *)
theory StoreRefs
  imports FileSpec
begin

text \<open>
  References between tables. The store switches foreign keys on (\<open>PRAGMA foreign_keys = 1\<close>), and
  SQLite then refuses rows that refer to none; that deletions leave no reference dangling, so that
  SQLite has no reason to refuse them, is up to the order of the program's statements.
\<close>

definition owner_ok :: "db \<Rightarrow> int option \<Rightarrow> bool" where
  "owner_ok d owner = check_null (\<lambda>u. u \<in> ur_id ` set (users d)) owner"

definition refs_ok :: "db \<Rightarrow> bool" where
  "refs_ok d \<longleftrightarrow>
     (\<forall>e \<in> set (entries d). owner_ok d (er_owner_user_id e)) \<and>
     (\<forall>g \<in> set (guest_links d). owner_ok d (glr_owner_user_id g)) \<and>
     (\<forall>s \<in> set (sessions d). sr_user_id s \<in> ur_id ` set (users d)) \<and>
     (\<forall>x \<in> set (downloads d). dl_entry_id x \<in> er_id ` set (entries d))"

lemma refs_initial: "refs_ok initial_db"
  by (simp add: refs_ok_def initial_db_def)

text \<open>Users are never deleted, so it is enough that nothing else appears without its owner.\<close>

lemma refs_okI:
  assumes "refs_ok d" and "ur_id ` set (users d) \<subseteq> ur_id ` set (users d1)"
    and "\<And>e. e \<in> set (entries d1) \<Longrightarrow> owner_ok d1 (er_owner_user_id e) \<or> er_owner_user_id e \<in> er_owner_user_id ` set (entries d)"
    and "\<And>g. g \<in> set (guest_links d1) \<Longrightarrow> owner_ok d1 (glr_owner_user_id g) \<or> glr_owner_user_id g \<in> glr_owner_user_id ` set (guest_links d)"
    and "\<And>s. s \<in> set (sessions d1) \<Longrightarrow> sr_user_id s \<in> ur_id ` set (users d1) \<or> s \<in> set (sessions d)"
    and "\<And>x. x \<in> set (downloads d1) \<Longrightarrow> dl_entry_id x \<in> er_id ` set (entries d1)"
  shows "refs_ok d1"
proof -
  have up: "owner_ok d1 u" if "owner_ok d u" for u
    using that assms(2) by (cases u) (auto simp: owner_ok_def)
  have "owner_ok d1 (er_owner_user_id e)" if "e \<in> set (entries d1)" for e
    using assms(3) [OF that] assms(1) up by (auto simp: refs_ok_def)
  moreover have "owner_ok d1 (glr_owner_user_id g)" if "g \<in> set (guest_links d1)" for g
    using assms(4) [OF that] assms(1) up by (auto simp: refs_ok_def)
  moreover have "sr_user_id s \<in> ur_id ` set (users d1)" if "s \<in> set (sessions d1)" for s
    using assms(5) [OF that] assms(1,2) unfolding refs_ok_def by blast
  ultimately show ?thesis using assms(6) unfolding refs_ok_def by blast
qed

lemma refs_same:
  "refs_ok d \<Longrightarrow> users d1 = users d \<Longrightarrow> entries d1 = entries d \<Longrightarrow> guest_links d1 = guest_links d \<Longrightarrow>
     sessions d1 = sessions d \<Longrightarrow> downloads d1 = downloads d \<Longrightarrow> refs_ok d1"
  by (simp add: refs_ok_def owner_ok_def)

lemma keys_map: "(\<And>x. k (f x) = k x) \<Longrightarrow> k ` set (map f xs) = k ` set xs"
  by (simp add: image_image)

section \<open>Insertions\<close>

lemma InsertEntry_refs:
  assumes ok: "refs_ok d" and fk: "sq_fk E" and L: "0 < st_chunkSize E"
  shows "refs_ok (snd (InsertEntry E d src md))"
proof (cases "InsertEntry E d src md")
  case (Pair res d1)
  show ?thesis
  proof (cases res)
    case (Inl e)
    then obtain rs where "d1 = d\<lparr>entries_data := entries_data d @ rs\<rparr>" using InsertEntry_err Pair by blast
    then show ?thesis using ok Pair by (simp add: refs_same)
  next
    case (Inr u)
    note ins = InsertEntry_ok [OF Pair [unfolded Inr] L]
    have "owner_ok d (er_owner_user_id (entry_row_of d md))" using ins(4) fk by (simp add: entry_ok_def owner_ok_def)
    with ok show ?thesis by (auto simp: Pair ins(2) refs_ok_def owner_ok_def)
  qed
qed

lemma other_insertions_refs:
  assumes ok: "refs_ok d" and fk: "sq_fk E"
  shows "refs_ok (snd (InsertGuestLink E d gl))" "refs_ok (snd (InsertEntryDownload E d i r))"
    "refs_ok (snd (InsertSession E d s))"
  using assms
  by (auto simp: InsertGuestLink_def InsertEntryDownload_def InsertSession_def Let_def refs_ok_def owner_ok_def
      guest_link_ok_def download_ok_def session_ok_def)

section \<open>Changes\<close>

lemma UpdateEntryMetadata_refs: "refs_ok d \<Longrightarrow> refs_ok (snd (UpdateEntryMetadata E d i md))"
proof -
  assume ok: "refs_ok d"
  obtain res d1 where R: "UpdateEntryMetadata E d i md = (res, d1)" by (metis surj_pair)
  let ?f = "\<lambda>r. if er_id r = EntryID_value i then updated_entry_row md r else r"
  have owner: "er_owner_user_id (?f x) = er_owner_user_id x" and ids: "er_id (?f x) = er_id x" for x
    by (simp_all add: updated_entry_row_def)
  have "refs_ok (d\<lparr>entries := map ?f (entries d)\<rparr>)"
    using ok keys_map [of er_id ?f "entries d", OF ids] owner
    by (auto simp: refs_ok_def owner_ok_def simp del: set_map) (auto simp: updated_entry_row_def)
  with UpdateEntryMetadata_cases [OF R] ok show ?thesis by (auto simp: R)
qed

lemma user_changes_refs:
  assumes "refs_ok d"
  shows "refs_ok (snd (GrantAdmin E d i))" "refs_ok (snd (RevokeAdmin E d i))"
    "refs_ok (snd (UpdateUserLanguage E d i lang))"
proof -
  have "refs_ok (d\<lparr>users := map f (users d)\<rparr>)" if "\<And>x. ur_id (f x) = ur_id x" for f
    using assms keys_map [of ur_id f "users d", OF that] by (simp add: refs_ok_def owner_ok_def del: set_map)
  then show "refs_ok (snd (GrantAdmin E d i))" "refs_ok (snd (RevokeAdmin E d i))"
    "refs_ok (snd (UpdateUserLanguage E d i lang))"
    using assms by (simp_all add: GrantAdmin_def RevokeAdmin_def UpdateUserLanguage_def set_admin_def split: option.splits)
qed

lemma guest_link_changes_refs:
  assumes ok: "refs_ok d"
  shows "refs_ok (snd (DeleteGuestLink E d i))" "refs_ok (snd (DisableGuestLink E d i))"
    "refs_ok (snd (EnableGuestLink E d i))"
proof -
  show "refs_ok (snd (DisableGuestLink E d i))" "refs_ok (snd (EnableGuestLink E d i))"
    using ok by (auto simp: DisableGuestLink_def EnableGuestLink_def set_disabled_def refs_ok_def owner_ok_def)
  obtain res d1 where R: "DeleteGuestLink E d i = (res, d1)" by (metis surj_pair)
  show "refs_ok (snd (DeleteGuestLink E d i))"
  proof (cases res)
    case (Inl e)
    with R DeleteGuestLink_atomic [of E d i e d1] ok show ?thesis by simp
  next
    case (Inr u)
    let ?f = "\<lambda>r. if er_guest_link_id r = Some i then r\<lparr>er_guest_link_id := None\<rparr> else r"
    have d1: "d1 = d\<lparr>entries := map ?f (entries d), guest_links := filter (\<lambda>r. glr_id r \<noteq> i) (guest_links d)\<rparr>"
      using DeleteGuestLink_ok [OF R [unfolded Inr]] .
    have "er_id ` set (entries d1) = er_id ` set (entries d)"
      using keys_map [of er_id ?f "entries d"] by (simp add: d1 del: set_map)
    then show ?thesis using ok by (auto simp: R refs_ok_def owner_ok_def d1)
  qed
qed

lemma other_changes_refs:
  assumes "refs_ok d"
  shows "refs_ok (snd (UpdateSettings E d st))" "refs_ok (snd (UpdateOIDCSettings E d os))"
    "refs_ok (snd (ClearOIDCSettings E d))" "refs_ok (snd (GenerateSetupToken E d))"
  using assms
  by (auto simp: UpdateSettings_def UpdateOIDCSettings_def ClearOIDCSettings_def GenerateSetupToken_def Let_def
      intro: refs_same split: option.splits)

lemma RecordUserLogin_refs: "refs_ok d \<Longrightarrow> refs_ok (snd (RecordUserLogin E d identity))"
proof -
  assume ok: "refs_ok d"
  obtain res d1 where R: "RecordUserLogin E d identity = (res, d1)" by (metis surj_pair)
  show ?thesis
  proof (cases res)
    case (Inl e)
    with R RecordUserLogin_atomic [of E d identity e d1] ok show ?thesis by simp
  next
    case (Inr u)
    from RecordUserLogin_users [OF R [unfolded Inr]] show ?thesis
    proof (elim disjE exE conjE)
      fix i
      assume i: "insert_user E d identity = Inr (i, d1)"
      note ui = insert_user_ok [OF i]
      show ?thesis
      proof (cases "users d = []")
        case True
        note c = claimOwnerlessRows_ok [OF ui(4) [OF True]]
        show ?thesis
        proof (unfold R snd_conv, rule refs_okI [OF ok])
          show "ur_id ` set (users d) \<subseteq> ur_id ` set (users d1)" by (simp add: True)
          fix e assume "e \<in> set (entries d1)"
          then show "owner_ok d1 (er_owner_user_id e) \<or> er_owner_user_id e \<in> er_owner_user_id ` set (entries d)"
            by (auto simp: c owner_ok_def)
        next
          fix g assume "g \<in> set (guest_links d1)"
          then show "owner_ok d1 (glr_owner_user_id g) \<or> glr_owner_user_id g \<in> glr_owner_user_id ` set (guest_links d)"
            by (auto simp: c owner_ok_def)
        next
          fix x assume "x \<in> set (downloads d1)"
          then have "dl_entry_id x \<in> er_id ` set (entries d)" using ok by (simp add: c refs_ok_def)
          moreover have "er_id ` set (entries d1) = er_id ` set (entries d)"
            using keys_map [of er_id "\<lambda>r. if er_owner_user_id r = None then r\<lparr>er_owner_user_id := Some i\<rparr> else r" "entries d"]
            by (simp add: c del: set_map)
          ultimately show "dl_entry_id x \<in> er_id ` set (entries d1)" by simp
        qed (simp add: c)
      next
        case False
        then show ?thesis using ui(5) ok unfolding R snd_conv by (intro refs_okI [OF ok]) (auto simp: refs_ok_def)
      qed
    next
      fix x
      assume d1: "d1 = d\<lparr>users := map (\<lambda>y. if ur_id y = ur_id x then login_row E identity y else y) (users d)\<rparr>"
      have "ur_id ` set (users d1) = ur_id ` set (users d)"
        using keys_map [of ur_id "\<lambda>y. if ur_id y = ur_id x then login_row E identity y else y" "users d"]
        by (simp add: d1 login_row_def del: set_map)
      then show ?thesis using ok by (simp add: R refs_ok_def owner_ok_def) (simp add: d1)
    qed
  qed
qed

section \<open>Deletions\<close>

lemma DeleteEntry_refs: "refs_ok d \<Longrightarrow> refs_ok (snd (DeleteEntry E d i))"
proof -
  assume ok: "refs_ok d"
  obtain res d1 where R: "DeleteEntry E d i = (res, d1)" by (metis surj_pair)
  show ?thesis
  proof (cases res)
    case (Inl e)
    with R DeleteEntry_atomic [of E d i e d1] ok show ?thesis by simp
  next
    case (Inr u)
    from DeleteEntry_ok [OF R [unfolded Inr]] ok show ?thesis by (fastforce simp: R refs_ok_def owner_ok_def)
  qed
qed

lemma stage_refs:
  assumes "refs_ok d"
  shows "refs_ok (snd (deleteOrphanedRows E d))" "refs_ok (snd (deleteExpiredDownloadHistory E d))"
    "refs_ok (snd (deleteExpiredSessions E d))" "refs_ok (snd (reclaimFreePages E d))" "refs_ok (snd (DeleteSession E d h))"
  using assms
  by (auto simp: deleteOrphanedRows_def deleteExpiredDownloadHistory_def deleteExpiredSessions_def
      reclaimFreePages_def DeleteSession_def refs_ok_def owner_ok_def split: sum.splits option.splits)

lemma deleteExpiredEntries_refs: "refs_ok d \<Longrightarrow> refs_ok (snd (deleteExpiredEntries E d))"
proof -
  assume ok: "refs_ok d"
  obtain res d1 where R: "deleteExpiredEntries E d = (res, d1)" by (metis surj_pair)
  show ?thesis
  proof (cases res)
    case (Inl e)
    with R deleteExpiredEntries_atomic [of E d e d1] ok show ?thesis by simp
  next
    case (Inr u)
    from deleteExpiredEntries_ok [OF R [unfolded Inr]] ok show ?thesis
      by (fastforce simp: R refs_ok_def owner_ok_def expired_ids_def)
  qed
qed

lemma then_do_refs: "refs_ok (snd r) \<Longrightarrow> (\<And>d1. refs_ok d1 \<Longrightarrow> refs_ok (snd (f d1))) \<Longrightarrow> refs_ok (snd (then_do r f))"
  by (cases r; cases "fst r") (auto simp: then_do_def split: sum.splits)

lemma Purge_refs: "refs_ok d \<Longrightarrow> refs_ok (snd (Purge E d))"
  unfolding Purge_def by (intro then_do_refs deleteExpiredEntries_refs stage_refs)

lemma run_call_refs:
  assumes "refs_ok d" and "sq_fk E" and "0 < st_chunkSize E"
  shows "refs_ok (run_call E c d)"
  using assms
  by (cases c)
    (simp_all add: run_call_def InsertEntry_refs other_insertions_refs UpdateEntryMetadata_refs user_changes_refs
      guest_link_changes_refs other_changes_refs RecordUserLogin_refs DeleteEntry_refs stage_refs Purge_refs)

end
