(* ===== verification/Collector.thy ===== *)
theory Collector
  imports Store
begin

text \<open>
  Package \<open>garbagecollect\<close>: the collector that runs \<open>Purge\<close> and remembers its last result, and
  the scheduler that runs it at startup and on every tick, whatever earlier runs returned. The
  collector knows the store only as a \<open>DatabasePurger\<close>: the locale, interpreted on the store's
  \<open>Purge\<close> with the invariant of the database and the rows that outlive a purge.
\<close>

record 'e collection_result =
  col_Time :: time
  col_Err :: "'e option"

definition no_collection :: "'e collection_result" where
  "no_collection = \<lparr>col_Time = zero_time, col_Err = None\<rparr>"

record 'e collector =
  col_lastRun :: "'e collection_result"

definition NewCollector :: "'e collector" where
  "NewCollector = \<lparr>col_lastRun = no_collection\<rparr>"

text \<open>\<open>Collect\<close>; the mutex makes it one step, so concurrent calls happen one after another.\<close>

definition Collect ::
  "('x \<Rightarrow> 's \<Rightarrow> ('e + unit) \<times> 's) \<Rightarrow> ('x \<Rightarrow> time) \<Rightarrow> 'x \<Rightarrow> 'e collector \<times> 's \<Rightarrow>
     ('e + unit) \<times> 'e collector \<times> 's" where
  "Collect purge now x cs =
     (let res = purge x (snd cs); err = fst res
      in (err, (fst cs)\<lparr>col_lastRun := \<lparr>col_Time = now x,
                 col_Err = (case err of Inl e \<Rightarrow> Some e | Inr _ \<Rightarrow> None)\<rparr>\<rparr>, snd res))"

definition LastRun :: "'e collector \<Rightarrow> 'e collection_result" where
  "LastRun c = col_lastRun c"

text \<open>\<open>Scheduler.collect\<close> logs an error and goes on; \<open>StartAsync\<close> collects once per element.\<close>

definition scheduler_collect ::
  "('x \<Rightarrow> 's \<Rightarrow> ('e + unit) \<times> 's) \<Rightarrow> ('x \<Rightarrow> time) \<Rightarrow> 'e collector \<times> 's \<Rightarrow> 'x \<Rightarrow> 'e collector \<times> 's" where
  "scheduler_collect purge now cs x = snd (Collect purge now x cs)"

definition scheduler_run ::
  "('x \<Rightarrow> 's \<Rightarrow> ('e + unit) \<times> 's) \<Rightarrow> ('x \<Rightarrow> time) \<Rightarrow> 'x list \<Rightarrow> 'e collector \<times> 's \<Rightarrow> 'e collector \<times> 's" where
  "scheduler_run purge now ticks cs = foldl (scheduler_collect purge now) cs ticks"

text \<open>
  What a purger promises: it keeps the invariant, also when it fails, and it deletes nothing
  that it still has to keep at the time it runs.
\<close>

locale database_purger =
  fixes purge :: "'x \<Rightarrow> 's \<Rightarrow> ('e + unit) \<times> 's"
    and inv :: "'s \<Rightarrow> bool"
    and keeps :: "'x \<Rightarrow> 's \<Rightarrow> 'k \<Rightarrow> bool"
    and present :: "'s \<Rightarrow> 'k \<Rightarrow> bool"
  assumes purge_inv: "inv s \<Longrightarrow> inv (snd (purge x s))"
    and purge_keeps: "inv s \<Longrightarrow> present s k \<Longrightarrow> keeps x s k \<Longrightarrow> present (snd (purge x s)) k"
begin

lemma run_inv: "inv (snd cs) \<Longrightarrow> inv (snd (scheduler_run purge now ticks cs))"
proof (induction ticks rule: rev_induct)
  case (snoc x ticks)
  then show ?case
    using purge_inv [of "snd (scheduler_run purge now ticks cs)" x]
    by (simp add: scheduler_run_def scheduler_collect_def Collect_def Let_def)
qed (simp add: scheduler_run_def)

lemma run_last:
  "LastRun (fst (scheduler_run purge now (ticks @ [x]) cs)) =
     \<lparr>col_Time = now x,
      col_Err = (case fst (purge x (snd (scheduler_run purge now ticks cs))) of
                   Inl e \<Rightarrow> Some e | Inr _ \<Rightarrow> None)\<rparr>"
  by (simp add: scheduler_run_def scheduler_collect_def Collect_def LastRun_def Let_def)

lemma run_keeps:
  assumes "inv (snd cs)" and "present (snd cs) k"
    and "\<And>x s. x \<in> set ticks \<Longrightarrow> inv s \<Longrightarrow> present s k \<Longrightarrow> keeps x s k"
  shows "present (snd (scheduler_run purge now ticks cs)) k"
  using assms
proof (induction ticks rule: rev_induct)
  case (snoc x ticks)
  let ?cs = "scheduler_run purge now ticks cs"
  have "present (snd ?cs) k" using snoc by simp
  moreover have "inv (snd ?cs)" using snoc.prems(1) by (rule run_inv)
  ultimately have "present (snd (purge x (snd ?cs))) k"
    using snoc.prems(3) by (intro purge_keeps) simp_all
  then show ?case
    by (simp add: scheduler_run_def scheduler_collect_def Collect_def Let_def)
qed (simp add: scheduler_run_def)

end

text \<open>An entry's row is kept by a purge that does not find it expired.\<close>

lemma stage_entries:
  "entries (snd (deleteOrphanedRows E d)) = entries d"
  "entries (snd (deleteExpiredDownloadHistory E d)) = entries d"
  "entries (snd (deleteExpiredSessions E d)) = entries d"
  "entries (snd (reclaimFreePages E d)) = entries d"
  by (auto simp: deleteOrphanedRows_def deleteExpiredDownloadHistory_def deleteExpiredSessions_def
      reclaimFreePages_def split: sum.splits option.splits)

lemma then_do_entries:
  "(\<And>d1. entries (snd (f d1)) = entries d1) \<Longrightarrow> entries (snd (then_do r f)) = entries (snd r)"
  by (auto simp: then_do_def split: prod.splits sum.splits)

lemma Purge_entries:
  assumes "r \<in> set (entries d)" and "\<not> entry_expired E r"
  shows "r \<in> set (entries (snd (Purge E d)))"
proof -
  have "r \<in> set (entries (snd (deleteExpiredEntries E d)))"
  proof (cases "deleteExpiredEntries E d")
    case (Pair res d1)
    then show ?thesis
      using assms deleteExpiredEntries_atomic [of E d _ d1] deleteExpiredEntries_ok [of E d _ d1]
      by (cases res) auto
  qed
  then show ?thesis unfolding Purge_def by (simp add: then_do_entries stage_entries)
qed

interpretation store_purger:
  database_purger Purge db_ok "\<lambda>E d r. \<not> entry_expired E r" "\<lambda>d r. r \<in> set (entries d)"
  by unfold_locales (use Purge_entries in \<open>auto intro: shrinks_db_ok [OF Purge_shrinks]\<close>)

end
