(* ===== verification/Http.thy ===== *)
theory Http
  imports Store Parse
begin

text \<open>
  What the handlers see of \<open>net/http\<close>, \<open>encoding/json\<close> and the router: a request with the
  values the middleware attaches to its context, a response that handlers fill in, decoding of a
  JSON body into the fields of a struct, and the helpers all handlers share (\<open>csp.go\<close>, \<open>json.go\<close>,
  \<open>upgrade_http_prod.go\<close>, the end of \<open>upload.go\<close> and of \<open>views.go\<close>, \<open>i18n/i18n.go\<close>). A handler
  takes the response written so far, the request and the database (or a larger state), and returns
  response and state; middleware maps handlers to handlers.
\<close>

section \<open>JSON bodies\<close>

text \<open>\<open>JNumber\<close> stands for a number literal that is not an integer (\<open>1.0\<close>, \<open>1e3\<close>, \<open>-0\<close>).\<close>

datatype json =
  JNull
| JBool bool
| JInt int
| JNumber
| JString string
| JArray "json list"
| JObject "(string \<times> json) list"

text \<open>ASCII letters match a field name in either case; a \<open>null\<close> body decodes into the zero struct.\<close>

definition to_lower :: "char \<Rightarrow> char" where
  "to_lower c = (if in_range 65 90 c then char_of (byte_of c + 32) else c)"

definition json_fields :: "json \<Rightarrow> (string \<times> json) list option" where
  "json_fields v = (case v of JObject fs \<Rightarrow> Some fs | JNull \<Rightarrow> Some [] | _ \<Rightarrow> None)"

definition field_values :: "string \<Rightarrow> (string \<times> json) list \<Rightarrow> json list" where
  "field_values name fs =
     map snd (filter (\<lambda>(k, _). map to_lower k = map to_lower name) fs)"

text \<open>Each occurrence of a field is decoded over the one before; a mismatched one is an error.\<close>

fun decode_field :: "('a \<Rightarrow> json \<Rightarrow> 'a option) \<Rightarrow> 'a \<Rightarrow> json list \<Rightarrow> 'a option" where
  "decode_field conv x [] = Some x"
| "decode_field conv x (v # vs) =
     (case conv x v of None \<Rightarrow> None | Some y \<Rightarrow> decode_field conv y vs)"

definition json_string :: "string \<Rightarrow> json \<Rightarrow> string option" where
  "json_string old v = (case v of JNull \<Rightarrow> Some old | JString s \<Rightarrow> Some s | _ \<Rightarrow> None)"

definition json_bool :: "bool \<Rightarrow> json \<Rightarrow> bool option" where
  "json_bool old v = (case v of JNull \<Rightarrow> Some old | JBool b \<Rightarrow> Some b | _ \<Rightarrow> None)"

definition json_u16 :: "u16 \<Rightarrow> json \<Rightarrow> u16 option" where
  "json_u16 old v =
     (case v of
        JNull \<Rightarrow> Some old
      | JInt i \<Rightarrow> (if 0 \<le> i \<and> i < 65536 then Some (of_int i) else None)
      | _ \<Rightarrow> None)"

definition json_u64_ptr :: "u64 option \<Rightarrow> json \<Rightarrow> u64 option option" where
  "json_u64_ptr old v =
     (case v of
        JNull \<Rightarrow> Some None
      | JInt i \<Rightarrow> (if 0 \<le> i \<and> i < 2 ^ 64 then Some (Some (of_int i)) else None)
      | _ \<Rightarrow> None)"

definition json_int_ptr :: "int option \<Rightarrow> json \<Rightarrow> int option option" where
  "json_int_ptr old v =
     (case v of
        JNull \<Rightarrow> Some None
      | JInt i \<Rightarrow> (if min_int64 \<le> i \<and> i \<le> max_int64 then Some (Some i) else None)
      | _ \<Rightarrow> None)"

abbreviation "string_field name fs \<equiv> decode_field json_string [] (field_values name fs)"
abbreviation "bool_field name fs \<equiv> decode_field json_bool False (field_values name fs)"
abbreviation "u16_field name fs \<equiv> decode_field json_u16 0 (field_values name fs)"
abbreviation "u64_ptr_field name fs \<equiv> decode_field json_u64_ptr None (field_values name fs)"
abbreviation "int_ptr_field name fs \<equiv> decode_field json_int_ptr None (field_values name fs)"

section \<open>Requests\<close>

text \<open>
  A part of a multipart form with a file: the base name and content type the client gave, the
  number of bytes \<open>net/http\<close> counted, and the reader over them.
\<close>

record file_part =
  fp_filename :: string
  fp_content_type :: string
  fp_size :: int
  fp_reader :: source

text \<open>
  A body is JSON, a multipart form (its first part named \<open>file\<close>, its values), a URL-encoded
  form, something else, or malformed as a form.
\<close>

datatype request_body =
  JsonBody json
| MultipartBody "file_part option" "(string \<times> string) list"
| FormBody "(string \<times> string) list"
| OtherBody
| MalformedBody

datatype byte_range = RangeFromTo nat nat | RangeFrom nat | RangeLast nat

record request =
  rq_path :: string
  rq_vars :: "(string \<times> string) list"
  rq_query :: "(string \<times> string) list"
  rq_headers :: "(string \<times> string) list"
  rq_cookies :: "(string \<times> string) list"
  rq_host :: string
  rq_uri :: string
  rq_remote_addr :: string
  rq_tls :: bool
  rq_range :: "byte_range option"
  rq_body :: request_body
  rq_body_bytes :: nat
  rq_body_limit :: "int option"
  rq_user :: "user option"
  rq_localizer :: "string option"
  rq_nonce :: "string option"

definition lookup_or_empty :: "(string \<times> string) list \<Rightarrow> string \<Rightarrow> string" where
  "lookup_or_empty kvs k = (case map_of kvs k of None \<Rightarrow> [] | Some v \<Rightarrow> v)"

definition mux_Var :: "request \<Rightarrow> string \<Rightarrow> string" where
  "mux_Var r k = lookup_or_empty (rq_vars r) k"

definition query_Get :: "request \<Rightarrow> string \<Rightarrow> string" where
  "query_Get r k = lookup_or_empty (rq_query r) k"

definition header_Get :: "request \<Rightarrow> string \<Rightarrow> string" where
  "header_Get r k = lookup_or_empty (rq_headers r) k"

definition request_Cookie :: "request \<Rightarrow> string \<Rightarrow> string option" where
  "request_Cookie r k = map_of (rq_cookies r) k"

text \<open>\<open>MaxBytesReader\<close>: reading a body longer than the limit fails.\<close>

definition within_limit :: "request \<Rightarrow> bool" where
  "within_limit r = (case rq_body_limit r of None \<Rightarrow> True | Some n \<Rightarrow> int (rq_body_bytes r) \<le> n)"

definition MaxBytesReader :: "request \<Rightarrow> int \<Rightarrow> request" where
  "MaxBytesReader r n = r\<lparr>rq_body_limit := Some (max 0 n)\<rparr>"

definition decode_json :: "request \<Rightarrow> (string \<times> json) list option" where
  "decode_json r =
     (case rq_body r of
        JsonBody v \<Rightarrow> (if within_limit r then json_fields v else None)
      | _ \<Rightarrow> None)"

text \<open>The values of a multipart form come after those of the query string.\<close>

definition ParseMultipartForm :: "request \<Rightarrow> (file_part option \<times> (string \<times> string) list) option" where
  "ParseMultipartForm r =
     (case rq_body r of
        MultipartBody part kvs \<Rightarrow> (if within_limit r then Some (part, rq_query r @ kvs) else None)
      | _ \<Rightarrow> None)"

definition ParseForm :: "request \<Rightarrow> (string \<times> string) list option" where
  "ParseForm r =
     (case rq_body r of
        FormBody kvs \<Rightarrow> (if within_limit r then Some kvs else None)
      | MalformedBody \<Rightarrow> None
      | _ \<Rightarrow> Some [])"

section \<open>Errors and responses\<close>

datatype web_error =
  DecodeError
| MultipartError
| MissingFile
| WebParseError parse_error
| WebDomainError domain_error
| WebStoreError store_error
| WebDbError store_error
| GuestNote
| GuestPassphrase
| GuestLinkIDBadLength nat
| GuestLinkIDBadCharacter nat
| BeyondGuestLimit
| BeyondUserLimit
| FileBytesLimitTooSmall
| UploadCountNotPositive
| InvalidSetupToken
| DiscoveryError

record cookie =
  ck_name :: string
  ck_value :: string
  ck_path :: string
  ck_expires :: "time option"
  ck_max_age :: int
  ck_http_only :: bool
  ck_secure :: bool
  ck_same_site_lax :: bool

text \<open>The data every page is rendered with.\<close>

record common_props =
  cp_Title :: string
  cp_IsAuthenticated :: bool
  cp_IsAdmin :: bool
  cp_Username :: string
  cp_CspNonce :: string
  cp_Lang :: string

text \<open>A lifetime a form offers: its name, the expiration it stands for, and whether it is selected.\<close>

record expiration_option =
  eo_FriendlyName :: string
  eo_Expiration :: time
  eo_IsDefault :: bool

text \<open>The data of each page besides the common properties, in the order of the template's struct.\<close>

datatype page =
  IndexPage
| UnlockPage bool
| LoginPage bool bool string
| SetupPage string
| MembersPage "user list" string
| SsoSettingsPage string
| FilesPage "upload_metadata list" bool
| FileEditPage upload_metadata nat bool string time
| FileInfoPage upload_metadata nat
| FileDownloadsPage upload_metadata "(time \<times> string \<times> string \<times> string) list" bool
| FileDeletePage upload_metadata
| GuestLinksPage "guest_link list"
| GuestLinkNewPage "expiration_option list" "(file_lifetime \<times> bool) list"
| GuestLinkInactivePage
| UploadPage "expiration_option list" nat nat bool string time
| GuestUploadPage "expiration_option list" guest_link bool string time
| SettingsPage u16 string bool u16 u16 bool string u16 bool
| SystemInformationPage u64 u64 u64 u64 u64 time bool time string string

datatype resp_body =
  Empty
| ErrorText string "web_error option"
| IDBody string
| OIDCBody string string string string bool
| TextBody string
| PageBody page common_props
| FileBody string
| Aborted
| Unanswered

record response =
  rs_status :: nat
  rs_headers :: "(string \<times> string) list"
  rs_cookies :: "cookie list"
  rs_body :: resp_body

definition new_response :: response where
  "new_response = \<lparr>rs_status = 200, rs_headers = [], rs_cookies = [], rs_body = Empty\<rparr>"

definition set_header :: "string \<Rightarrow> string \<Rightarrow> response \<Rightarrow> response" where
  "set_header k v w = w\<lparr>rs_headers := (k, v) # filter (\<lambda>(k', _). k' \<noteq> k) (rs_headers w)\<rparr>"

definition SetCookie :: "cookie \<Rightarrow> response \<Rightarrow> response" where
  "SetCookie c w = w\<lparr>rs_cookies := rs_cookies w @ [c]\<rparr>"

text \<open>\<open>http.Error\<close> with a message and, where the message shows one, the error.\<close>

definition http_Error :: "response \<Rightarrow> string \<Rightarrow> web_error option \<Rightarrow> nat \<Rightarrow> response" where
  "http_Error w msg e code =
     (set_header ''Content-Type'' ''text/plain; charset=utf-8''
        (set_header ''X-Content-Type-Options'' ''nosniff'' w))
     \<lparr>rs_status := code, rs_body := ErrorText msg e\<rparr>"

definition http_Redirect :: "response \<Rightarrow> string \<Rightarrow> nat \<Rightarrow> response" where
  "http_Redirect w url code = (set_header ''Location'' url w)\<lparr>rs_status := code\<rparr>"

definition respondJSON :: "response \<Rightarrow> resp_body \<Rightarrow> response" where
  "respondJSON w b = (set_header ''Content-Type'' ''application/json'' w)\<lparr>rs_body := b\<rparr>"

definition WriteHeader :: "nat \<Rightarrow> response \<Rightarrow> response" where
  "WriteHeader code w = w\<lparr>rs_status := code\<rparr>"

text \<open>A panic in a handler aborts the response.\<close>

definition aborted :: "response \<Rightarrow> response" where
  "aborted w = w\<lparr>rs_status := 0, rs_body := Aborted\<rparr>"

section \<open>What the server is given\<close>

text \<open>
  The store's surroundings (its clock is also the server's), the wall clock, whether
  \<open>PS_BEHIND_PROXY\<close> is set, whether this is a development build, the system's MIME types, the
  embedded message catalogs, the conversion of a time to the system's time zone, the browser and
  the platform that the package \<open>useragent\<close> reads from a user agent, the random numbers a request
  draws for the page's nonce and for an identifier, and the order \<open>sort.Slice\<close> leaves ties in.
\<close>

record web =
  wb_env :: env
  wb_wall :: time
  wb_behind_proxy :: bool
  wb_dev :: bool
  wb_mime :: "string \<Rightarrow> string"
  wb_catalogs :: "string \<Rightarrow> (string \<Rightarrow> string option) option"
  wb_local :: "time \<Rightarrow> time"
  wb_useragent :: "string \<Rightarrow> string \<times> string"
  wb_nonce_draw :: "nat \<Rightarrow> nat"
  wb_draw :: "nat \<Rightarrow> nat"
  wb_ties :: "nat \<Rightarrow> nat"

type_synonym 's handler_on = "web \<Rightarrow> response \<Rightarrow> request \<Rightarrow> 's \<Rightarrow> response \<times> 's"

type_synonym handler = "db handler_on"

definition server_now :: "web \<Rightarrow> time" where "server_now W = st_now (wb_env W)"

section \<open>Context values and request helpers\<close>

definition zero_user :: user where
  "zero_user =
     \<lparr>usr_ID = UserID 0, usr_Subject = OIDCSubject [], usr_Username = Username [],
      usr_Email = EmailAddress [], usr_IsAdmin = False, usr_PreferredLanguage = Language [],
      usr_Created = zero_time, usr_LastLogin = zero_time\<rparr>"

definition currentUser :: "request \<Rightarrow> user \<times> bool" where
  "currentUser r = (case rq_user r of None \<Rightarrow> (zero_user, False) | Some u \<Rightarrow> (u, True))"

definition isAuthenticated :: "request \<Rightarrow> bool" where
  "isAuthenticated r = snd (currentUser r)"

definition requestIsHTTPS :: "web \<Rightarrow> request \<Rightarrow> bool" where
  "requestIsHTTPS W r \<longleftrightarrow> rq_tls r \<or> wb_behind_proxy W"

definition baseURLFromRequest :: "web \<Rightarrow> request \<Rightarrow> string" where
  "baseURLFromRequest W r =
     (if requestIsHTTPS W r then ''https'' else ''http'') @ ''://'' @ rq_host r"

definition clientAcceptsJson :: "request \<Rightarrow> bool" where
  "clientAcceptsJson r \<longleftrightarrow> header_Get r ''Accept'' = ''application/json''"

definition mibToBytes :: "int \<Rightarrow> int" where "mibToBytes i = i * 2 ^ 20"

section \<open>Messages\<close>

definition IsSupported :: "web \<Rightarrow> string \<Rightarrow> bool" where
  "IsSupported W lang \<longleftrightarrow> wb_catalogs W lang \<noteq> None"

definition Localizer_New :: "web \<Rightarrow> string \<Rightarrow> string" where
  "Localizer_New W lang = (if \<not> IsSupported W lang then ''en'' else lang)"

text \<open>\<open>T\<close> without arguments: the language's message, else the English one, else the key.\<close>

definition catalog :: "web \<Rightarrow> string \<Rightarrow> string \<Rightarrow> string option" where
  "catalog W lang key = (case wb_catalogs W lang of None \<Rightarrow> None | Some m \<Rightarrow> m key)"

definition Localizer_T :: "web \<Rightarrow> string \<Rightarrow> string \<Rightarrow> string" where
  "Localizer_T W lang key =
     (case catalog W lang key of
        Some msg \<Rightarrow> msg
      | None \<Rightarrow> (case catalog W ''en'' key of Some msg \<Rightarrow> msg | None \<Rightarrow> key))"

definition localizerFromContext :: "web \<Rightarrow> request \<Rightarrow> string" where
  "localizerFromContext W r =
     (case rq_localizer r of Some l \<Rightarrow> l | None \<Rightarrow> Localizer_New W ''en'')"

section \<open>Pages\<close>

text \<open>\<open>cspNonce\<close> panics when the context has no nonce.\<close>

definition cspNonce :: "request \<Rightarrow> string option" where
  "cspNonce r = rq_nonce r"

definition makeCommonProps :: "web \<Rightarrow> string \<Rightarrow> request \<Rightarrow> common_props option" where
  "makeCommonProps W titleKey r =
     (let (u, authenticated) = currentUser r; l = localizerFromContext W r in
      map_option (\<lambda>nonce.
        \<lparr>cp_Title = Localizer_T W l titleKey, cp_IsAuthenticated = authenticated,
         cp_IsAdmin = usr_IsAdmin u, cp_Username = Username_String (usr_Username u),
         cp_CspNonce = nonce, cp_Lang = l\<rparr>) (cspNonce r))"

definition renderPage :: "web \<Rightarrow> response \<Rightarrow> request \<Rightarrow> string \<Rightarrow> page \<Rightarrow> response" where
  "renderPage W w r titleKey p =
     (case makeCommonProps W titleKey r of
        None \<Rightarrow> aborted w
      | Some props \<Rightarrow> w\<lparr>rs_body := PageBody p props\<rparr>)"

section \<open>Middleware\<close>

text \<open>\<open>base64.StdEncoding\<close>: the standard alphabet, padded.\<close>

definition b64_std_encode :: "string \<Rightarrow> string" where
  "b64_std_encode s =
     (let e = map (\<lambda>c. if c = CHR ''-'' then CHR ''+'' else if c = CHR ''_'' then CHR ''/'' else c) (b64_encode s)
      in e @ replicate ((4 - length e mod 4) mod 4) (CHR ''=''))"

definition quoted :: "string \<Rightarrow> string" where
  "quoted s = CHR 0x27 # s @ [CHR 0x27]"

definition csp_directives :: "string \<Rightarrow> (string \<times> string list) list" where
  "csp_directives nonce =
     [(''default-src'', [quoted ''self'']),
      (''script-src'', [quoted ''self'', quoted (''nonce-'' @ nonce)]),
      (''style-src-elem'', [quoted ''self'', quoted ''unsafe-inline'']),
      (''img-src'', [quoted ''self'', ''data:'']),
      (''media-src'', [quoted ''self'', ''data:''])]"

definition csp_policy :: "string \<Rightarrow> string" where
  "csp_policy nonce =
     join_with ''; '' (map (\<lambda>(name, values). name @ '' '' @ join_with '' '' values) (csp_directives nonce)) @ '';''"

definition enforceContentSecurityPolicy :: "'s handler_on \<Rightarrow> 's handler_on" where
  "enforceContentSecurityPolicy h W w r d =
     (let nonce = b64_std_encode (random_Bytes (wb_nonce_draw W) 16)
      in h W (set_header ''Content-Security-Policy'' (csp_policy nonce) w) (r\<lparr>rq_nonce := Some nonce\<rparr>) d)"

text \<open>In a development build this middleware does nothing.\<close>

definition upgradeToHttps :: "'s handler_on \<Rightarrow> 's handler_on" where
  "upgradeToHttps h W w r d =
     (if \<not> wb_dev W \<and> header_Get r ''X-Forwarded-Proto'' = ''http''
      then (http_Redirect w (''https://'' @ rq_host r @ rq_uri r) 301, d)
      else h W w r d)"

section \<open>Facts about responses\<close>

named_theorems resp_simps \<open>fields of the responses the helpers build\<close>

lemma response_simps [resp_simps, simp]:
  "rs_status (http_Error w m e c) = c" "rs_body (http_Error w m e c) = ErrorText m e"
  "rs_cookies (http_Error w m e c) = rs_cookies w"
  "rs_status (http_Redirect w u c) = c" "rs_body (http_Redirect w u c) = rs_body w"
  "rs_status (respondJSON w b) = rs_status w" "rs_body (respondJSON w b) = b"
  "rs_status (set_header k v w) = rs_status w" "rs_body (set_header k v w) = rs_body w"
  "rs_cookies (set_header k v w) = rs_cookies w"
  "rs_status (SetCookie c0 w) = rs_status w" "rs_body (SetCookie c0 w) = rs_body w"
  "rs_cookies (SetCookie c0 w) = rs_cookies w @ [c0]"
  "rs_status (WriteHeader c w) = c" "rs_body (WriteHeader c w) = rs_body w"
  "rs_status (aborted w) = 0" "rs_body (aborted w) = Aborted"
  by (simp_all add: http_Error_def http_Redirect_def respondJSON_def set_header_def SetCookie_def
      WriteHeader_def aborted_def)

lemma map_of_filter_neq: "map_of (filter (\<lambda>(k', _). k' \<noteq> k) kvs) k' = (if k' = k then None else map_of kvs k')"
  by (induction kvs) auto

lemma header_set [simp]:
  "map_of (rs_headers (set_header k v w)) k' = (if k' = k then Some v else map_of (rs_headers w) k')"
  by (simp add: set_header_def map_of_filter_neq)

lemma renderPage_body:
  "rs_body (renderPage W w r t p) = Aborted \<or> (\<exists>props. rs_body (renderPage W w r t p) = PageBody p props)"
  by (cases "makeCommonProps W t r") (simp_all add: renderPage_def)

lemma currentUser_simps [simp]:
  "rq_user r = Some u \<Longrightarrow> currentUser r = (u, True)" "rq_user r = None \<Longrightarrow> currentUser r = (zero_user, False)"
  by (simp_all add: currentUser_def)

end
