(* ===== verification/Auth.thy ===== *)
theory Auth
  imports Http
begin

text \<open>
  \<open>handlers/auth.go\<close>, \<open>dev_login.go\<close> and the login page of \<open>views.go\<close>: the middleware that
  finds the user of a session cookie and that guards routes, and the handlers that log in and
  out. The identity provider is the interface the server is given.
\<close>

section \<open>Sessions on requests\<close>

definition sessionLifetime :: int where "sessionLifetime = 30 * 24 * hour"

definition sessionCookieName :: string where "sessionCookieName = ''session''"

definition setSessionCookie :: "web \<Rightarrow> response \<Rightarrow> request \<Rightarrow> session_token \<Rightarrow> time \<Rightarrow> response" where
  "setSessionCookie W w r token expires =
     SetCookie \<lparr>ck_name = sessionCookieName, ck_value = SessionToken_String token, ck_path = ''/'',
       ck_expires = Some expires, ck_max_age = 0, ck_http_only = True,
       ck_secure = requestIsHTTPS W r, ck_same_site_lax = True\<rparr> w"

definition clearSessionCookie :: "web \<Rightarrow> response \<Rightarrow> request \<Rightarrow> response" where
  "clearSessionCookie W w r =
     SetCookie \<lparr>ck_name = sessionCookieName, ck_value = [], ck_path = ''/'',
       ck_expires = None, ck_max_age = -1, ck_http_only = True,
       ck_secure = requestIsHTTPS W r, ck_same_site_lax = True\<rparr> w"

text \<open>The token of the session cookie, when there is one that parses.\<close>

definition request_token :: "request \<Rightarrow> session_token option" where
  "request_token r =
     (case request_Cookie r sessionCookieName of
        None \<Rightarrow> None
      | Some v \<Rightarrow> (case SessionTokenFromString v of Inl _ \<Rightarrow> None | Inr t \<Rightarrow> Some t))"

text \<open>Middleware that reads the database finds it in the server's state with its first argument.\<close>

definition loadSession :: "('s \<Rightarrow> db) \<Rightarrow> 's handler_on \<Rightarrow> 's handler_on" where
  "loadSession store h W w r s =
     (case request_token r of
        None \<Rightarrow> h W w r s
      | Some token \<Rightarrow>
          (case GetSessionUser (wb_env W) (store s) (SessionToken_Hash token) of
             Inr u \<Rightarrow> h W w (r\<lparr>rq_user := Some u\<rparr>) s
           | Inl _ \<Rightarrow> h W w r s))"

definition requireAuthentication :: "'s handler_on \<Rightarrow> 's handler_on" where
  "requireAuthentication h W w r d =
     (if \<not> isAuthenticated r
      then (http_Error (clearSessionCookie W w r) ''Authentication required'' None 401, d)
      else h W w r d)"

definition requireAdmin :: "'s handler_on \<Rightarrow> 's handler_on" where
  "requireAdmin h W w r d =
     (if \<not> usr_IsAdmin (fst (currentUser r))
      then (http_Error w ''This page is only available to administrators'' None 403, d)
      else h W w r d)"

section \<open>Logging in and out\<close>

text \<open>Deleting the session of the cookie; a failure is only logged.\<close>

definition revoke_request_session :: "env \<Rightarrow> request \<Rightarrow> db \<Rightarrow> db" where
  "revoke_request_session E r d =
     (case request_token r of
        None \<Rightarrow> d
      | Some token \<Rightarrow> snd (DeleteSession E d (SessionToken_Hash token)))"

definition completeLogin :: "web \<Rightarrow> response \<Rightarrow> request \<Rightarrow> user_identity \<Rightarrow> db \<Rightarrow> store_error option \<times> response \<times> db" where
  "completeLogin W w r identity d =
     (case RecordUserLogin (wb_env W) d identity of
        (Inl e, d1) \<Rightarrow> (Some e, w, d1)
      | (Inr u, d1) \<Rightarrow>
          (let d2 = revoke_request_session (wb_env W) r d1;
               token = NewSessionToken (wb_draw W);
               now = server_now W
           in case InsertSession (wb_env W) d2
                     \<lparr>ses_TokenHash = SessionToken_Hash token, ses_UserID = usr_ID u,
                      ses_Created = now, ses_Expires = time_add now sessionLifetime\<rparr> of
                (Inl e, d3) \<Rightarrow> (Some e, w, d3)
              | (Inr _, d3) \<Rightarrow> (None, setSessionCookie W w r token (time_add now sessionLifetime), d3)))"

definition authDelete :: handler where
  "authDelete W w r d = (clearSessionCookie W w r, revoke_request_session (wb_env W) r d)"

text \<open>
  The identity provider, with the state it keeps: \<open>Redirect\<close> writes a response, \<open>Callback\<close> writes
  to one and returns an error or the identity it asserts. Both read the store.
\<close>

record 'c identity_provider =
  idp_Redirect :: "web \<Rightarrow> response \<Rightarrow> request \<Rightarrow> 'c \<times> db \<Rightarrow> response \<times> 'c"
  idp_Callback :: "web \<Rightarrow> response \<Rightarrow> request \<Rightarrow> 'c \<times> db \<Rightarrow> (unit + user_identity) \<times> response \<times> 'c"

definition authPageProps :: "web \<Rightarrow> request \<Rightarrow> db \<Rightarrow> string \<Rightarrow> store_error + page" where
  "authPageProps W r d loginErrorKey =
     and_then (NeedsSetup (wb_env W) d) (\<lambda>needsSetup.
       Inr (LoginPage needsSetup (wb_dev W)
         (if loginErrorKey = [] then [] else Localizer_T W (localizerFromContext W r) loginErrorKey)))"

definition oidcLoginGet ::
  "'c identity_provider \<Rightarrow> web \<Rightarrow> response \<Rightarrow> request \<Rightarrow> 'c \<times> db \<Rightarrow> response \<times> 'c \<times> db" where
  "oidcLoginGet idp W w r cd = (case idp_Redirect idp W w r cd of (w1, c1) \<Rightarrow> (w1, c1, snd cd))"

definition oidcCallbackGet ::
  "'c identity_provider \<Rightarrow> web \<Rightarrow> response \<Rightarrow> request \<Rightarrow> 'c \<times> db \<Rightarrow> response \<times> 'c \<times> db" where
  "oidcCallbackGet idp W w r cd =
     (case idp_Callback idp W w r cd of
        (Inl _, w1, c1) \<Rightarrow>
          (case authPageProps W r (snd cd) ''auth.loginFailed'' of
             Inl _ \<Rightarrow> (http_Error w1 ''Failed to complete login'' None 500, c1, snd cd)
           | Inr p \<Rightarrow> (renderPage W (WriteHeader 401 w1) r ''title.login'' p, c1, snd cd))
      | (Inr identity, w1, c1) \<Rightarrow>
          (case completeLogin W w1 r identity (snd cd) of
             (Some _, w2, d1) \<Rightarrow> (http_Error w2 ''Failed to complete login'' None 500, c1, d1)
           | (None, w2, d1) \<Rightarrow> (http_Redirect w2 ''/'' 303, c1, d1)))"

definition authGet :: handler where
  "authGet W w r d =
     (if isAuthenticated r then (http_Redirect w ''/'' 302, d)
      else case authPageProps W r d
                  (if query_Get r ''error'' = ''not_configured'' then ''auth.notConfigured'' else []) of
             Inl _ \<Rightarrow> (http_Error w ''Failed to check setup status'' None 500, d)
           | Inr p \<Rightarrow> (renderPage W w r ''title.login'' p, d))"

text \<open>Only development builds have this route.\<close>

definition devLoginPost :: handler where
  "devLoginPost W w r d =
     (case ParseForm r of
        None \<Rightarrow> (http_Error w ''Invalid request: '' (Some DecodeError) 400, d)
      | Some form \<Rightarrow>
          (case NewUsername (lookup_or_empty form ''username'') of
             Inl e \<Rightarrow> (http_Error w ''Invalid username: '' (Some (WebDomainError e)) 400, d)
           | Inr name \<Rightarrow>
               (case NewOIDCSubject (''dev|'' @ Username_String name) of
                  Inl e \<Rightarrow> (http_Error w ''Invalid username: '' (Some (WebDomainError e)) 400, d)
                | Inr subject \<Rightarrow>
                    (case completeLogin W w r
                            \<lparr>ui_Subject = subject, ui_Username = name, ui_Email = EmailAddress []\<rparr> d of
                       (Some e, w1, d1) \<Rightarrow>
                         (http_Error w1 ''Failed to complete login: '' (Some (WebStoreError e)) 500, d1)
                     | (None, w1, d1) \<Rightarrow> (http_Redirect w1 ''/'' 303, d1)))))"

section \<open>What the middleware guarantees\<close>

text \<open>The user a request acts as, read anew from the database on every request.\<close>

definition session_user :: "env \<Rightarrow> request \<Rightarrow> db \<Rightarrow> user option" where
  "session_user E r d =
     (case request_token r of
        None \<Rightarrow> None
      | Some token \<Rightarrow>
          (case GetSessionUser E d (SessionToken_Hash token) of Inr u \<Rightarrow> Some u | Inl _ \<Rightarrow> None))"

lemma loadSession_user:
  "rq_user r = None \<Longrightarrow>
     loadSession store h W w r s = h W w (r\<lparr>rq_user := session_user (wb_env W) r (store s)\<rparr>) s"
  by (cases r) (simp add: loadSession_def session_user_def split: option.splits sum.splits)

lemma requireAuthentication_none:
  "rq_user r = None \<Longrightarrow>
     requireAuthentication h W w r d =
       (http_Error (clearSessionCookie W w r) ''Authentication required'' None 401, d)"
  by (simp add: requireAuthentication_def isAuthenticated_def)

lemma requireAuthentication_some [simp]:
  "rq_user r = Some u \<Longrightarrow> requireAuthentication h W w r d = h W w r d"
  by (simp add: requireAuthentication_def isAuthenticated_def)

lemma requireAdmin_other:
  "\<not> usr_IsAdmin (fst (currentUser r)) \<Longrightarrow>
     requireAdmin h W w r d =
       (http_Error w ''This page is only available to administrators'' None 403, d)"
  by (simp add: requireAdmin_def)

text \<open>An administrator's request belongs to a live session of a user whose row says so now.\<close>

lemma session_user_row:
  assumes "session_user E r d = Some u"
  obtains token s x where "request_token r = Some token" "s \<in> set (sessions d)" "x \<in> set (users d)"
    "sr_token_hash s = SessionTokenHash_String (SessionToken_Hash token)" "session_live E s"
    "sr_user_id s = ur_id x" "userFromRow x = Inr u" "usr_IsAdmin u = ur_is_admin x" "usr_ID u = UserID (ur_id x)"
proof -
  obtain token where t: "request_token r = Some token"
    and u: "GetSessionUser E d (SessionToken_Hash token) = Inr u"
    using assms by (auto simp: session_user_def split: option.splits sum.splits)
  obtain x s where "x \<in> set (users d)" "s \<in> set (sessions d)" "userFromRow x = Inr u"
    "sr_token_hash s = SessionTokenHash_String (SessionToken_Hash token)" "session_live E s"
    "sr_user_id s = ur_id x"
    using GetSessionUser_Inr [OF u] .
  with t that userFromRow_fields [of x u] show ?thesis by blast
qed

section \<open>What logging in does\<close>

lemma InsertSession_ok:
  "InsertSession E d s = (Inr u, d1) \<Longrightarrow>
     d1 = d\<lparr>sessions := sessions d @ [session_row_of s]\<rparr> \<and> session_ok E d (session_row_of s) \<and>
     sr_token_hash (session_row_of s) \<notin> sr_token_hash ` set (sessions d)"
  by (auto simp: InsertSession_def split: if_splits)

lemma revoke_request_session_frame:
  "users (revoke_request_session E r d) = users d"
  "set (sessions (revoke_request_session E r d)) \<subseteq> set (sessions d)"
  by (auto simp: revoke_request_session_def DeleteSession_def split: option.splits)

lemma RecordUserLogin_user:
  assumes "RecordUserLogin E d identity = (Inr u, d1)"
  obtains x where "x \<in> set (users d1)" "userFromRow x = Inr u"
proof -
  obtain i x where "of_option ErrNoRows (first_row (filter (\<lambda>r. ur_id r = i) (users d1))) = Inr x"
    "userFromRow x = Inr u"
    using assms by (auto simp: RecordUserLogin_def transaction_def and_then_eq_Inr_iff split: sum.splits)
  with that show ?thesis by (auto simp: of_option_Inr_iff dest!: first_row_filterD)
qed

lemma completeLogin_ok:
  assumes "completeLogin W w r identity d = (None, w1, d1)"
  obtains u x d2 where "RecordUserLogin (wb_env W) d identity = (Inr u, d2)"
    "x \<in> set (users d1)" "userFromRow x = Inr u" "users d1 = users d2"
    "w1 = setSessionCookie W w r (NewSessionToken (wb_draw W)) (time_add (server_now W) sessionLifetime)"
    "\<lparr>sr_token_hash = SessionTokenHash_String (SessionToken_Hash (NewSessionToken (wb_draw W))),
      sr_user_id = ur_id x, sr_creation_time = formatTime (server_now W),
      sr_expiration_time = formatTime (time_add (server_now W) sessionLifetime)\<rparr> \<in> set (sessions d1)"
    "d1 = (revoke_request_session (wb_env W) r d2)\<lparr>sessions := sessions d1\<rparr>"
proof -
  obtain u d2 where L: "RecordUserLogin (wb_env W) d identity = (Inr u, d2)"
    and S: "InsertSession (wb_env W) (revoke_request_session (wb_env W) r d2)
              \<lparr>ses_TokenHash = SessionToken_Hash (NewSessionToken (wb_draw W)), ses_UserID = usr_ID u,
               ses_Created = server_now W, ses_Expires = time_add (server_now W) sessionLifetime\<rparr> = (Inr (), d1)"
    and w1: "w1 = setSessionCookie W w r (NewSessionToken (wb_draw W)) (time_add (server_now W) sessionLifetime)"
    using assms by (auto simp: completeLogin_def Let_def split: prod.splits sum.splits)
  obtain x where x: "x \<in> set (users d2)" "userFromRow x = Inr u" using RecordUserLogin_user [OF L] .
  note d1 = InsertSession_ok [OF S, THEN conjunct1]
  have "users d1 = users d2" by (simp add: d1 revoke_request_session_frame)
  with that [OF L _ x(2) _ w1] x userFromRow_fields [OF x(2)] show ?thesis
    by (simp add: d1 session_row_of_def)
qed

text \<open>The cookie set by a login is one that the next requests are recognised by.\<close>

lemma completeLogin_session:
  assumes L: "completeLogin W w r identity d = (None, w1, d1)" and "keys_ok d1"
    and cookie: "request_Cookie r' sessionCookieName = Some (SessionToken_String (NewSessionToken (wb_draw W)))"
    and law: "datetime_law E'" "text_range (st_now E')" "text_range (time_add (server_now W) sessionLifetime)"
    and live: "unix_secs (st_now E') < unix_secs (time_add (server_now W) sessionLifetime)"
    and "\<not> sq_fault E' OpGetSessionUser 0"
  shows "\<exists>u d2. RecordUserLogin (wb_env W) d identity = (Inr u, d2) \<and> session_user E' r' d1 = Some u"
proof -
  let ?t = "NewSessionToken (wb_draw W)"
  obtain u x d2 where RL: "RecordUserLogin (wb_env W) d identity = (Inr u, d2)"
    and x: "x \<in> set (users d1)" "userFromRow x = Inr u"
    and s: "\<lparr>sr_token_hash = SessionTokenHash_String (SessionToken_Hash ?t),
      sr_user_id = ur_id x, sr_creation_time = formatTime (server_now W),
      sr_expiration_time = formatTime (time_add (server_now W) sessionLifetime)\<rparr> \<in> set (sessions d1)"
    using completeLogin_ok [OF L] by metis
  have "request_token r' = Some ?t"
    using cookie NewSessionToken_accepted [of "wb_draw W"] by (simp add: request_token_def)
  moreover have "GetSessionUser E' d1 (SessionToken_Hash ?t) = userFromRow x"
    by (rule GetSessionUser_live [OF assms(2) x(1) s])
      (use session_live_iff [OF law] live assms(8) in simp_all)
  ultimately show ?thesis by (simp add: session_user_def x(2) RL)
qed

lemma revoked_session:
  assumes "request_token r = Some token" and "\<not> sq_fault E OpDeleteSession 0"
  shows "\<forall>s \<in> set (sessions (revoke_request_session E r d)).
           sr_token_hash s \<noteq> SessionTokenHash_String (SessionToken_Hash token)"
  using assms by (simp add: revoke_request_session_def DeleteSession_def)

text \<open>Logging out ends the session: the cookie identifies nobody any more.\<close>

lemma authDelete_session:
  assumes "authDelete W w r d = (w1, d1)" and "\<not> sq_fault (wb_env W) OpDeleteSession 0"
    and "request_Cookie r' sessionCookieName = request_Cookie r sessionCookieName"
  shows "session_user E' r' d1 = None"
proof (cases "request_token r")
  case None
  then show ?thesis using assms(3) by (simp add: session_user_def request_token_def)
next
  case (Some token)
  have d1: "d1 = revoke_request_session (wb_env W) r d" using assms(1) by (simp add: authDelete_def)
  have t': "request_token r' = Some token" using Some assms(3) by (simp add: request_token_def)
  have "GetSessionUser E' d1 (SessionToken_Hash token) \<noteq> Inr u" for u
    using revoked_session [OF Some assms(2), of d] by (auto simp: d1 elim: GetSessionUser_Inr)
  then show ?thesis by (simp add: session_user_def t' split: sum.splits)
qed

end
