(* ===== verification/Ownership.thy ===== *)
theory Ownership
  imports Auth
begin

text \<open>
  \<open>handlers/ownership.go\<close> and \<open>delete.go\<close>: who may see, edit or delete an entry or a guest link.
  A helper that writes the response itself when it fails is a sum: the response, or the value.
\<close>

definition is_entry_not_found :: "store_error \<Rightarrow> bool" where
  "is_entry_not_found e = (case e of EntryNotFoundError _ \<Rightarrow> True | _ \<Rightarrow> False)"

definition is_guest_link_not_found :: "store_error \<Rightarrow> bool" where
  "is_guest_link_not_found e = (case e of GuestLinkNotFoundError _ \<Rightarrow> True | _ \<Rightarrow> False)"

definition manageableEntry :: "web \<Rightarrow> response \<Rightarrow> request \<Rightarrow> db \<Rightarrow> entry_id \<Rightarrow> response + upload_metadata" where
  "manageableEntry W w r d i =
     (case GetEntryMetadata (wb_env W) d i of
        Inl e \<Rightarrow>
          (if is_entry_not_found e then Inl (http_Error w ''entry not found'' None 404)
           else Inl (http_Error w ''failed to retrieve entry'' None 500))
      | Inr entry \<Rightarrow>
          (if \<not> User_CanManageEntry (fst (currentUser r)) entry
           then Inl (http_Error w ''entry not found'' None 404)
           else Inr entry))"

definition manageableGuestLink :: "web \<Rightarrow> response \<Rightarrow> request \<Rightarrow> db \<Rightarrow> guest_link_id \<Rightarrow> response + guest_link" where
  "manageableGuestLink W w r d i =
     (case GetGuestLink (wb_env W) d i of
        Inl e \<Rightarrow>
          (if is_guest_link_not_found e then Inl (http_Error w ''guest link not found'' None 404)
           else Inl (http_Error w ''failed to retrieve guest link'' None 500))
      | Inr gl \<Rightarrow>
          (if \<not> User_OwnsGuestLink (fst (currentUser r)) gl
           then Inl (http_Error w ''guest link not found'' None 404)
           else Inr gl))"

definition entryDelete :: handler where
  "entryDelete W w r d =
     (case EntryIDFromString (mux_Var r ''id'') of
        Inl e \<Rightarrow> (http_Error w ''bad entry ID: '' (Some (WebDomainError e)) 400, d)
      | Inr i \<Rightarrow>
          (case manageableEntry W w r d i of
             Inl w1 \<Rightarrow> (w1, d)
           | Inr _ \<Rightarrow>
               (case DeleteEntry (wb_env W) d i of
                  (Inl _, d1) \<Rightarrow> (http_Error w ''failed to delete entry'' None 500, d1)
                | (Inr _, d1) \<Rightarrow> (w, d1))))"

section \<open>Management rights\<close>

lemma manageableEntry_Inr:
  "manageableEntry W w r d i = Inr entry \<longleftrightarrow>
     GetEntryMetadata (wb_env W) d i = Inr entry \<and> User_CanManageEntry (fst (currentUser r)) entry"
  by (auto simp: manageableEntry_def split: sum.splits if_splits)

lemma manageableEntry_missing:
  "GetEntryMetadata (wb_env W) d i = Inl (EntryNotFoundError i) \<Longrightarrow>
     manageableEntry W w r d i = Inl (http_Error w ''entry not found'' None 404)"
  by (simp add: manageableEntry_def is_entry_not_found_def)

lemma manageableEntry_foreign:
  "GetEntryMetadata (wb_env W) d i = Inr entry \<Longrightarrow> \<not> User_CanManageEntry (fst (currentUser r)) entry \<Longrightarrow>
     manageableEntry W w r d i = Inl (http_Error w ''entry not found'' None 404)"
  by (simp add: manageableEntry_def)

lemma manageableGuestLink_Inr:
  "manageableGuestLink W w r d i = Inr gl \<longleftrightarrow>
     GetGuestLink (wb_env W) d i = Inr gl \<and> User_OwnsGuestLink (fst (currentUser r)) gl"
  by (auto simp: manageableGuestLink_def split: sum.splits if_splits)

text \<open>
  The owner of an entry is the one in its row, so a user without administrator rights manages
  exactly the entries whose rows carry their ID.
\<close>

lemma manages_row:
  assumes "GetEntryMetadata E d i = Inr entry" and "keys_ok d" and "x \<in> set (entries d)"
    and "er_id x = EntryID_value i" and "1 \<le> UserID_Int64 (usr_ID u)"
  shows "User_CanManageEntry u entry \<longleftrightarrow>
    usr_IsAdmin u \<or> er_owner_user_id x = Some (UserID_Int64 (usr_ID u))"
proof -
  obtain y where y: "y \<in> set (entries d)" "er_id y = EntryID_value i" "entry_from_row E d i y = Inr entry"
    using GetEntryMetadata_Inr [OF assms(1)] .
  have "inj_on er_id (set (entries d))" using assms(2) by (simp add: keys_ok_def distinct_map)
  then have "y = x" using assms(3,4) y(1,2) by (metis inj_onD)
  note owner = entry_from_row_fields(3) [OF y(3), unfolded this]
  show ?thesis
    using assms(5) by (cases "usr_ID u")
      (auto simp: User_CanManageEntry_def owner UserID_Empty_def NoOwner_def split: option.splits)
qed

text \<open>Whatever a deletion changed, the requester could manage.\<close>

lemma entryDelete_changes:
  assumes "entryDelete W w r d = (w1, d1)" and "d1 \<noteq> d"
  shows "\<exists>i entry. EntryIDFromString (mux_Var r ''id'') = Inr i \<and> manageableEntry W w r d i = Inr entry \<and>
    w1 = w \<and> DeleteEntry (wb_env W) d i = (Inr (), d1)"
  using assms DeleteEntry_atomic [of "wb_env W" d]
  by (auto simp: entryDelete_def split: sum.splits prod.splits)

end
