(* ===== verification/Upload.thy ===== *)
theory Upload
  imports Ownership
begin

text \<open>
  \<open>handlers/upload.go\<close>: uploads by users and by guests, and the editing of an entry's metadata.
  The helpers return an error or a value; the error of a failed insertion is the value
  \<open>dbError{err}\<close>, and the handlers look for a pointer to one.
\<close>

section \<open>Guest link identifiers\<close>

definition GuestLinkIDLength :: nat where "GuestLinkIDLength = 16"

definition guestLinkIDCharacters :: string where
  "guestLinkIDCharacters = ''abcdefghijkmnopqrstuvwxyzABCDEFGHJKLMNPQRSTUVWXYZ23456789''"

definition generateGuestLinkID :: "(nat \<Rightarrow> nat) \<Rightarrow> guest_link_id" where
  "generateGuestLinkID draw = random_String draw GuestLinkIDLength guestLinkIDCharacters"

fun bad_link_rune :: "nat list \<Rightarrow> nat option" where
  "bad_link_rune [] = None"
| "bad_link_rune (c # cs) =
     (if c \<notin> byte_of ` set guestLinkIDCharacters then Some c else bad_link_rune cs)"

definition parseGuestLinkID :: "string \<Rightarrow> web_error + guest_link_id" where
  "parseGuestLinkID s =
     (if length s \<noteq> GuestLinkIDLength then Inl (GuestLinkIDBadLength (length s))
      else case bad_link_rune (runes s) of
             Some c \<Rightarrow> Inl (GuestLinkIDBadCharacter c)
           | None \<Rightarrow> Inr s)"

section \<open>Expiration limits\<close>

definition parseExpirationFromRequest :: "web \<Rightarrow> request \<Rightarrow> web_error + expiration_time" where
  "parseExpirationFromRequest W r =
     (case parse_Expiration (query_Get r ''expiration'') (server_now W) of
        Inl e \<Rightarrow> Inl (WebParseError e)
      | Inr et \<Rightarrow> Inr et)"

definition parseGuestExpirationFromRequest :: "web \<Rightarrow> request \<Rightarrow> guest_link \<Rightarrow> web_error + expiration_time" where
  "parseGuestExpirationFromRequest W r gl =
     (let expirationParam = query_Get r ''expiration'' in
      if expirationParam = [] then Inr (FileLifetime_ExpirationFromTime (gl_MaxFileLifetime gl) (server_now W))
      else case parse_Expiration expirationParam (server_now W) of
             Inl e \<Rightarrow> Inl (WebParseError e)
           | Inr requestedExpiration \<Rightarrow>
               (let maxPermittedExpiration =
                      FileLifetime_ExpirationFromTime (gl_MaxFileLifetime gl) (server_now W)
                in if time_after requestedExpiration maxPermittedExpiration then Inl BeyondGuestLimit
                   else Inr requestedExpiration))"

definition enforceMaxFileLifetimeForUser :: "web \<Rightarrow> db \<Rightarrow> user \<Rightarrow> expiration_time \<Rightarrow> web_error + unit" where
  "enforceMaxFileLifetimeForUser W d u expiration =
     (if usr_IsAdmin u then Inr ()
      else case ReadSettings (wb_env W) d of
             Inl e \<Rightarrow> Inl (WebStoreError e)
           | Inr st \<Rightarrow>
               (if FileLifetime_Equal (set_MaxNonAdminFileLifetime st) FileLifetimeInfinite then Inr ()
                else (let maxPermittedExpiration =
                            FileLifetime_ExpirationFromTime (set_MaxNonAdminFileLifetime st) (server_now W)
                      in if expiration = NeverExpire \<or> time_after expiration maxPermittedExpiration
                         then Inl BeyondUserLimit else Inr ())))"

section \<open>Inserting an uploaded file\<close>

definition parseContentType :: "string \<Rightarrow> web_error + content_type" where
  "parseContentType s = Inr s"

definition map_error :: "('e \<Rightarrow> 'f) \<Rightarrow> 'e + 'a \<Rightarrow> 'f + 'a" where
  "map_error f r = (case r of Inl e \<Rightarrow> Inl (f e) | Inr a \<Rightarrow> Inr a)"

lemma map_error_Inr [simp]: "map_error f r = Inr a \<longleftrightarrow> r = Inr a"
  by (cases r) (simp_all add: map_error_def)

text \<open>\<open>FormValue\<close> of a parsed multipart form: the first value under the key, or the empty string.\<close>

definition upload_passphrase :: "guest_link_id \<Rightarrow> string \<Rightarrow> web_error + download_passphrase" where
  "upload_passphrase guestLinkID raw =
     (if raw = [] then Inr NoDownloadPassphrase
      else if guestLinkID \<noteq> [] then Inl GuestPassphrase
      else map_error WebDomainError (NewDownloadPassphrase raw))"

definition upload_from_request ::
  "web \<Rightarrow> request \<Rightarrow> expiration_time \<Rightarrow> guest_link_id \<Rightarrow> user_id \<Rightarrow> web_error + source \<times> upload_metadata" where
  "upload_from_request W r expiration guestLinkID ownerID =
     and_then (of_option MultipartError (ParseMultipartForm r)) (\<lambda>(file, form).
     and_then (of_option MissingFile file) (\<lambda>part.
     and_then (map_error WebDomainError (FileSizeFromInt64 (fp_size part))) (\<lambda>fileSize.
     and_then (map_error WebParseError (parse_Filename (fp_filename part))) (\<lambda>name.
     and_then (parseContentType (fp_content_type part)) (\<lambda>contentType.
     and_then (map_error WebParseError (parse_FileNote (lookup_or_empty form ''note''))) (\<lambda>note.
     and_then (ensure (\<not> (guestLinkID \<noteq> [] \<and> note \<noteq> None)) GuestNote) (\<lambda>_.
     and_then (upload_passphrase guestLinkID (lookup_or_empty form ''downloadPassphrase'')) (\<lambda>pass.
       Inr (fp_reader part,
            \<lparr>um_ID = NewEntryID (wb_draw W), um_Filename = name, um_Note = note, um_OwnerID = ownerID,
             um_OwnerUsername = Username [], um_ContentType = contentType, um_Uploaded = server_now W,
             um_Expires = expiration, um_Size = fileSize, um_GuestLink = NoGuestLink\<lparr>gl_ID := guestLinkID\<rparr>,
             um_DownloadCount = 0, um_DownloadPassphrase = pass\<rparr>)))))))))"

definition insertFileFromRequest ::
  "web \<Rightarrow> request \<Rightarrow> db \<Rightarrow> expiration_time \<Rightarrow> guest_link_id \<Rightarrow> user_id \<Rightarrow> (web_error + entry_id) \<times> db" where
  "insertFileFromRequest W r d expiration guestLinkID ownerID =
     (case upload_from_request W r expiration guestLinkID ownerID of
        Inl e \<Rightarrow> (Inl e, d)
      | Inr (reader, md) \<Rightarrow>
          (case InsertEntry (wb_env W) d reader md of
             (Inl e, d1) \<Rightarrow> (Inl (WebDbError e), d1)
           | (Inr _, d1) \<Rightarrow> (Inr (um_ID md), d1)))"

text \<open>
  Errors as Go sees them: the dynamic type of an error, the errors that \<open>Unwrap\<close> leads to (only
  \<open>dbError\<close> declares it among those of an upload), and \<open>errors.AsType\<close>, which looks for the first of
  them with the type asked for. The handlers ask for the pointer type, while \<open>insertFileFromRequest\<close>
  returns a value of \<open>dbError\<close>. All types declared elsewhere are one. A panic is not an error at all.
\<close>

datatype go_type = TypeName string | ElsewhereDeclared | PointerTo go_type

fun dynamic_type :: "web_error \<Rightarrow> go_type" where
  "dynamic_type (WebDbError e) = TypeName ''dbError''"
| "dynamic_type e = ElsewhereDeclared"

fun error_chain :: "web_error \<Rightarrow> web_error list" where
  "error_chain (WebDbError e) = [WebDbError e, WebStoreError e]"
| "error_chain e = [e]"

definition errors_AsType :: "go_type \<Rightarrow> web_error \<Rightarrow> web_error option" where
  "errors_AsType T e = find (\<lambda>x. dynamic_type x = T) (error_chain e)"

definition upload_failed :: "response \<Rightarrow> web_error \<Rightarrow> response" where
  "upload_failed w e =
     (if e = WebDbError PanicError then aborted w
      else case errors_AsType (PointerTo (TypeName ''dbError'')) e of
             Some _ \<Rightarrow> http_Error w ''failed to insert file into database'' None 500
           | None \<Rightarrow> http_Error w ''invalid request: '' (Some e) 400)"

section \<open>Handlers\<close>

definition entryPost :: handler where
  "entryPost W w r d =
     (case parseExpirationFromRequest W r of
        Inl e \<Rightarrow> (http_Error w ''Invalid expiration URL parameter: '' (Some e) 400, d)
      | Inr expiration \<Rightarrow>
          (let u = fst (currentUser r) in
           case enforceMaxFileLifetimeForUser W d u expiration of
             Inl e \<Rightarrow> (http_Error w ''Invalid expiration: '' (Some e) 400, d)
           | Inr _ \<Rightarrow>
               (case insertFileFromRequest W r d expiration [] (usr_ID u) of
                  (Inl e, d1) \<Rightarrow> (upload_failed w e, d1)
                | (Inr i, d1) \<Rightarrow> (respondJSON w (IDBody (EntryID_value i)), d1))))"

definition guestEntryPost :: handler where
  "guestEntryPost W w r d =
     (case parseGuestLinkID (mux_Var r ''guestLinkID'') of
        Inl e \<Rightarrow> (http_Error w ''Invalid guest link ID: '' (Some e) 400, d)
      | Inr guestLinkID \<Rightarrow>
          (case GetGuestLink (wb_env W) d guestLinkID of
             Inl e \<Rightarrow>
               (if is_guest_link_not_found e then (http_Error w ''Invalid guest link ID'' None 404, d)
                else (http_Error w ''Failed to retrieve guest link'' None 500, d))
           | Inr gl \<Rightarrow>
               (if \<not> GuestLink_IsActive (wb_wall W) gl
                then (http_Error w ''Guest link is no longer active'' None 401, d)
                else
                  (let r1 = (case gl_MaxFileBytes gl of None \<Rightarrow> r | Some n \<Rightarrow> MaxBytesReader r (sint n)) in
                   case parseGuestExpirationFromRequest W r1 gl of
                     Inl e \<Rightarrow> (http_Error w ''Invalid expiration: '' (Some e) 400, d)
                   | Inr expiration \<Rightarrow>
                       (case insertFileFromRequest W r1 d expiration guestLinkID (UserID 0) of
                          (Inl e, d1) \<Rightarrow> (upload_failed w e, d1)
                        | (Inr i, d1) \<Rightarrow>
                            (if clientAcceptsJson r then (respondJSON w (IDBody (EntryID_value i)), d1)
                             else ((set_header ''Content-Type'' ''text/plain'' w)\<lparr>rs_body :=
                                     TextBody (baseURLFromRequest W r @ ''/-'' @ EntryID_value i @
                                               [char_of (13::nat), char_of (10::nat)])\<rparr>, d1)))))))"

definition entryMetadataFromRequest :: "web \<Rightarrow> request \<Rightarrow> web_error + upload_metadata" where
  "entryMetadataFromRequest W r =
     and_then (of_option DecodeError (decode_json r)) (\<lambda>fs.
     and_then (of_option DecodeError (string_field ''filename'' fs)) (\<lambda>rawFilename.
     and_then (of_option DecodeError (string_field ''expiration'' fs)) (\<lambda>rawExpiration.
     and_then (of_option DecodeError (string_field ''note'' fs)) (\<lambda>rawNote.
     and_then (of_option DecodeError (string_field ''downloadPassphrase'' fs)) (\<lambda>rawPassphrase.
     and_then (map_error WebParseError (parse_Filename rawFilename)) (\<lambda>name.
     and_then (if rawExpiration = [] then Inr NeverExpire
               else map_error WebParseError (parse_Expiration rawExpiration (server_now W))) (\<lambda>expiration.
     and_then (map_error WebParseError (parse_FileNote rawNote)) (\<lambda>note.
     and_then (if rawPassphrase = [] then Inr NoDownloadPassphrase
               else map_error WebDomainError (NewDownloadPassphrase rawPassphrase)) (\<lambda>pass.
       Inr \<lparr>um_ID = EntryID [], um_Filename = name, um_Note = note, um_OwnerID = UserID 0,
            um_OwnerUsername = Username [], um_ContentType = [], um_Uploaded = zero_time,
            um_Expires = expiration, um_Size = FileSize 0, um_GuestLink = NoGuestLink,
            um_DownloadCount = 0, um_DownloadPassphrase = pass\<rparr>)))))))))"

definition entryPut :: handler where
  "entryPut W w r d =
     (case EntryIDFromString (mux_Var r ''id'') of
        Inl e \<Rightarrow> (http_Error w ''bad entry ID: '' (Some (WebDomainError e)) 400, d)
      | Inr i \<Rightarrow>
          (case manageableEntry W w r d i of
             Inl w1 \<Rightarrow> (w1, d)
           | Inr _ \<Rightarrow>
               (case entryMetadataFromRequest W r of
                  Inl e \<Rightarrow> (http_Error w ''Bad request: '' (Some e) 400, d)
                | Inr md \<Rightarrow>
                    (case enforceMaxFileLifetimeForUser W d (fst (currentUser r)) (um_Expires md) of
                       Inl e \<Rightarrow> (http_Error w ''Invalid expiration: '' (Some e) 400, d)
                     | Inr _ \<Rightarrow>
                         (case UpdateEntryMetadata (wb_env W) d i md of
                            (Inl e, d1) \<Rightarrow>
                              (if is_entry_not_found e then (http_Error w ''Invalid entry ID'' None 404, d1)
                               else (http_Error w ''Failed to save new entry data'' None 500, d1))
                          | (Inr _, d1) \<Rightarrow> (w, d1))))))"

section \<open>Guest link identifiers and limits\<close>

lemma bad_link_rune_None:
  "bad_link_rune cs = None \<longleftrightarrow> list_all (\<lambda>c. c \<in> byte_of ` set guestLinkIDCharacters) cs"
  by (induction cs) auto

lemma guestLinkIDCharacters_eq: "guestLinkIDCharacters = entryIDCharacters"
  by (simp add: guestLinkIDCharacters_def entryIDCharacters_def)

lemma parseGuestLinkID_iff [validate_simps]:
  "parseGuestLinkID s = Inr i \<longleftrightarrow> length s = 16 \<and> set s \<subseteq> set guestLinkIDCharacters \<and> i = s"
  using bad_link_rune_None [of "runes s"] runes_in_ascii_alphabet [OF ascii_entryIDCharacters, of s]
  by (auto simp: parseGuestLinkID_def GuestLinkIDLength_def guestLinkIDCharacters_eq split: option.splits)

lemma parseGuestLinkID_generated: "parseGuestLinkID (generateGuestLinkID draw) = Inr (generateGuestLinkID draw)"
  by (simp add: parseGuestLinkID_iff generateGuestLinkID_def GuestLinkIDLength_def)
    (rule random_String_subset, simp add: guestLinkIDCharacters_def)

text \<open>An expiration a guest may use is at most the link's lifetime away.\<close>

lemma guest_expiration_limit:
  assumes "parseGuestExpirationFromRequest W r gl = Inr et"
  shows "\<not> time_after et (FileLifetime_ExpirationFromTime (gl_MaxFileLifetime gl) (server_now W))"
  using assms
  by (auto simp: parseGuestExpirationFromRequest_def Let_def time_after_def split: sum.splits if_splits)

lemma user_expiration_limit:
  assumes "enforceMaxFileLifetimeForUser W d u et = Inr x" and "\<not> usr_IsAdmin u"
    and "ReadSettings (wb_env W) d = Inr st" and "set_MaxNonAdminFileLifetime st \<noteq> FileLifetimeInfinite"
  shows "et \<noteq> NeverExpire \<and>
    \<not> time_after et (FileLifetime_ExpirationFromTime (set_MaxNonAdminFileLifetime st) (server_now W))"
  using assms by (auto simp: enforceMaxFileLifetimeForUser_def Let_def split: if_splits)

section \<open>What an upload stores\<close>

lemma upload_from_request_ok:
  assumes "upload_from_request W r expiration g owner = Inr (src, md)"
  obtains part form where "ParseMultipartForm r = Some (Some part, form)" "src = fp_reader part"
    "FileSizeFromInt64 (fp_size part) = Inr (um_Size md)" "parse_Filename (fp_filename part) = Inr (um_Filename md)"
    "parse_FileNote (lookup_or_empty form ''note'') = Inr (um_Note md)"
    "upload_passphrase g (lookup_or_empty form ''downloadPassphrase'') = Inr (um_DownloadPassphrase md)"
    "um_ID md = NewEntryID (wb_draw W)" "um_OwnerID md = owner" "um_Uploaded md = server_now W"
    "um_Expires md = expiration" "gl_ID (um_GuestLink md) = g" "g \<noteq> [] \<longrightarrow> um_Note md = None"
    "um_ContentType md = fp_content_type part"
proof -
  obtain fl form where f: "ParseMultipartForm r = Some (fl, form)"
    using assms by (cases "ParseMultipartForm r") (auto simp: upload_from_request_def)
  then obtain part where p: "fl = Some part"
    using assms by (cases fl) (auto simp: upload_from_request_def)
  have "\<not> (g \<noteq> [] \<and> um_Note md \<noteq> None)"
    using assms by (auto simp: upload_from_request_def f p and_then_eq_Inr_iff ensure_def split: if_splits)
  with f p assms that [of part form] show ?thesis
    by (auto simp: upload_from_request_def and_then_eq_Inr_iff parseContentType_def)
qed

lemma insertFileFromRequest_ok:
  assumes "insertFileFromRequest W r d expiration g owner = (Inr i, d1)"
  obtains src md where "upload_from_request W r expiration g owner = Inr (src, md)"
    "InsertEntry (wb_env W) d src md = (Inr (), d1)" "i = um_ID md"
  using assms by (auto simp: insertFileFromRequest_def split: sum.splits prod.splits)

lemma insertFileFromRequest_err:
  assumes "insertFileFromRequest W r d expiration g owner = (Inl e, d1)"
  shows "\<exists>rs. d1 = d\<lparr>entries_data := entries_data d @ rs\<rparr> \<and>
    (\<forall>x \<in> set rs. cr_id x = EntryID_value (NewEntryID (wb_draw W)))"
proof (cases "upload_from_request W r expiration g owner")
  case (Inl x)
  with assms show ?thesis by (intro exI [of _ "[]"]) (simp add: insertFileFromRequest_def)
next
  case (Inr p)
  obtain src md where p: "p = (src, md)" by (cases p)
  with Inr have u: "upload_from_request W r expiration g owner = Inr (src, md)" by simp
  obtain x where "InsertEntry (wb_env W) d src md = (Inl x, d1)"
    using assms u by (auto simp: insertFileFromRequest_def split: sum.splits prod.splits)
  from InsertEntry_err [OF this] upload_from_request_ok [OF u] show ?thesis by metis
qed

text \<open>A failing insertion is answered as if the client were at fault: the pointer type is never found.\<close>

lemma no_dbError_pointer [simp]: "errors_AsType (PointerTo T) e = None"
  by (cases e) (simp_all add: errors_AsType_def)

lemma upload_failed_status:
  "e \<noteq> WebDbError PanicError \<Longrightarrow> upload_failed w e = http_Error w ''invalid request: '' (Some e) 400"
  by (simp add: upload_failed_def)

lemma upload_failed_not_200: "rs_status (upload_failed w e) \<noteq> 200"
  by (simp add: upload_failed_def)

lemma entryPost_stores:
  assumes "entryPost W w r d = (w1, d1)" and "rs_status w1 = 200"
  obtains src md where
    "parse_Expiration (query_Get r ''expiration'') (server_now W) = Inr (um_Expires md)"
    "enforceMaxFileLifetimeForUser W d (fst (currentUser r)) (um_Expires md) = Inr ()"
    "upload_from_request W r (um_Expires md) [] (usr_ID (fst (currentUser r))) = Inr (src, md)"
    "InsertEntry (wb_env W) d src md = (Inr (), d1)" "rs_body w1 = IDBody (EntryID_value (um_ID md))"
proof -
  obtain et where et: "parseExpirationFromRequest W r = Inr et"
    using assms by (cases "parseExpirationFromRequest W r") (auto simp: entryPost_def)
  have lim: "enforceMaxFileLifetimeForUser W d (fst (currentUser r)) et = Inr ()"
    using assms et by (cases "enforceMaxFileLifetimeForUser W d (fst (currentUser r)) et")
      (auto simp: entryPost_def Let_def)
  obtain i where ins: "insertFileFromRequest W r d et [] (usr_ID (fst (currentUser r))) = (Inr i, d1)"
    and body: "rs_body w1 = IDBody (EntryID_value i)"
    using assms et lim upload_failed_not_200
    by (auto simp: entryPost_def Let_def split: prod.splits sum.splits)
  obtain src md where u: "upload_from_request W r et [] (usr_ID (fst (currentUser r))) = Inr (src, md)"
    "InsertEntry (wb_env W) d src md = (Inr (), d1)" "i = um_ID md"
    using insertFileFromRequest_ok [OF ins] .
  have e: "um_Expires md = et" using upload_from_request_ok [OF u(1)] by metis
  have "parse_Expiration (query_Get r ''expiration'') (server_now W) = Inr et"
    using et by (auto simp: parseExpirationFromRequest_def split: sum.splits)
  with that [of md src] u body lim e show ?thesis by simp
qed

lemma guestEntryPost_stores:
  assumes "guestEntryPost W w r d = (w1, d1)" and "rs_status w1 = 200"
  obtains g gl src md r1 where "parseGuestLinkID (mux_Var r ''guestLinkID'') = Inr g"
    "GetGuestLink (wb_env W) d g = Inr gl" "GuestLink_IsActive (wb_wall W) gl"
    "r1 = (case gl_MaxFileBytes gl of None \<Rightarrow> r | Some n \<Rightarrow> MaxBytesReader r (sint n))"
    "parseGuestExpirationFromRequest W r1 gl = Inr (um_Expires md)"
    "upload_from_request W r1 (um_Expires md) g (UserID 0) = Inr (src, md)"
    "InsertEntry (wb_env W) d src md = (Inr (), d1)"
proof -
  obtain g where g: "parseGuestLinkID (mux_Var r ''guestLinkID'') = Inr g"
    using assms by (cases "parseGuestLinkID (mux_Var r ''guestLinkID'')") (auto simp: guestEntryPost_def)
  obtain gl where gl: "GetGuestLink (wb_env W) d g = Inr gl"
    using assms g by (cases "GetGuestLink (wb_env W) d g") (auto simp: guestEntryPost_def split: if_splits)
  have active: "GuestLink_IsActive (wb_wall W) gl"
    using assms g gl by (auto simp: guestEntryPost_def split: if_splits)
  define r1 where "r1 = (case gl_MaxFileBytes gl of None \<Rightarrow> r | Some n \<Rightarrow> MaxBytesReader r (sint n))"
  note H = assms(1) [unfolded guestEntryPost_def g gl sum.case if_P [OF active] Let_def not_not if_False
      r1_def [symmetric]]
  obtain et where et: "parseGuestExpirationFromRequest W r1 gl = Inr et"
    using H assms(2) active by (cases "parseGuestExpirationFromRequest W r1 gl") auto
  obtain i where ins: "insertFileFromRequest W r1 d et g (UserID 0) = (Inr i, d1)"
    using H assms(2) active et upload_failed_not_200 by (auto split: prod.splits sum.splits if_splits)
  obtain src md where u: "upload_from_request W r1 et g (UserID 0) = Inr (src, md)"
    "InsertEntry (wb_env W) d src md = (Inr (), d1)" "i = um_ID md"
    using insertFileFromRequest_ok [OF ins] .
  have "et = um_Expires md" using upload_from_request_ok [OF u(1)] by metis
  from that [OF g gl active r1_def et [unfolded this] u(1) [unfolded this] u(2)] show ?thesis .
qed

text \<open>The limit on the body is a limit on every file in it.\<close>

definition form_fits :: "request \<Rightarrow> bool" where
  "form_fits r \<longleftrightarrow>
     (case rq_body r of
        MultipartBody (Some part) _ \<Rightarrow>
          fp_size part = int (length (concat (src_pieces (fp_reader part)))) \<and>
          fp_size part \<le> int (rq_body_bytes r)
      | _ \<Rightarrow> True)"

lemma upload_within_limit:
  assumes "upload_from_request W (MaxBytesReader r n) et g owner = Inr (src, md)" and "form_fits r" "0 \<le> n"
  shows "int (length (concat (src_pieces src))) \<le> n"
proof -
  obtain part form where p: "ParseMultipartForm (MaxBytesReader r n) = Some (Some part, form)" "src = fp_reader part"
    using upload_from_request_ok [OF assms(1)] by metis
  then show ?thesis
    using assms(2,3)
    by (auto simp: ParseMultipartForm_def MaxBytesReader_def within_limit_def form_fits_def
        split: request_body.splits if_splits)
qed

end
