(* ===== verification/Download.thy ===== *)
theory Download
  imports Ownership
begin

text \<open>
  \<open>handlers/download.go\<close>: serving the content of an entry, with its passphrase, and recording the
  download. \<open>http.ServeContent\<close> is modelled for requests with at most one byte range and without
  conditional headers: it asks the reader for its sz by seeking to the end, seeks to the start
  of the range, and copies with a buffer of 32 KiB. A copy that never ends gives no answer.
\<close>

section \<open>Serving a reader\<close>

partial_function (option) copy_n :: "env \<Rightarrow> db \<Rightarrow> reader \<Rightarrow> nat \<Rightarrow> string \<Rightarrow> string option" where
  "copy_n E d fr n acc =
     (if n = 0 then Some acc
      else case reader_Read E d fr (min 32768 n) of
             None \<Rightarrow> None
           | Some (bs, err, fr1) \<Rightarrow>
               (if err \<noteq> None then Some (acc @ bs)
                else copy_n E d fr1 (n - length bs) (acc @ bs)))"

datatype range_choice = WholeFile | Part int int | BadRange | NoOverlap

definition choose_range :: "int \<Rightarrow> byte_range option \<Rightarrow> range_choice" where
  "choose_range sz rng =
     (case rng of
        None \<Rightarrow> WholeFile
      | Some (RangeFromTo a b) \<Rightarrow>
          (if sz \<le> int a then (if sz = 0 then WholeFile else NoOverlap)
           else if b < a then BadRange
           else Part (int a) ((if sz \<le> int b then sz - 1 else int b) - int a + 1))
      | Some (RangeFrom a) \<Rightarrow>
          (if sz \<le> int a then (if sz = 0 then WholeFile else NoOverlap)
           else Part (int a) (sz - int a))
      | Some (RangeLast n) \<Rightarrow> (let i = min (int n) sz in Part (sz - i) i))"

definition content_range :: "int \<Rightarrow> int \<Rightarrow> int \<Rightarrow> string" where
  "content_range start len sz =
     ''bytes '' @ format_int start @ ''-'' @ format_int (start + len - 1) @ ''/'' @ format_int sz"

definition delete_header :: "string \<Rightarrow> response \<Rightarrow> response" where
  "delete_header k w = w\<lparr>rs_headers := filter (\<lambda>(k', _). k' \<noteq> k) (rs_headers w)\<rparr>"

definition serve_range_error :: "response \<Rightarrow> string \<Rightarrow> response" where
  "serve_range_error w msg = http_Error (delete_header ''Cache-Control'' w) msg None 416"

definition send_body :: "env \<Rightarrow> db \<Rightarrow> response \<Rightarrow> nat \<Rightarrow> reader \<Rightarrow> int \<Rightarrow> response" where
  "send_body E d w code fr n =
     (case copy_n E d fr (nat n) [] of
        None \<Rightarrow> w\<lparr>rs_body := Unanswered\<rparr>
      | Some bs \<Rightarrow>
          (set_header ''Content-Length'' (format_int n) (set_header ''Accept-Ranges'' ''bytes'' w))
          \<lparr>rs_status := code, rs_body := FileBody bs\<rparr>)"

definition ServeContent :: "env \<Rightarrow> response \<Rightarrow> request \<Rightarrow> reader \<Rightarrow> db \<Rightarrow> response" where
  "ServeContent E w r fr d =
     (let (sz, fr1) = reader_Seek fr 0 SeekEnd;
          (_, fr2) = reader_Seek fr1 0 SeekStart
      in case choose_range sz (rq_range r) of
           WholeFile \<Rightarrow> send_body E d w 200 fr2 sz
         | Part start len \<Rightarrow>
             send_body E d (set_header ''Content-Range'' (content_range start len sz) w) 206
               (snd (reader_Seek fr2 start SeekStart)) len
         | BadRange \<Rightarrow> serve_range_error w ''invalid range''
         | NoOverlap \<Rightarrow>
             serve_range_error (set_header ''Content-Range'' (''bytes */'' @ format_int sz) w)
               ''invalid range: failed to overlap'')"

section \<open>Entry content\<close>

text \<open>\<open>filepath.Ext\<close>: from the last dot of the last path element.\<close>

definition file_extension :: "string \<Rightarrow> string" where
  "file_extension p =
     (let tl = takeWhile (\<lambda>c. c \<noteq> CHR ''.'' \<and> c \<noteq> CHR ''/'') (rev p)
      in case drop (length tl) (rev p) of
           c # _ \<Rightarrow> (if c = CHR ''.'' then CHR ''.'' # rev tl else [])
         | [] \<Rightarrow> [])"

definition inferContentTypeFromFilename :: "web \<Rightarrow> filename \<Rightarrow> content_type option" where
  "inferContentTypeFromFilename W f =
     (let mimetype = wb_mime W (file_extension f) in if mimetype \<noteq> [] then Some mimetype else None)"

definition entry_content_type :: "web \<Rightarrow> upload_metadata \<Rightarrow> content_type" where
  "entry_content_type W entry =
     (let contentType = um_ContentType entry in
      if contentType = [] \<or> contentType = ''application/octet-stream''
      then (case inferContentTypeFromFilename W (um_Filename entry) of
              Some inferred \<Rightarrow> inferred
            | None \<Rightarrow> contentType)
      else contentType)"

definition content_headers :: "web \<Rightarrow> response \<Rightarrow> upload_metadata \<Rightarrow> response" where
  "content_headers W w entry =
     (let w1 = set_header ''Content-Security-Policy'' ''sandbox'' w;
          w2 = (if um_Filename entry \<noteq> []
                then set_header ''Content-Disposition''
                       (''filename='' @ [CHR 0x22] @ um_Filename entry @ [CHR 0x22]) w1
                else w1)
      in set_header ''Content-Type'' (entry_content_type W entry) w2)"

definition writeEntryContent :: "web \<Rightarrow> response \<Rightarrow> request \<Rightarrow> upload_metadata \<Rightarrow> db \<Rightarrow> response" where
  "writeEntryContent W w r entry d =
     (let w1 = content_headers W w entry in
      case ReadEntryFile (wb_env W) d (um_ID entry) of
        Inl _ \<Rightarrow> http_Error w1 ''failed to retrieve entry'' None 500
      | Inr entryFile \<Rightarrow> ServeContent (wb_env W) w1 r entryFile d)"

text \<open>\<open>net.SplitHostPort\<close>: the host, when the address has the form \<open>host:port\<close> or \<open>[host]:port\<close>.\<close>

definition SplitHostPort :: "string \<Rightarrow> string option" where
  "SplitHostPort s =
     (let port = rev (takeWhile (\<lambda>c. c \<noteq> CHR '':'') (rev s));
          i = length s - length port - 1
      in if CHR '':'' \<notin> set s then None
         else if has_prefix s ''['' then
           (let e = length (takeWhile (\<lambda>c. c \<noteq> CHR '']'') s) in
            if e = length s \<or> e + 1 \<noteq> i then None
            else if CHR ''['' \<in> set (drop 1 s) \<or> CHR '']'' \<in> set (drop (e + 1) s) then None
            else Some (drop 1 (take e s)))
         else if CHR '':'' \<in> set (take i s) \<or> CHR ''['' \<in> set s \<or> CHR '']'' \<in> set s then None
         else Some (take i s))"

definition recordDownload :: "env \<Rightarrow> db \<Rightarrow> entry_id \<Rightarrow> time \<Rightarrow> string \<Rightarrow> string \<Rightarrow> (store_error + unit) \<times> db" where
  "recordDownload E d i t remoteAddr userAgent =
     InsertEntryDownload E d i
       \<lparr>dr_Time = t, dr_ClientIP = (case SplitHostPort remoteAddr of Some ip \<Rightarrow> ip | None \<Rightarrow> remoteAddr),
        dr_UserAgent = userAgent\<rparr>"

text \<open>A failure to record is only logged; the database is the one after the statement.\<close>

definition serveEntryContent :: "web \<Rightarrow> response \<Rightarrow> request \<Rightarrow> upload_metadata \<Rightarrow> db \<Rightarrow> response \<times> db" where
  "serveEntryContent W w r entry d =
     (writeEntryContent W w r entry d,
      snd (recordDownload (wb_env W) d (um_ID entry) (server_now W) (rq_remote_addr r)
             (header_Get r ''User-Agent'')))"

section \<open>Handlers\<close>

definition canBypassPassphrase :: "request \<Rightarrow> upload_metadata \<Rightarrow> bool" where
  "canBypassPassphrase r entry \<longleftrightarrow>
     (let (u, ok) = currentUser r in ok \<and> User_CanManageEntry u entry)"

definition entryDownloadPath :: "entry_id \<Rightarrow> string" where
  "entryDownloadPath i = ''/-'' @ EntryID_value i"

definition entryUnlockPath :: "entry_id \<Rightarrow> string" where
  "entryUnlockPath i = entryDownloadPath i @ ''/unlock''"

text \<open>The part the download handlers share: the entry, or the response of a failed lookup.\<close>

definition lookup_entry :: "web \<Rightarrow> response \<Rightarrow> db \<Rightarrow> entry_id \<Rightarrow> response + upload_metadata" where
  "lookup_entry W w d i =
     (case GetEntryMetadata (wb_env W) d i of
        Inl e \<Rightarrow>
          (if is_entry_not_found e then Inl (http_Error w ''entry not found'' None 404)
           else Inl (http_Error w ''failed to retrieve entry'' None 500))
      | Inr entry \<Rightarrow> Inr entry)"

definition no_store :: "response \<Rightarrow> response" where
  "no_store w = set_header ''Cache-Control'' ''no-store'' w"

definition entryGet :: handler where
  "entryGet W w r d =
     (case EntryIDFromString (mux_Var r ''id'') of
        Inl e \<Rightarrow> (http_Error w ''bad entry ID: '' (Some (WebDomainError e)) 400, d)
      | Inr i \<Rightarrow>
          (case lookup_entry W w d i of
             Inl w1 \<Rightarrow> (w1, d)
           | Inr entry \<Rightarrow>
               (if \<not> DownloadPassphrase_Empty (um_DownloadPassphrase entry) then
                  (if \<not> canBypassPassphrase r entry
                   then (http_Redirect (no_store w) (entryUnlockPath (um_ID entry)) 302, d)
                   else serveEntryContent W (no_store w) r entry d)
                else serveEntryContent W w r entry d)))"

definition entryPreviewGet :: handler where
  "entryPreviewGet W w r d =
     (case EntryIDFromString (mux_Var r ''id'') of
        Inl e \<Rightarrow> (http_Error w ''bad entry ID: '' (Some (WebDomainError e)) 400, d)
      | Inr i \<Rightarrow>
          (case lookup_entry W w d i of
             Inl w1 \<Rightarrow> (w1, d)
           | Inr entry \<Rightarrow>
               (if \<not> DownloadPassphrase_Empty (um_DownloadPassphrase entry) then
                  (if \<not> canBypassPassphrase r entry
                   then (http_Error (no_store w) ''entry is passphrase-protected'' None 403, d)
                   else (writeEntryContent W (no_store w) r entry d, d))
                else (writeEntryContent W w r entry d, d))))"

definition entryUnlockGet :: handler where
  "entryUnlockGet W w r d =
     (case EntryIDFromString (mux_Var r ''id'') of
        Inl e \<Rightarrow> (http_Error w ''bad entry ID: '' (Some (WebDomainError e)) 400, d)
      | Inr i \<Rightarrow>
          (case lookup_entry W w d i of
             Inl w1 \<Rightarrow> (w1, d)
           | Inr entry \<Rightarrow>
               (if DownloadPassphrase_Empty (um_DownloadPassphrase entry) \<or> canBypassPassphrase r entry
                then (http_Redirect (no_store w) (entryDownloadPath (um_ID entry)) 302, d)
                else (renderPage W (no_store w) r ''title.download'' (UnlockPage False), d))))"

definition maxEntryUnlockRequestBytes :: int where "maxEntryUnlockRequestBytes = 4096"

text \<open>The error, if any, and the request as far as it was parsed.\<close>

definition parseEntryUnlockRequest :: "request \<Rightarrow> web_error option \<times> entry_id \<times> download_passphrase" where
  "parseEntryUnlockRequest r =
     (case EntryIDFromString (mux_Var r ''id'') of
        Inl e \<Rightarrow> (Some (WebDomainError e), EntryID [], NoDownloadPassphrase)
      | Inr i \<Rightarrow>
          (case ParseForm r of
             None \<Rightarrow> (Some DecodeError, EntryID [], NoDownloadPassphrase)
           | Some form \<Rightarrow>
               (case NewDownloadPassphrase (lookup_or_empty form ''passphrase'') of
                  Inl e \<Rightarrow> (Some (WebDomainError e), i, NoDownloadPassphrase)
                | Inr p \<Rightarrow> (None, i, p))))"

definition is_invalid_passphrase :: "web_error \<Rightarrow> bool" where
  "is_invalid_passphrase e =
     (case e of WebDomainError (ErrInvalidPassphrase _) \<Rightarrow> True | _ \<Rightarrow> False)"

definition entryUnlockPost :: handler where
  "entryUnlockPost W w r d =
     (let w1 = no_store w;
          (err, i, pass) = parseEntryUnlockRequest (MaxBytesReader r maxEntryUnlockRequestBytes)
      in if (case err of None \<Rightarrow> False | Some e \<Rightarrow> \<not> is_invalid_passphrase e)
         then (http_Error w1 ''invalid passphrase form'' None 400, d)
         else case lookup_entry W w1 d i of
                Inl w2 \<Rightarrow> (w2, d)
              | Inr entry \<Rightarrow>
                  (if DownloadPassphrase_Empty (um_DownloadPassphrase entry) \<or> canBypassPassphrase r entry
                   then (http_Redirect w1 (entryDownloadPath (um_ID entry)) 302, d)
                   else if \<not> DownloadPassphrase_Equal (um_DownloadPassphrase entry) pass
                   then (renderPage W (WriteHeader 401 w1) r ''title.download'' (UnlockPage True), d)
                   else serveEntryContent W w1 r entry d))"

section \<open>Serving a stored file\<close>

lemma copy_n_stored:
  assumes st: "stored d i L s" and ok: "reads_ok E"
  shows "rinv i (read_chunk L s) s pos fr \<Longrightarrow> copy_n E d fr n acc = Some (acc @ take n (drop pos s))"
proof (induction n arbitrary: pos fr acc rule: less_induct)
  case (less n)
  show ?case
  proof (cases "n = 0")
    case True
    then show ?thesis by (subst copy_n.simps) simp
  next
    case False
    define k where "k = min 32768 n"
    have k: "0 < k" "k \<le> n" using False by (auto simp: k_def)
    obtain fr1 where R: "reader_Read E d fr k =
        Some (take k (drop pos s), if length s - pos < k then Some EOF else None, fr1)"
      and inv: "rinv i (read_chunk L s) s (pos + min k (length s - pos)) fr1"
      using reader_Read_stored [OF st ok less.prems, of k] by blast
    show ?thesis
    proof (cases "length s - pos < k")
      case True
      then have "take k (drop pos s) = take n (drop pos s)" using k by simp
      then show ?thesis using False R True by (subst copy_n.simps) (simp add: k_def [symmetric])
    next
      case long: False
      then have len: "length (take k (drop pos s)) = k" by simp
      have inv': "rinv i (read_chunk L s) s (pos + k) fr1" using inv long by (simp add: min_def)
      have "copy_n E d fr1 (n - k) (acc @ take k (drop pos s)) =
          Some ((acc @ take k (drop pos s)) @ take (n - k) (drop (pos + k) s))"
        by (rule less.IH [OF _ inv']) (use k in simp)
      moreover have "take k (drop pos s) @ take (n - k) (drop (pos + k) s) = take n (drop pos s)"
        using k(2) by (metis add.commute drop_drop le_add_diff_inverse take_add)
      ultimately show ?thesis using False R long len by (subst copy_n.simps) (simp add: k_def [symmetric])
    qed
  qed
qed


lemma send_body_stored:
  assumes "stored d i L s" "reads_ok E" "rinv i (read_chunk L s) s pos fr" "0 \<le> n"
  shows "send_body E d w code fr n =
    (set_header ''Content-Length'' (format_int n) (set_header ''Accept-Ranges'' ''bytes'' w))
      \<lparr>rs_status := code, rs_body := FileBody (take (nat n) (drop pos s))\<rparr>"
  using copy_n_stored [OF assms(1-3), of "nat n" "[]"] by (simp add: send_body_def)

text \<open>The bytes a request asks for: all of them, or a slice.\<close>

definition range_bytes :: "byte_range option \<Rightarrow> string \<Rightarrow> string" where
  "range_bytes rng s =
     (case rng of
        None \<Rightarrow> s
      | Some (RangeFromTo a b) \<Rightarrow> take (Suc b - a) (drop a s)
      | Some (RangeFrom a) \<Rightarrow> drop a s
      | Some (RangeLast n) \<Rightarrow> drop (length s - n) s)"

definition range_ok :: "byte_range option \<Rightarrow> string \<Rightarrow> bool" where
  "range_ok rng s \<longleftrightarrow>
     (case rng of
        None \<Rightarrow> True
      | Some (RangeFromTo a b) \<Rightarrow> a < length s \<and> a \<le> b
      | Some (RangeFrom a) \<Rightarrow> a < length s
      | Some (RangeLast n) \<Rightarrow> True)"

lemma choose_range_ok:
  assumes "range_ok rng s"
  shows "choose_range (int (length s)) rng = WholeFile \<and> range_bytes rng s = s \<or>
    (\<exists>a n. choose_range (int (length s)) rng = Part (int a) (int n) \<and> a \<le> length s \<and>
       take n (drop a s) = range_bytes rng s)"
proof (cases rng)
  case None
  then show ?thesis by (simp add: choose_range_def range_bytes_def)
next
  case (Some b)
  show ?thesis
  proof (cases b)
    case (RangeFromTo x y)
    define n where "n = min (Suc y) (length s) - x"
    have xy: "x < length s" "x \<le> y" using assms Some RangeFromTo by (auto simp: range_ok_def)
    then have "choose_range (int (length s)) rng = Part (int x) (int n)"
      by (auto simp: choose_range_def Some RangeFromTo n_def min_def of_nat_diff)
    moreover have "take n (drop x s) = range_bytes rng s"
      by (auto simp: range_bytes_def Some RangeFromTo n_def min_def)
    ultimately show ?thesis using xy by force
  next
    case (RangeFrom x)
    then show ?thesis using assms Some
      by (intro disjI2 exI [of _ x] exI [of _ "length s - x"])
        (auto simp: choose_range_def range_ok_def range_bytes_def of_nat_diff)
  next
    case (RangeLast n)
    then show ?thesis using Some
      by (intro disjI2 exI [of _ "length s - n"] exI [of _ "min n (length s)"])
        (auto simp: choose_range_def range_bytes_def Let_def min_def of_nat_diff)
  qed
qed

lemma ServeContent_stored:
  assumes st: "stored d i L s" and ok: "reads_ok E" and inv: "rinv i (read_chunk L s) s 0 fr"
    and r: "range_ok (rq_range r) s"
  shows "rs_body (ServeContent E w r fr d) = FileBody (range_bytes (rq_range r) s)"
    and "rs_status (ServeContent E w r fr d) \<in> {200, 206}"
proof -
  define fr1 where "fr1 = snd (reader_Seek fr 0 SeekEnd)"
  define fr2 where "fr2 = snd (reader_Seek fr1 (int 0) SeekStart)"
  have s1: "reader_Seek fr 0 SeekEnd = (int (length s), fr1)" "rinv i (read_chunk L s) s (length s) fr1"
    using reader_Seek_rinv(2) [OF inv] by (auto simp: fr1_def prod_eq_iff)
  have s2: "reader_Seek fr1 (int 0) SeekStart = (int 0, fr2)" "rinv i (read_chunk L s) s 0 fr2"
    using reader_Seek_rinv(1) [OF s1(2), of 0] unfolding fr2_def by auto
  have body: "ServeContent E w r fr d =
      (case choose_range (int (length s)) (rq_range r) of
         WholeFile \<Rightarrow> send_body E d w 200 fr2 (int (length s))
       | Part start len \<Rightarrow>
           send_body E d (set_header ''Content-Range'' (content_range start len (int (length s))) w) 206
             (snd (reader_Seek fr2 start SeekStart)) len
       | BadRange \<Rightarrow> serve_range_error w ''invalid range''
       | NoOverlap \<Rightarrow>
           serve_range_error (set_header ''Content-Range'' (''bytes */'' @ format_int (int (length s))) w)
             ''invalid range: failed to overlap'')"
    using s1(1) s2(1) by (simp add: ServeContent_def)
  have "rs_body (ServeContent E w r fr d) = FileBody (range_bytes (rq_range r) s) \<and>
      rs_status (ServeContent E w r fr d) \<in> {200, 206}"
    using choose_range_ok [OF r]
  proof (elim disjE exE conjE)
    assume "choose_range (int (length s)) (rq_range r) = WholeFile" "range_bytes (rq_range r) s = s"
    then show ?thesis unfolding body by (simp add: send_body_stored [OF st ok s2(2)])
  next
    fix a n
    assume c: "choose_range (int (length s)) (rq_range r) = Part (int a) (int n)" "a \<le> length s"
      and b: "take n (drop a s) = range_bytes (rq_range r) s"
    have "rinv i (read_chunk L s) s a (snd (reader_Seek fr2 (int a) SeekStart))"
      using reader_Seek_rinv(1) [OF s2(2) c(2)] by blast
    then show ?thesis unfolding body c(1) by (simp add: send_body_stored [OF st ok] b)
  qed
  then show "rs_body (ServeContent E w r fr d) = FileBody (range_bytes (rq_range r) s)"
    and "rs_status (ServeContent E w r fr d) \<in> {200, 206}" by blast+
qed

lemma writeEntryContent_stored:
  assumes "stored d (EntryID_value (um_ID entry)) L s" and "reads_ok (wb_env W)" and "range_ok (rq_range r) s"
  shows "rs_body (writeEntryContent W w r entry d) = FileBody (range_bytes (rq_range r) s)"
    and "rs_status (writeEntryContent W w r entry d) \<in> {200, 206}"
proof -
  obtain fr where "NewReader (wb_env W) d (EntryID_value (um_ID entry)) = Inr fr"
    "rinv (EntryID_value (um_ID entry)) (read_chunk L s) s 0 fr"
    using NewReader_stored [OF assms(1,2)] by blast
  with ServeContent_stored [OF assms(1,2) this(2) assms(3)]
  show "rs_body (writeEntryContent W w r entry d) = FileBody (range_bytes (rq_range r) s)"
    and "rs_status (writeEntryContent W w r entry d) \<in> {200, 206}"
    by (simp_all add: writeEntryContent_def ReadEntryFile_def Let_def)
qed

section \<open>Passphrases\<close>

lemma lookup_entry_Inr: "lookup_entry W w d i = Inr entry \<longleftrightarrow> GetEntryMetadata (wb_env W) d i = Inr entry"
  by (auto simp: lookup_entry_def split: sum.splits)

lemma lookup_entry_Inl: "lookup_entry W w d i = Inl w1 \<Longrightarrow> \<exists>m c. w1 = http_Error w m None c"
  by (auto simp: lookup_entry_def split: sum.splits if_splits)

definition serves_file :: "response \<Rightarrow> bool" where
  "serves_file w = (case rs_body w of FileBody _ \<Rightarrow> True | Unanswered \<Rightarrow> True | _ \<Rightarrow> False)"

lemma serves_file_simps [simp]:
  "serves_file (http_Error w m e c) = False" "serves_file (http_Redirect w u c) = serves_file w"
  "serves_file (set_header k v w) = serves_file w" "serves_file (no_store w) = serves_file w"
  "serves_file new_response = False"
  by (simp_all add: serves_file_def no_store_def new_response_def)

lemma serves_file_page [simp]: "serves_file (renderPage W w r t p) = False"
  using renderPage_body [of W w r t p] by (auto simp: serves_file_def)

text \<open>The user may see the entry without its passphrase, or has given it.\<close>

definition may_bypass :: "user option \<Rightarrow> upload_metadata \<Rightarrow> bool" where
  "may_bypass u entry \<longleftrightarrow>
     DownloadPassphrase_Empty (um_DownloadPassphrase entry) \<or>
     (case u of None \<Rightarrow> False | Some v \<Rightarrow> User_CanManageEntry v entry)"

lemma canBypassPassphrase_iff:
  "canBypassPassphrase r entry \<longleftrightarrow> (case rq_user r of None \<Rightarrow> False | Some v \<Rightarrow> User_CanManageEntry v entry)"
  by (auto simp: canBypassPassphrase_def currentUser_def split: option.splits)

lemma entryGet_serves:
  assumes "serves_file (fst (entryGet W w r d))" and "\<not> serves_file w"
  obtains i entry where "EntryIDFromString (mux_Var r ''id'') = Inr i"
    "GetEntryMetadata (wb_env W) d i = Inr entry" "may_bypass (rq_user r) entry"
proof -
  obtain i where i: "EntryIDFromString (mux_Var r ''id'') = Inr i"
    using assms by (cases "EntryIDFromString (mux_Var r ''id'')") (auto simp: entryGet_def)
  obtain entry where e: "lookup_entry W w d i = Inr entry"
    using assms i by (cases "lookup_entry W w d i") (auto simp: entryGet_def dest!: lookup_entry_Inl)
  have "may_bypass (rq_user r) entry"
    using assms i e by (auto simp: entryGet_def may_bypass_def canBypassPassphrase_iff split: if_splits)
  with that i e show ?thesis by (simp add: lookup_entry_Inr)
qed

lemma entryPreviewGet_serves:
  assumes "serves_file (fst (entryPreviewGet W w r d))" and "\<not> serves_file w"
  obtains i entry where "EntryIDFromString (mux_Var r ''id'') = Inr i"
    "GetEntryMetadata (wb_env W) d i = Inr entry" "may_bypass (rq_user r) entry"
proof -
  obtain i where i: "EntryIDFromString (mux_Var r ''id'') = Inr i"
    using assms by (cases "EntryIDFromString (mux_Var r ''id'')") (auto simp: entryPreviewGet_def)
  obtain entry where e: "lookup_entry W w d i = Inr entry"
    using assms i
    by (cases "lookup_entry W w d i") (auto simp: entryPreviewGet_def dest!: lookup_entry_Inl)
  have "may_bypass (rq_user r) entry"
    using assms i e by (auto simp: entryPreviewGet_def may_bypass_def canBypassPassphrase_iff split: if_splits)
  with that i e show ?thesis by (simp add: lookup_entry_Inr)
qed

lemma parseEntryUnlockRequest_ok:
  assumes "parseEntryUnlockRequest r = (err, i, pass)" and "pass \<noteq> NoDownloadPassphrase"
  obtains form where "EntryIDFromString (mux_Var r ''id'') = Inr i" "ParseForm r = Some form"
    "NewDownloadPassphrase (lookup_or_empty form ''passphrase'') = Inr pass"
  using assms by (auto simp: parseEntryUnlockRequest_def split: sum.splits option.splits)

lemma entryUnlockPost_serves:
  assumes "serves_file (fst (entryUnlockPost W w r d))" and "\<not> serves_file w"
  obtains i entry form where "EntryIDFromString (mux_Var r ''id'') = Inr i"
    "GetEntryMetadata (wb_env W) d i = Inr entry"
    "ParseForm (MaxBytesReader r maxEntryUnlockRequestBytes) = Some form"
    "um_DownloadPassphrase entry = DownloadPassphrase (Passphrase (lookup_or_empty form ''passphrase''))"
proof -
  let ?r = "MaxBytesReader r maxEntryUnlockRequestBytes"
  obtain err i pass where p: "parseEntryUnlockRequest ?r = (err, i, pass)" by (metis prod_cases3)
  obtain entry where e: "lookup_entry W (no_store w) d i = Inr entry"
    using assms p by (cases "lookup_entry W (no_store w) d i")
      (auto simp: entryUnlockPost_def Let_def dest!: lookup_entry_Inl split: if_splits)
  have ne: "\<not> DownloadPassphrase_Empty (um_DownloadPassphrase entry)"
    and eq: "um_DownloadPassphrase entry = pass"
    using assms p e by (auto simp: entryUnlockPost_def Let_def DownloadPassphrase_Equal_iff split: if_splits)
  have "pass \<noteq> NoDownloadPassphrase"
    using ne eq by (auto simp: DownloadPassphrase_Empty_def Passphrase_Empty_def NoDownloadPassphrase_def)
  from parseEntryUnlockRequest_ok [OF p this] obtain form where
    f: "EntryIDFromString (mux_Var ?r ''id'') = Inr i" "ParseForm ?r = Some form"
      "NewDownloadPassphrase (lookup_or_empty form ''passphrase'') = Inr pass" .
  have "EntryIDFromString (mux_Var r ''id'') = Inr i"
    using f(1) by (simp add: mux_Var_def MaxBytesReader_def)
  with that e f eq show ?thesis by (auto simp: lookup_entry_Inr NewDownloadPassphrase_iff)
qed

section \<open>Recording\<close>

text \<open>Serving an entry appends at most one record of it, with the client's address.\<close>

lemma recordDownload_cases:
  "snd (recordDownload E d i t addr ua) = d \<or>
   snd (recordDownload E d i t addr ua) =
     d\<lparr>downloads := downloads d @
        [\<lparr>dl_entry_id = EntryID_value i, dl_timestamp = formatTime t,
          dl_client_ip = (case SplitHostPort addr of Some ip \<Rightarrow> ip | None \<Rightarrow> addr), dl_user_agent = ua\<rparr>]\<rparr>"
  by (auto simp: recordDownload_def InsertEntryDownload_def download_row_of_def)

end
