(* ===== verification/GuestLinkHandlers.thy ===== *)
theory GuestLinkHandlers
  imports Upload
begin

text \<open>
  \<open>handlers/guest_links.go\<close>: creating, deleting, enabling and disabling guest links. Identifiers
  of guest links are in theory \<open>Upload\<close>, whose handlers need them too.
\<close>

definition GuestLinkByteLimitMinimum :: u64 where "GuestLinkByteLimitMinimum = 1024 * 1024"

definition parseMaxFileBytes :: "u64 option \<Rightarrow> web_error + u64 option" where
  "parseMaxFileBytes limitRaw =
     (case limitRaw of
        None \<Rightarrow> Inr None
      | Some n \<Rightarrow> (if n < GuestLinkByteLimitMinimum then Inl FileBytesLimitTooSmall else Inr (Some n)))"

definition parseUploadCountLimit :: "int option \<Rightarrow> web_error + int option" where
  "parseUploadCountLimit limitRaw =
     (case limitRaw of
        None \<Rightarrow> Inr None
      | Some n \<Rightarrow> (if n \<le> 0 then Inl UploadCountNotPositive else Inr (Some n)))"

definition guestLinkFromRequest :: "web \<Rightarrow> request \<Rightarrow> web_error + guest_link" where
  "guestLinkFromRequest W r =
     and_then (of_option DecodeError (decode_json r)) (\<lambda>fs.
     and_then (of_option DecodeError (string_field ''label'' fs)) (\<lambda>rawLabel.
     and_then (of_option DecodeError (string_field ''urlExpirationTime'' fs)) (\<lambda>rawUrlExpiration.
     and_then (of_option DecodeError (string_field ''fileLifetime'' fs)) (\<lambda>rawFileExpiration.
     and_then (of_option DecodeError (u64_ptr_field ''maxFileBytes'' fs)) (\<lambda>rawMaxFileBytes.
     and_then (of_option DecodeError (int_ptr_field ''maxFileUploads'' fs)) (\<lambda>rawMaxFileUploads.
     and_then (map_error WebParseError (parse_GuestLinkLabel rawLabel)) (\<lambda>label.
     and_then (map_error WebParseError (parse_Expiration rawUrlExpiration (server_now W))) (\<lambda>urlExpiration.
     and_then (map_error WebParseError (parse_FileLifetimeFromString rawFileExpiration)) (\<lambda>fileExpiration.
     and_then (parseMaxFileBytes rawMaxFileBytes) (\<lambda>maxFileBytes.
     and_then (parseUploadCountLimit rawMaxFileUploads) (\<lambda>maxFileUploads.
       Inr (NoGuestLink\<lparr>gl_Label := label, gl_UrlExpires := urlExpiration,
              gl_MaxFileLifetime := fileExpiration, gl_MaxFileBytes := maxFileBytes,
              gl_MaxFileUploads := maxFileUploads\<rparr>))))))))))))"

definition guestLinksPost :: handler where
  "guestLinksPost W w r d =
     (case guestLinkFromRequest W r of
        Inl e \<Rightarrow> (http_Error w ''Invalid request: '' (Some e) 400, d)
      | Inr gl0 \<Rightarrow>
          (let gl = gl0\<lparr>gl_ID := generateGuestLinkID (wb_draw W),
                        gl_OwnerID := usr_ID (fst (currentUser r)), gl_Created := server_now W\<rparr>
           in case InsertGuestLink (wb_env W) d gl of
                (Inl e, d1) \<Rightarrow> (http_Error w ''Failed to save guest link: '' (Some (WebStoreError e)) 500, d1)
              | (Inr _, d1) \<Rightarrow> (respondJSON w (IDBody (gl_ID gl)), d1)))"

definition guestLinksDelete :: handler where
  "guestLinksDelete W w r d =
     (case parseGuestLinkID (mux_Var r ''id'') of
        Inl e \<Rightarrow> (http_Error w ''Invalid guest link ID: '' (Some e) 400, d)
      | Inr i \<Rightarrow>
          (case manageableGuestLink W w r d i of
             Inl w1 \<Rightarrow> (w1, d)
           | Inr _ \<Rightarrow>
               (case DeleteGuestLink (wb_env W) d i of
                  (Inl e, d1) \<Rightarrow> (http_Error w ''Failed to delete guest link: '' (Some (WebStoreError e)) 500, d1)
                | (Inr _, d1) \<Rightarrow> (w, d1))))"

definition guestLinksEnableDisable :: handler where
  "guestLinksEnableDisable W w r d =
     (case parseGuestLinkID (mux_Var r ''id'') of
        Inl e \<Rightarrow> (http_Error w ''Invalid guest link ID: '' (Some e) 400, d)
      | Inr i \<Rightarrow>
          (case manageableGuestLink W w r d i of
             Inl w1 \<Rightarrow> (w1, d)
           | Inr _ \<Rightarrow>
               (case (if has_suffix (rq_path r) ''/enable'' then EnableGuestLink (wb_env W) d i
                      else DisableGuestLink (wb_env W) d i) of
                  (Inl e, d1) \<Rightarrow>
                    (http_Error w ''Failed to change guest link enabled state: '' (Some (WebStoreError e)) 500, d1)
                | (Inr _, d1) \<Rightarrow> (WriteHeader 204 w, d1))))"

section \<open>What a guest link is made of\<close>

lemma parseMaxFileBytes_iff [validate_simps]:
  "parseMaxFileBytes raw = Inr b \<longleftrightarrow> b = raw \<and> (\<forall>n. raw = Some n \<longrightarrow> GuestLinkByteLimitMinimum \<le> n)"
  by (cases raw) (auto simp: parseMaxFileBytes_def not_less)

lemma parseUploadCountLimit_iff [validate_simps]:
  "parseUploadCountLimit raw = Inr b \<longleftrightarrow> b = raw \<and> (\<forall>n. raw = Some n \<longrightarrow> 0 < n)"
  by (cases raw) (auto simp: parseUploadCountLimit_def not_le)

lemma guestLinkFromRequest_ok:
  assumes "guestLinkFromRequest W r = Inr gl"
  shows "length (gl_Label gl) \<le> 200" and "hour \<le> time_sub (gl_UrlExpires gl) (server_now W)"
    and "24 * hour \<le> lifetime_d (gl_MaxFileLifetime gl)"
    and "gl_MaxFileBytes gl = Some n \<Longrightarrow> GuestLinkByteLimitMinimum \<le> n"
    and "gl_MaxFileUploads gl = Some k \<Longrightarrow> 0 < k"
    and "\<not> gl_IsDisabled gl"
  using assms
  by (auto simp: guestLinkFromRequest_def and_then_eq_Inr_iff validate_simps NoGuestLink_def)

lemma guestLinksPost_ok:
  assumes "guestLinksPost W w r d = (w1, d1)" and "rs_status w1 = 200"
  obtains gl where "guestLinkFromRequest W r = Inr gl" "rs_body w1 = IDBody (generateGuestLinkID (wb_draw W))"
    "InsertGuestLink (wb_env W) d (gl\<lparr>gl_ID := generateGuestLinkID (wb_draw W),
       gl_OwnerID := usr_ID (fst (currentUser r)), gl_Created := server_now W\<rparr>) = (Inr (), d1)"
proof -
  obtain gl where gl: "guestLinkFromRequest W r = Inr gl"
    using assms by (cases "guestLinkFromRequest W r") (auto simp: guestLinksPost_def)
  with assms that [OF gl] show ?thesis
    by (auto simp: guestLinksPost_def Let_def split: prod.splits sum.splits)
qed

text \<open>Whatever these handlers change belongs to a guest link of the requester's own.\<close>

lemma guestLinksDelete_changes:
  assumes "guestLinksDelete W w r d = (w1, d1)" and "d1 \<noteq> d"
  shows "\<exists>i gl. parseGuestLinkID (mux_Var r ''id'') = Inr i \<and> manageableGuestLink W w r d i = Inr gl \<and>
    w1 = w \<and> DeleteGuestLink (wb_env W) d i = (Inr (), d1)"
  using assms DeleteGuestLink_atomic [of "wb_env W" d]
  by (auto simp: guestLinksDelete_def split: sum.splits prod.splits)

lemma guestLinksEnableDisable_changes:
  assumes "guestLinksEnableDisable W w r d = (w1, d1)" and "d1 \<noteq> d"
  shows "\<exists>i gl. parseGuestLinkID (mux_Var r ''id'') = Inr i \<and> manageableGuestLink W w r d i = Inr gl \<and>
    d1 = set_disabled i (\<not> has_suffix (rq_path r) ''/enable'') d"
  using assms
  by (auto simp: guestLinksEnableDisable_def EnableGuestLink_def DisableGuestLink_def
      split: sum.splits prod.splits if_splits)

end
