(* ===== verification/Admin.thy ===== *)
theory Admin
  imports Upload Collector
begin

text \<open>
  The handlers only administrators reach: \<open>handlers/members.go\<close>, \<open>settings.go\<close> and
  \<open>maintenance.go\<close>.
\<close>

section \<open>Members\<close>

definition membersGet :: handler where
  "membersGet W w r d =
     (case GetUsers (wb_env W) d of
        Inl _ \<Rightarrow> (http_Error w ''Failed to retrieve users'' None 500, d)
      | Inr us \<Rightarrow>
          (renderPage W w r ''title.members''
             (MembersPage us (UserID_String (usr_ID (fst (currentUser r))))), d))"

definition respondToMemberStoreError :: "response \<Rightarrow> store_error \<Rightarrow> response" where
  "respondToMemberStoreError w e =
     (case e of
        UserNotFoundError _ \<Rightarrow> http_Error w [] (Some (WebStoreError e)) 404
      | LastAdminError \<Rightarrow> http_Error w [] (Some (WebStoreError e)) 400
      | _ \<Rightarrow> http_Error w ''Failed to change administrator status'' None 500)"

definition memberGrantAdminPut :: handler where
  "memberGrantAdminPut W w r d =
     (case UserIDFromString (mux_Var r ''id'') of
        Inl e \<Rightarrow> (http_Error w ''Invalid user ID: '' (Some (WebDomainError e)) 400, d)
      | Inr i \<Rightarrow>
          (case GrantAdmin (wb_env W) d i of
             (Inl e, d1) \<Rightarrow> (respondToMemberStoreError w e, d1)
           | (Inr _, d1) \<Rightarrow> (WriteHeader 204 w, d1)))"

definition memberRevokeAdminPut :: handler where
  "memberRevokeAdminPut W w r d =
     (case UserIDFromString (mux_Var r ''id'') of
        Inl e \<Rightarrow> (http_Error w ''Invalid user ID: '' (Some (WebDomainError e)) 400, d)
      | Inr i \<Rightarrow>
          (if i = usr_ID (fst (currentUser r))
           then (http_Error w ''You cannot revoke your own administrator access'' None 400, d)
           else case RevokeAdmin (wb_env W) d i of
                  (Inl e, d1) \<Rightarrow> (respondToMemberStoreError w e, d1)
                | (Inr _, d1) \<Rightarrow> (WriteHeader 204 w, d1)))"

section \<open>Settings\<close>

definition settingsFromRequest :: "request \<Rightarrow> web_error + settings" where
  "settingsFromRequest r =
     and_then (of_option DecodeError (decode_json r)) (\<lambda>fs.
     and_then (of_option DecodeError (u16_field ''defaultExpirationDays'' fs)) (\<lambda>defaultExpirationDays.
     and_then (of_option DecodeError (bool_field ''defaultNeverExpire'' fs)) (\<lambda>defaultNeverExpire.
     and_then (of_option DecodeError (u16_field ''downloadHistoryRetentionDays'' fs)) (\<lambda>retentionDays.
     and_then (of_option DecodeError (bool_field ''keepDownloadHistoryForever'' fs)) (\<lambda>keepForever.
     and_then (of_option DecodeError (string_field ''defaultLanguage'' fs)) (\<lambda>rawLanguage.
     and_then (of_option DecodeError (u16_field ''maxNonAdminFileLifetimeDays'' fs)) (\<lambda>maxDays.
     and_then (of_option DecodeError (bool_field ''noMaxNonAdminFileLifetime'' fs)) (\<lambda>noMax.
     and_then (if defaultNeverExpire then Inr FileLifetimeInfinite
               else map_error WebParseError (parse_FileLifetime defaultExpirationDays)) (\<lambda>defaultLifetime.
     and_then (if keepForever then Inr KeepDownloadHistoryForever
               else map_error WebDomainError (NewDownloadHistoryRetentionInDays retentionDays)) (\<lambda>retention.
     and_then (map_error WebDomainError (NewSiteDefaultLanguage rawLanguage)) (\<lambda>defaultLanguage.
     and_then (if \<not> noMax \<and> maxDays \<noteq> 0 then map_error WebParseError (parse_FileLifetime maxDays)
               else Inr FileLifetimeInfinite) (\<lambda>maxLifetime.
       Inr \<lparr>set_DefaultFileLifetime = defaultLifetime, set_DownloadHistoryRetention = retention,
            set_DefaultLanguage = defaultLanguage, set_MaxNonAdminFileLifetime = maxLifetime\<rparr>))))))))))))"

definition settingsPut :: handler where
  "settingsPut W w r d =
     (case settingsFromRequest r of
        Inl e \<Rightarrow> (http_Error w ''Invalid request: '' (Some e) 400, d)
      | Inr st \<Rightarrow>
          (case UpdateSettings (wb_env W) d st of
             (Inl e, d1) \<Rightarrow> (http_Error w ''Failed to save settings: '' (Some (WebStoreError e)) 500, d1)
           | (Inr _, d1) \<Rightarrow> (w, d1)))"

section \<open>Maintenance\<close>

text \<open>The handler keeps the collector's state beside the database.\<close>

definition cleanupPost ::
  "web \<Rightarrow> response \<Rightarrow> request \<Rightarrow> store_error collector \<times> db \<Rightarrow> response \<times> store_error collector \<times> db" where
  "cleanupPost W w r cd =
     (case Collect Purge st_later (wb_env W) cd of
        (Inl _, cd1) \<Rightarrow> (http_Error w ''Database cleanup failed'' None 500, cd1)
      | (Inr _, cd1) \<Rightarrow> (w, cd1))"

section \<open>What these handlers do\<close>

lemma parse_FileLifetime_storable:
  assumes "parse_FileLifetime n = Inr lt"
  shows "lt = NewFileLifetimeInDays n \<and> 1 \<le> n \<and> n \<le> 3650"
proof -
  have "\<not> n < 1" "\<not> 3650 < n" "lt = NewFileLifetimeInDays n"
    using assms unfolding parse_FileLifetime_def by (auto split: if_splits)
  then show ?thesis by (simp only: linorder_not_less)
qed

text \<open>Every settings value the page can send is one the settings row holds exactly.\<close>

lemma settingsFromRequest_fields:
  assumes "settingsFromRequest r = Inr st"
  shows "\<exists>n. set_DefaultFileLifetime st = NewFileLifetimeInDays n"
    and "set_DownloadHistoryRetention st = KeepDownloadHistoryForever \<or>
      (\<exists>n. NewDownloadHistoryRetentionInDays n = Inr (set_DownloadHistoryRetention st))"
    and "\<exists>raw. NewSiteDefaultLanguage raw = Inr (set_DefaultLanguage st)"
    and "set_MaxNonAdminFileLifetime st = FileLifetimeInfinite \<or>
      (\<exists>n. set_MaxNonAdminFileLifetime st = NewFileLifetimeInDays n \<and> 1 \<le> n \<and> n \<le> 3650)"
  using assms unfolding settingsFromRequest_def and_then_eq_Inr_iff
  by (elim exE conjE; force split: if_splits dest: parse_FileLifetime_storable
      intro: FileLifetimeInfinite_days)+

lemma settingsFromRequest_storable: "settingsFromRequest r = Inr st \<Longrightarrow> storable_settings st"
proof -
  assume r: "settingsFromRequest r = Inr st"
  have "n \<le> 3650 \<Longrightarrow> n \<le> 32767" for n :: u16 by (simp add: word_le_def)
  then show ?thesis
    unfolding storable_settings_def using settingsFromRequest_fields [OF r] by blast
qed

lemma memberRevokeAdminPut_self:
  "rq_user r = Some u \<Longrightarrow> UserIDFromString (mux_Var r ''id'') = Inr (usr_ID u) \<Longrightarrow>
     memberRevokeAdminPut W w r d =
       (http_Error w ''You cannot revoke your own administrator access'' None 400, d)"
  by (simp add: memberRevokeAdminPut_def)

end
