(* ===== verification/Oidc.thy ===== *)
theory Oidc
  imports Auth
begin

text \<open>
  Package \<open>handlers/auth/oidcauth\<close>: the OpenID Connect client that drives logins. It keeps one
  discovered provider, re-reads the settings on every login, and carries the state, nonce and
  PKCE verifier of a login attempt in a cookie. The libraries \<open>go-oidc\<close> and \<open>oauth2\<close> and the
  network behind them are a record of functions.
\<close>

section \<open>The attempt cookie\<close>

record attempt_cookie =
  at_State :: string
  at_Nonce :: string
  at_Verifier :: string

definition attemptCookieName :: string where "attemptCookieName = ''ps_oidc''"
definition attemptCookiePath :: string where "attemptCookiePath = ''/oidc/''"
definition attemptCookieTTL :: int where "attemptCookieTTL = 10 * minute"

definition attempt_value :: "attempt_cookie \<Rightarrow> string" where
  "attempt_value a =
     join_with ''.'' [b64_encode (at_State a), b64_encode (at_Nonce a), b64_encode (at_Verifier a)]"

definition setAttemptCookie :: "response \<Rightarrow> bool \<Rightarrow> attempt_cookie \<Rightarrow> response" where
  "setAttemptCookie w secure a =
     SetCookie \<lparr>ck_name = attemptCookieName, ck_value = attempt_value a, ck_path = attemptCookiePath,
       ck_expires = None, ck_max_age = attemptCookieTTL div second, ck_http_only = True,
       ck_secure = secure, ck_same_site_lax = True\<rparr> w"

definition clearAttemptCookie :: "response \<Rightarrow> response" where
  "clearAttemptCookie w =
     SetCookie \<lparr>ck_name = attemptCookieName, ck_value = [], ck_path = attemptCookiePath,
       ck_expires = None, ck_max_age = -1, ck_http_only = True, ck_secure = False,
       ck_same_site_lax = True\<rparr> w"

definition readAttemptCookie :: "request \<Rightarrow> attempt_cookie option" where
  "readAttemptCookie r =
     (case request_Cookie r attemptCookieName of
        None \<Rightarrow> None
      | Some v \<Rightarrow>
          (case map b64_decode (split_on (CHR ''.'') v) of
             [Some s, Some n, Some p] \<Rightarrow> Some \<lparr>at_State = s, at_Nonce = n, at_Verifier = p\<rparr>
           | _ \<Rightarrow> None))"

lemma b64_char_no_dot: "n < 64 \<Longrightarrow> b64_char n = CHR ''.'' \<Longrightarrow> False"
proof -
  assume n: "n < 64" and "b64_char n = CHR ''.''"
  then have "b64_val (CHR ''.'') = Some n" using b64_val_char [OF n] by simp
  then show False by (simp add: b64_val_def)
qed

lemma b64_encode_no_dot: "CHR ''.'' \<notin> set (b64_encode s)"
  unfolding b64_encode_sextets using sextets_bound [of s]
  by (auto simp: list_all_iff dest: b64_char_no_dot [OF _ sym])

text \<open>What the cookie carries comes back, whatever bytes it is.\<close>

lemma readAttemptCookie_value:
  assumes "request_Cookie r attemptCookieName = Some (attempt_value a)"
  shows "readAttemptCookie r = Some a"
proof -
  have "split_on (CHR ''.'') (attempt_value a) =
      [b64_encode (at_State a), b64_encode (at_Nonce a), b64_encode (at_Verifier a)]"
    unfolding attempt_value_def by (rule split_join) (simp_all add: b64_encode_no_dot)
  then show ?thesis using assms by (simp add: readAttemptCookie_def b64_decode_encode)
qed

section \<open>The client\<close>

text \<open>The claims of a verified ID token that the client decodes.\<close>

record id_claims =
  cl_Nonce :: string
  cl_Username :: string
  cl_Email :: string

text \<open>
  The libraries: whether a PEM text holds a certificate; discovery, given the custom CA if any, the
  issuer URL and the expected issuer if it is overridden; the URL of an authorization request; the
  exchange of a code, whose response may lack an ID token; the verification of an ID token for a
  client, giving its subject and its claims if they decode; and a fresh PKCE verifier.
\<close>

record 'p oidc_lib =
  lib_pem_ok :: "string \<Rightarrow> bool"
  lib_NewProvider :: "string option \<Rightarrow> string \<Rightarrow> string option \<Rightarrow> 'p option"
  lib_AuthCodeURL :: "'p \<Rightarrow> oidc_settings \<Rightarrow> string \<Rightarrow> string \<Rightarrow> string \<Rightarrow> string"
  lib_Exchange :: "'p \<Rightarrow> oidc_settings \<Rightarrow> string \<Rightarrow> string \<Rightarrow> string option option"
  lib_Verify :: "'p \<Rightarrow> string \<Rightarrow> time \<Rightarrow> string \<Rightarrow> (string \<times> id_claims option) option"
  lib_GenerateVerifier :: string

record 'p cached_provider =
  cp_fingerprint :: string
  cp_settings :: oidc_settings
  cp_provider :: 'p

text \<open>The client's state is its cached provider.\<close>

type_synonym 'p oidc_client = "'p cached_provider option"

datatype oidc_error =
  OIDCStoreError store_error
| ErrNotConfigured
| BadCACertificate
| DiscoveryFailed

datatype login_error =
  ProviderError oidc_error
| ProviderReturnedError string
| BadAttemptCookie
| StateMismatch
| MissingCode
| ExchangeFailed
| NoIDToken
| BadIDToken
| BadClaims
| NonceMismatch
| BadSubject domain_error
| MissingUsername
| BadUsername domain_error

definition settingsFingerprint :: "oidc_settings \<Rightarrow> string" where
  "settingsFingerprint s =
     join_with ''|'' [OIDCIssuerURL_String (os_IssuerURL s), os_ExpectedIssuer s,
       OIDCClientID_String (os_ClientID s), OIDCClientSecret_String (os_ClientSecret s),
       OIDCRedirectURL_String (os_RedirectURL s), os_CACertPEM s]"

definition randomURLSafeString :: "(nat \<Rightarrow> nat) \<Rightarrow> string" where
  "randomURLSafeString draw = b64_encode (random_Bytes draw 32)"

text \<open>The HTTP client: \<^const>\<open>None\<close> for the system's certificates, or the custom ones.\<close>

definition httpClientFor :: "'p oidc_lib \<Rightarrow> oidc_settings \<Rightarrow> oidc_error + string option" where
  "httpClientFor L s =
     (if os_CACertPEM s = [] then Inr None
      else if \<not> lib_pem_ok L (os_CACertPEM s) then Inl BadCACertificate
      else Inr (Some (os_CACertPEM s)))"

definition discover_with :: "'p oidc_lib \<Rightarrow> oidc_settings \<Rightarrow> oidc_error + 'p" where
  "discover_with L s =
     and_then (httpClientFor L s) (\<lambda>ca.
       of_option DiscoveryFailed (lib_NewProvider L ca (OIDCIssuerURL_String (os_IssuerURL s))
         (if os_ExpectedIssuer s \<noteq> [] then Some (os_ExpectedIssuer s) else None)))"

definition Discover :: "'p oidc_lib \<Rightarrow> oidc_settings \<Rightarrow> oidc_error + unit" where
  "Discover L s = (case discover_with L s of Inl e \<Rightarrow> Inl e | Inr _ \<Rightarrow> Inr ())"

definition ensureProvider ::
  "'p oidc_lib \<Rightarrow> env \<Rightarrow> db \<Rightarrow> 'p oidc_client \<Rightarrow> (oidc_error + 'p cached_provider) \<times> 'p oidc_client" where
  "ensureProvider L E d c =
     (case ReadOIDCSettings E d of
        Inl e \<Rightarrow> (Inl (OIDCStoreError e), c)
      | Inr s \<Rightarrow>
          (if \<not> OIDCSettings_IsConfigured s then (Inl ErrNotConfigured, c)
           else (let fingerprint = settingsFingerprint s;
                     fresh = (case discover_with L s of
                                Inl e \<Rightarrow> (Inl e, c)
                              | Inr p \<Rightarrow>
                                  (let cp = \<lparr>cp_fingerprint = fingerprint, cp_settings = s, cp_provider = p\<rparr>
                                   in (Inr cp, Some cp)))
                 in case c of
                      None \<Rightarrow> fresh
                    | Some cp \<Rightarrow> (if cp_fingerprint cp = fingerprint then (Inr cp, c) else fresh))))"

definition oidc_Redirect ::
  "'p oidc_lib \<Rightarrow> web \<Rightarrow> response \<Rightarrow> request \<Rightarrow> 'p oidc_client \<times> db \<Rightarrow> response \<times> 'p oidc_client" where
  "oidc_Redirect L W w r cd =
     (case ensureProvider L (wb_env W) (snd cd) (fst cd) of
        (Inl _, c1) \<Rightarrow> (http_Redirect w ''/login?error=not_configured'' 302, c1)
      | (Inr cp, c1) \<Rightarrow>
          (let state = randomURLSafeString (wb_draw W);
               nonce = randomURLSafeString (\<lambda>i. wb_draw W (32 + i));
               verifier = lib_GenerateVerifier L;
               w1 = setAttemptCookie w (OIDCRedirectURL_IsHTTPS (os_RedirectURL (cp_settings cp)))
                      \<lparr>at_State = state, at_Nonce = nonce, at_Verifier = verifier\<rparr>
           in (http_Redirect w1 (lib_AuthCodeURL L (cp_provider cp) (cp_settings cp) state nonce verifier) 302, c1)))"

text \<open>The email claim is optional, and dropped when it is unusable.\<close>

definition claimed_email :: "string \<Rightarrow> email_address" where
  "claimed_email raw =
     (if raw = [] then NoEmailAddress
      else case NewEmailAddress raw of Inr e \<Rightarrow> e | Inl _ \<Rightarrow> NoEmailAddress)"

definition identity_from_claims :: "string \<Rightarrow> id_claims \<Rightarrow> login_error + user_identity" where
  "identity_from_claims sub claims =
     (case NewOIDCSubject sub of
        Inl e \<Rightarrow> Inl (BadSubject e)
      | Inr subject \<Rightarrow>
          (if cl_Username claims = [] then Inl MissingUsername
           else case NewUsername (cl_Username claims) of
                  Inl e \<Rightarrow> Inl (BadUsername e)
                | Inr name \<Rightarrow>
                    Inr \<lparr>ui_Subject = subject, ui_Username = name, ui_Email = claimed_email (cl_Email claims)\<rparr>))"

definition check_callback ::
  "'p oidc_lib \<Rightarrow> web \<Rightarrow> request \<Rightarrow> attempt_cookie option \<Rightarrow> 'p cached_provider \<Rightarrow> login_error + user_identity" where
  "check_callback L W r cookie cp =
     and_then (ensure (query_Get r ''error'' = []) (ProviderReturnedError (query_Get r ''error''))) (\<lambda>_.
     and_then (of_option BadAttemptCookie cookie) (\<lambda>attempt.
     and_then (ensure (ConstantTimeCompare (query_Get r ''state'') (at_State attempt)) StateMismatch) (\<lambda>_.
     and_then (ensure (query_Get r ''code'' \<noteq> []) MissingCode) (\<lambda>_.
     and_then (of_option ExchangeFailed
         (lib_Exchange L (cp_provider cp) (cp_settings cp) (query_Get r ''code'') (at_Verifier attempt))) (\<lambda>token.
     and_then (of_option NoIDToken token) (\<lambda>rawIDToken.
     and_then (ensure (rawIDToken \<noteq> []) NoIDToken) (\<lambda>_.
     and_then (of_option BadIDToken
         (lib_Verify L (cp_provider cp) (OIDCClientID_String (os_ClientID (cp_settings cp)))
            (server_now W) rawIDToken)) (\<lambda>(sub, decoded).
     and_then (of_option BadClaims decoded) (\<lambda>claims.
     and_then (ensure (ConstantTimeCompare (cl_Nonce claims) (at_Nonce attempt)) NonceMismatch) (\<lambda>_.
       identity_from_claims sub claims))))))))))"

definition oidc_Callback ::
  "'p oidc_lib \<Rightarrow> web \<Rightarrow> response \<Rightarrow> request \<Rightarrow> 'p oidc_client \<times> db \<Rightarrow>
     (login_error + user_identity) \<times> response \<times> 'p oidc_client" where
  "oidc_Callback L W w r cd =
     (let attempt = readAttemptCookie r; w1 = clearAttemptCookie w in
      case ensureProvider L (wb_env W) (snd cd) (fst cd) of
        (Inl e, c1) \<Rightarrow> (Inl (ProviderError e), w1, c1)
      | (Inr cp, c1) \<Rightarrow> (check_callback L W r attempt cp, w1, c1))"

text \<open>The client as the identity provider of the server.\<close>

definition oidc_identity_provider :: "'p oidc_lib \<Rightarrow> 'p oidc_client identity_provider" where
  "oidc_identity_provider L =
     \<lparr>idp_Redirect = oidc_Redirect L,
      idp_Callback = (\<lambda>W w r cd.
        case oidc_Callback L W w r cd of
          (Inl _, w1, c1) \<Rightarrow> (Inl (), w1, c1)
        | (Inr i, w1, c1) \<Rightarrow> (Inr i, w1, c1))\<rparr>"

section \<open>What a login attempt proves\<close>

lemma ensure_Inr_iff: "ensure c e = Inr u \<longleftrightarrow> c"
  by (cases c) auto

lemma check_callback_Inr:
  assumes "check_callback L W r cookie cp = Inr identity"
  obtains attempt raw sub claims where "cookie = Some attempt" "query_Get r ''error'' = []"
    "query_Get r ''state'' = at_State attempt" "query_Get r ''code'' \<noteq> []"
    "lib_Exchange L (cp_provider cp) (cp_settings cp) (query_Get r ''code'') (at_Verifier attempt) = Some (Some raw)"
    "lib_Verify L (cp_provider cp) (OIDCClientID_String (os_ClientID (cp_settings cp))) (server_now W) raw =
       Some (sub, Some claims)"
    "cl_Nonce claims = at_Nonce attempt" "identity_from_claims sub claims = Inr identity"
  using assms
  by (auto simp: check_callback_def and_then_eq_Inr_iff ensure_Inr_iff of_option_Inr_iff)

lemma identity_from_claims_Inr:
  "identity_from_claims sub claims = Inr i \<Longrightarrow>
     ui_Subject i = OIDCSubject sub \<and> ui_Username i = Username (cl_Username claims) \<and>
     sub \<noteq> [] \<and> cl_Username claims \<noteq> []"
  by (auto simp: identity_from_claims_def NewOIDCSubject_def NewUsername_def text_check_def rune_count_0_iff
      split: sum.splits if_splits option.splits)

lemma ensureProvider_settings:
  assumes "ensureProvider L E d c = (Inr cp, c1)"
  obtains s where "ReadOIDCSettings E d = Inr s" "OIDCSettings_IsConfigured s" "c1 = Some cp"
    "cp_fingerprint cp = settingsFingerprint s" "cp_settings cp = s \<or> c = Some cp"
  using assms
  by (auto simp: ensureProvider_def Let_def split: sum.splits if_splits option.splits)

text \<open>Fingerprints tell settings apart only while no field but the last holds the separator.\<close>

definition no_bar :: "oidc_settings \<Rightarrow> bool" where
  "no_bar s \<longleftrightarrow>
     list_all (\<lambda>t. CHR ''|'' \<notin> set t)
       [OIDCIssuerURL_String (os_IssuerURL s), os_ExpectedIssuer s, OIDCClientID_String (os_ClientID s),
        OIDCClientSecret_String (os_ClientSecret s), OIDCRedirectURL_String (os_RedirectURL s), os_CACertPEM s]"

lemma settingsFingerprint_inj:
  assumes "no_bar s" "no_bar t" "settingsFingerprint s = settingsFingerprint t"
  shows "s = t"
proof -
  have split: "split_on (CHR ''|'') (settingsFingerprint u) =
      [OIDCIssuerURL_String (os_IssuerURL u), os_ExpectedIssuer u, OIDCClientID_String (os_ClientID u),
       OIDCClientSecret_String (os_ClientSecret u), OIDCRedirectURL_String (os_RedirectURL u), os_CACertPEM u]"
    if "no_bar u" for u
    unfolding settingsFingerprint_def by (rule split_join) (use that in \<open>simp_all add: no_bar_def\<close>)
  from split [OF assms(1)] split [OF assms(2)] assms(3) show ?thesis
    by (cases s; cases t)
      (auto intro: oidc_issuer_url.expand oidc_client_id.expand oidc_client_secret.expand oidc_redirect_url.expand)
qed

end
