(* ===== verification/Setup.thy ===== *)
theory Setup
  imports Oidc Upload
begin

text \<open>
  \<open>handlers/setup.go\<close>: connecting PicoShare to an identity provider, once with the setup token
  of the server's log and later as an administrator. The two interfaces the parsers are given,
  \<open>setupTokenValidator\<close> and \<open>oidcSettingsReader\<close>, are locales, which the store interprets.
\<close>

section \<open>Requests\<close>

record oidc_settings_request =
  osr_SetupToken :: setup_token
  osr_IssuerURL :: oidc_issuer_url
  osr_ExpectedIssuer :: string
  osr_ClientID :: oidc_client_id
  osr_ClientSecret :: oidc_client_secret
  osr_RedirectURL :: oidc_redirect_url
  osr_CACertPEM :: string

definition oidcSettingsFromRequest :: "oidc_settings_request \<Rightarrow> oidc_settings" where
  "oidcSettingsFromRequest q =
     \<lparr>os_IssuerURL = osr_IssuerURL q, os_ExpectedIssuer = osr_ExpectedIssuer q, os_ClientID = osr_ClientID q,
      os_ClientSecret = osr_ClientSecret q, os_RedirectURL = osr_RedirectURL q, os_CACertPEM = osr_CACertPEM q\<rparr>"

type_synonym url_parser = "string \<Rightarrow> (string \<times> string) option"

definition parseOIDCSettingsRequest ::
  "url_parser \<Rightarrow> request \<Rightarrow> (setup_token \<Rightarrow> store_error + bool) \<Rightarrow> web_error + oidc_settings_request" where
  "parseOIDCSettingsRequest up r validate =
     and_then (of_option DecodeError (decode_json r)) (\<lambda>fs.
     and_then (of_option DecodeError (string_field ''setupToken'' fs)) (\<lambda>rawToken.
     and_then (of_option DecodeError (string_field ''issuerUrl'' fs)) (\<lambda>rawIssuer.
     and_then (of_option DecodeError (string_field ''expectedIssuer'' fs)) (\<lambda>expectedIssuer.
     and_then (of_option DecodeError (string_field ''clientId'' fs)) (\<lambda>rawClientID.
     and_then (of_option DecodeError (string_field ''clientSecret'' fs)) (\<lambda>rawSecret.
     and_then (of_option DecodeError (string_field ''redirectUrl'' fs)) (\<lambda>rawRedirect.
     and_then (of_option DecodeError (string_field ''caCertPem'' fs)) (\<lambda>caCertPEM.
     and_then (map_error WebDomainError (SetupTokenFromString rawToken)) (\<lambda>setupToken.
     and_then (map_error WebStoreError (validate setupToken)) (\<lambda>valid.
     and_then (ensure valid InvalidSetupToken) (\<lambda>_.
     and_then (map_error WebDomainError (NewOIDCIssuerURL up rawIssuer)) (\<lambda>issuerURL.
     and_then (map_error WebDomainError (NewOIDCClientID rawClientID)) (\<lambda>clientID.
     and_then (map_error WebDomainError (NewOIDCClientSecret rawSecret)) (\<lambda>clientSecret.
     and_then (map_error WebDomainError (NewOIDCRedirectURL up rawRedirect)) (\<lambda>redirectURL.
       Inr \<lparr>osr_SetupToken = setupToken, osr_IssuerURL = issuerURL, osr_ExpectedIssuer = expectedIssuer,
            osr_ClientID = clientID, osr_ClientSecret = clientSecret, osr_RedirectURL = redirectURL,
            osr_CACertPEM = caCertPEM\<rparr>)))))))))))))))"

definition resolveAdminClientSecret :: "string \<Rightarrow> store_error + oidc_settings \<Rightarrow> web_error + oidc_client_secret" where
  "resolveAdminClientSecret raw current =
     (if raw \<noteq> [] then map_error WebDomainError (NewOIDCClientSecret raw)
      else case current of
             Inl e \<Rightarrow> Inl (WebStoreError e)
           | Inr existing \<Rightarrow>
               (if OIDCClientSecret_String (os_ClientSecret existing) = []
                then Inl (WebDomainError ErrInvalidOIDCClientSecret)
                else Inr (os_ClientSecret existing)))"

definition oidcSettingsFromAdminRequest ::
  "url_parser \<Rightarrow> request \<Rightarrow> store_error + oidc_settings \<Rightarrow> web_error + oidc_settings" where
  "oidcSettingsFromAdminRequest up r current =
     and_then (of_option DecodeError (decode_json r)) (\<lambda>fs.
     and_then (of_option DecodeError (string_field ''issuerUrl'' fs)) (\<lambda>rawIssuer.
     and_then (of_option DecodeError (string_field ''expectedIssuer'' fs)) (\<lambda>expectedIssuer.
     and_then (of_option DecodeError (string_field ''clientId'' fs)) (\<lambda>rawClientID.
     and_then (of_option DecodeError (string_field ''clientSecret'' fs)) (\<lambda>rawSecret.
     and_then (of_option DecodeError (string_field ''redirectUrl'' fs)) (\<lambda>rawRedirect.
     and_then (of_option DecodeError (string_field ''caCertPem'' fs)) (\<lambda>caCertPEM.
     and_then (map_error WebDomainError (NewOIDCIssuerURL up rawIssuer)) (\<lambda>issuerURL.
     and_then (map_error WebDomainError (NewOIDCClientID rawClientID)) (\<lambda>clientID.
     and_then (resolveAdminClientSecret rawSecret current) (\<lambda>clientSecret.
     and_then (map_error WebDomainError (NewOIDCRedirectURL up rawRedirect)) (\<lambda>redirectURL.
       Inr \<lparr>os_IssuerURL = issuerURL, os_ExpectedIssuer = expectedIssuer, os_ClientID = clientID,
            os_ClientSecret = clientSecret, os_RedirectURL = redirectURL, os_CACertPEM = caCertPEM\<rparr>)))))))))))"

section \<open>Handlers\<close>

definition setupGet :: handler where
  "setupGet W w r d =
     (case NeedsSetup (wb_env W) d of
        Inl _ \<Rightarrow> (http_Error w ''Failed to check setup status'' None 500, d)
      | Inr needsSetup \<Rightarrow>
          (if \<not> needsSetup then (http_Error w ''404 page not found'' None 404, d)
           else (renderPage W w r ''title.setup'' (SetupPage (baseURLFromRequest W r @ ''/oidc/callback'')), d)))"

definition setupTestConnectionPost :: "'p oidc_lib \<Rightarrow> handler" where
  "setupTestConnectionPost L W w r d =
     (case parseOIDCSettingsRequest (env_url_parse (wb_env W)) r (ValidateSetupToken (wb_env W) d) of
        Inl e \<Rightarrow> (http_Error w ''Invalid request: '' (Some e) 400, d)
      | Inr q \<Rightarrow>
          (case Discover L (oidcSettingsFromRequest q) of
             Inl _ \<Rightarrow> (http_Error w ''Connection test failed: '' (Some DiscoveryError) 400, d)
           | Inr _ \<Rightarrow> (w, d)))"

definition setupPost :: handler where
  "setupPost W w r d =
     (case parseOIDCSettingsRequest (env_url_parse (wb_env W)) r (ValidateSetupToken (wb_env W) d) of
        Inl e \<Rightarrow> (http_Error w ''Invalid request: '' (Some e) 400, d)
      | Inr q \<Rightarrow>
          (case UpdateOIDCSettings (wb_env W) d (oidcSettingsFromRequest q) of
             (Inl _, d1) \<Rightarrow> (http_Error w ''Failed to save settings'' None 500, d1)
           | (Inr _, d1) \<Rightarrow> (w, d1)))"

definition adminOIDCSettingsGet :: handler where
  "adminOIDCSettingsGet W w r d =
     (case ReadOIDCSettings (wb_env W) d of
        Inl _ \<Rightarrow> (http_Error w ''Failed to read settings'' None 500, d)
      | Inr s \<Rightarrow>
          (respondJSON w (OIDCBody (OIDCIssuerURL_String (os_IssuerURL s)) (os_ExpectedIssuer s)
             (OIDCClientID_String (os_ClientID s)) (OIDCRedirectURL_String (os_RedirectURL s))
             (os_CACertPEM s \<noteq> [])), d))"

definition adminOIDCSettingsPut :: handler where
  "adminOIDCSettingsPut W w r d =
     (case oidcSettingsFromAdminRequest (env_url_parse (wb_env W)) r (ReadOIDCSettings (wb_env W) d) of
        Inl e \<Rightarrow> (http_Error w ''Invalid request: '' (Some e) 400, d)
      | Inr s \<Rightarrow>
          (case UpdateOIDCSettings (wb_env W) d s of
             (Inl _, d1) \<Rightarrow> (http_Error w ''Failed to save settings'' None 500, d1)
           | (Inr _, d1) \<Rightarrow> (w, d1)))"

definition adminOIDCSettingsTestConnectionPost :: "'p oidc_lib \<Rightarrow> handler" where
  "adminOIDCSettingsTestConnectionPost L W w r d =
     (case oidcSettingsFromAdminRequest (env_url_parse (wb_env W)) r (ReadOIDCSettings (wb_env W) d) of
        Inl e \<Rightarrow> (http_Error w ''Invalid request: '' (Some e) 400, d)
      | Inr s \<Rightarrow>
          (case Discover L s of
             Inl _ \<Rightarrow> (http_Error w ''Connection test failed: '' (Some DiscoveryError) 400, d)
           | Inr _ \<Rightarrow> (w, d)))"

definition ssoSettingsGet :: handler where
  "ssoSettingsGet W w r d =
     (renderPage W w r ''title.ssoSettings'' (SsoSettingsPage (baseURLFromRequest W r @ ''/oidc/callback'')), d)"

section \<open>The interfaces\<close>

text \<open>Who validates setup tokens accepts at most one, as far as their hashes tell them apart.\<close>

locale setup_token_validator =
  fixes validate :: "setup_token \<Rightarrow> store_error + bool"
  assumes one_token: "validate s = Inr True \<Longrightarrow> validate t = Inr True \<Longrightarrow> SetupToken_Hash s = SetupToken_Hash t"
begin

lemma parsed_token:
  "parseOIDCSettingsRequest up r validate = Inr q \<Longrightarrow>
     validate (osr_SetupToken q) = Inr True \<and> SetupToken_String (osr_SetupToken q) \<noteq> []"
  unfolding parseOIDCSettingsRequest_def and_then_eq_Inr_iff map_error_Inr ensure_Inr_iff
  by (elim exE conjE) (auto simp: SetupTokenFromString_def split: if_splits)

lemma parsed_same_hash:
  "parseOIDCSettingsRequest up r validate = Inr q \<Longrightarrow> validate t = Inr True \<Longrightarrow>
     SetupToken_Hash (osr_SetupToken q) = SetupToken_Hash t"
  using one_token parsed_token by blast

end

text \<open>Settings that a reader returns are unset, or every field passes its validation.\<close>

definition valid_for :: "url_parser \<Rightarrow> oidc_settings \<Rightarrow> bool" where
  "valid_for up s \<longleftrightarrow>
     (\<exists>raw. NewOIDCIssuerURL up raw = Inr (os_IssuerURL s)) \<and> (\<exists>raw. NewOIDCRedirectURL up raw = Inr (os_RedirectURL s)) \<and>
     (\<exists>raw. NewOIDCClientID raw = Inr (os_ClientID s)) \<and> (\<exists>raw. NewOIDCClientSecret raw = Inr (os_ClientSecret s))"

locale oidc_settings_reader =
  fixes current :: "store_error + oidc_settings" and up :: url_parser
  assumes read_valid: "current = Inr s \<Longrightarrow> s = NoOIDCSettings \<or> valid_for up s"
begin

lemma resolved_secret:
  assumes "resolveAdminClientSecret raw current = Inr c"
  shows "NewOIDCClientSecret (OIDCClientSecret_String c) = Inr c"
    and "raw = [] \<Longrightarrow> \<exists>s. current = Inr s \<and> c = os_ClientSecret s \<and> valid_for up s"
  using assms read_valid
  by (auto simp: resolveAdminClientSecret_def NewOIDCClientSecret_def NoOIDCSettings_def split: if_splits sum.splits)

lemma admin_request_valid:
  "oidcSettingsFromAdminRequest up r current = Inr s \<Longrightarrow> valid_for up s"
  unfolding oidcSettingsFromAdminRequest_def and_then_eq_Inr_iff valid_for_def map_error_Inr
  using resolved_secret(1) by (elim exE conjE) (drule resolved_secret(1), fastforce)

end

lemma ValidateSetupToken_True:
  "ValidateSetupToken E d t = Inr True \<Longrightarrow>
     \<exists>x. oidc_table d = Some x \<and> or_setup_token_hash x = Some (SetupToken_Hash t)"
  by (auto simp: ValidateSetupToken_def and_then_eq_Inr_iff split: option.splits)

interpretation store_validator: setup_token_validator "ValidateSetupToken E d"
  by unfold_locales (auto dest!: ValidateSetupToken_True)

lemma oidc_from_row_valid:
  "oidc_from_row E x = Inr s \<Longrightarrow> s = NoOIDCSettings \<or> valid_for (env_url_parse E) s"
  by (auto simp: oidc_from_row_def and_then_eq_Inr_iff wrap_domain_def valid_for_def
      split: option.splits sum.splits)

interpretation store_reader: oidc_settings_reader "ReadOIDCSettings E d" "env_url_parse E"
  by unfold_locales
    (auto simp: ReadOIDCSettings_def and_then_eq_Inr_iff dest: oidc_from_row_valid split: option.splits)

section \<open>What the handlers do\<close>

lemma parsed_valid:
  "parseOIDCSettingsRequest up r v = Inr q \<Longrightarrow> valid_for up (oidcSettingsFromRequest q)"
  unfolding parseOIDCSettingsRequest_def and_then_eq_Inr_iff map_error_Inr
  by (elim exE conjE) (auto simp: valid_for_def oidcSettingsFromRequest_def)

lemma valid_for_env: "valid_for (env_url_parse E) s \<longleftrightarrow> valid_oidc_settings E s"
  by (simp add: valid_for_def valid_oidc_settings_def)

text \<open>Whoever changes the settings through the setup form showed a valid token, which is then spent.\<close>

lemma setupPost_changes:
  assumes "setupPost W w r d = (w1, d1)" and "d1 \<noteq> d"
  obtains q x where "parseOIDCSettingsRequest (env_url_parse (wb_env W)) r (ValidateSetupToken (wb_env W) d) = Inr q"
    "oidc_table d = Some x" "or_setup_token_hash x = Some (SetupToken_Hash (osr_SetupToken q))"
    "d1 = d\<lparr>oidc_table := Some (oidc_row_of (oidcSettingsFromRequest q))\<rparr>" "w1 = w"
proof -
  obtain q where q: "parseOIDCSettingsRequest (env_url_parse (wb_env W)) r (ValidateSetupToken (wb_env W) d) = Inr q"
    using assms by (auto simp: setupPost_def split: sum.splits)
  obtain x where x: "oidc_table d = Some x" "or_setup_token_hash x = Some (SetupToken_Hash (osr_SetupToken q))"
    using store_validator.parsed_token [OF q] ValidateSetupToken_True by blast
  show ?thesis
    using that [OF q x] assms x q by (auto simp: setupPost_def UpdateOIDCSettings_def split: if_splits)
qed

lemma adminOIDCSettingsPut_changes:
  assumes "adminOIDCSettingsPut W w r d = (w1, d1)" and "d1 \<noteq> d"
  obtains s where "oidcSettingsFromAdminRequest (env_url_parse (wb_env W)) r (ReadOIDCSettings (wb_env W) d) = Inr s"
    "valid_oidc_settings (wb_env W) s" "d1 = d\<lparr>oidc_table := map_option (\<lambda>_. oidc_row_of s) (oidc_table d)\<rparr>" "w1 = w"
proof -
  obtain s where s: "oidcSettingsFromAdminRequest (env_url_parse (wb_env W)) r (ReadOIDCSettings (wb_env W) d) = Inr s"
    using assms by (auto simp: adminOIDCSettingsPut_def split: sum.splits)
  have v: "valid_oidc_settings (wb_env W) s"
    using store_reader.admin_request_valid [OF s] by (simp add: valid_for_env)
  show ?thesis
    using that [OF s v] assms s by (auto simp: adminOIDCSettingsPut_def UpdateOIDCSettings_def split: if_splits)
qed

end
