(* ===== verification/GoStrings.thy ===== *)
theory GoStrings
  imports GoFloat "HOL-Library.Multiset" "HOL-Library.Product_Lexorder"
begin

text \<open>
  Three more pieces of Go's standard library: \<open>strings.TrimSpace\<close>, \<open>strconv.ParseFloat\<close> at 64
  bits, and the sorts \<open>sort.SliceStable\<close> and \<open>sort.Slice\<close>.
\<close>

section \<open>Trimming white space\<close>

text \<open>The UTF-8 encodings of the runes with the property White\_Space.\<close>

definition space_encodings :: "string list" where
  "space_encodings =
     map (\<lambda>n. [char_of n]) [9, 10, 11, 12, 13, 32 :: nat] @
     [[CHR 0xC2, CHR 0x85], [CHR 0xC2, CHR 0xA0], [CHR 0xE1, CHR 0x9A, CHR 0x80]] @
     map (\<lambda>n. [CHR 0xE2, CHR 0x80, char_of n])
       [128, 129, 130, 131, 132, 133, 134, 135, 136, 137, 138, 168, 169, 175 :: nat] @
     [[CHR 0xE2, CHR 0x81, CHR 0x9F], [CHR 0xE3, CHR 0x80, CHR 0x80]]"

fun strip_first :: "string list \<Rightarrow> string \<Rightarrow> string option" where
  "strip_first [] s = None"
| "strip_first (e # es) s =
     (if e \<noteq> [] \<and> has_prefix s e then Some (drop (length e) s) else strip_first es s)"

lemma strip_first_shorter: "strip_first es s = Some t \<Longrightarrow> length t < length s"
  by (induction es) (auto simp: has_prefix_iff split: if_splits)

function trim_front :: "string list \<Rightarrow> string \<Rightarrow> string" where
  "trim_front es s = (case strip_first es s of None \<Rightarrow> s | Some t \<Rightarrow> trim_front es t)"
  by pat_completeness auto
termination
  by (relation "measure (\<lambda>(es, s). length s)") (auto dest: strip_first_shorter)

declare trim_front.simps [simp del]

definition TrimSpace :: "string \<Rightarrow> string" where
  "TrimSpace s = rev (trim_front (map rev space_encodings) (rev (trim_front space_encodings s)))"

section \<open>Floating-point literals\<close>

text \<open>A finite value is a multiple of the least positive double, \<open>2 ^ -1074\<close>.\<close>

datatype fval = FNaN | FInf bool | FFin int

definition fval_greater :: "fval \<Rightarrow> fval \<Rightarrow> bool" where
  "fval_greater a b =
     (case (a, b) of
        (FNaN, _) \<Rightarrow> False
      | (_, FNaN) \<Rightarrow> False
      | (FInf n, FInf m) \<Rightarrow> \<not> n \<and> m
      | (FInf n, FFin _) \<Rightarrow> \<not> n
      | (FFin _, FInf m) \<Rightarrow> m
      | (FFin i, FFin j) \<Rightarrow> j < i)"

definition fval_one :: fval where "fval_one = FFin (2 ^ 1074)"

text \<open>Rounding half to even; values of \<open>2 ^ 1024\<close> and more are out of range.\<close>

definition f64_units :: "nat \<Rightarrow> nat \<Rightarrow> nat option" where
  "f64_units n d =
     (if n = 0 then Some 0
      else (let e = max (lead_exp n d - 52) (- 1074);
                m = (if e \<le> 0 then round_half_even (n * 2 ^ nat (- e)) d else round_half_even n (d * 2 ^ nat e));
                u = m * 2 ^ nat (e + 1074)
            in if 2 ^ 2098 \<le> u then None else Some u))"

definition lower_ascii :: "char \<Rightarrow> char" where
  "lower_ascii c = (if in_range 65 90 c then char_of (byte_of c + 32) else c)"

definition hex_char_val :: "char \<Rightarrow> nat" where
  "hex_char_val c = (if is_digit c then digit_val c else byte_of (lower_ascii c) - 87)"

definition is_hex_char :: "char \<Rightarrow> bool" where
  "is_hex_char c \<longleftrightarrow> is_digit c \<or> in_range 97 102 (lower_ascii c)"

definition value_in_base :: "nat \<Rightarrow> string \<Rightarrow> nat" where
  "value_in_base b s = foldl (\<lambda>n c. n * b + hex_char_val c) 0 s"

text \<open>Underscores separate digits, or a digit and the base prefix.\<close>

datatype last_seen = SeenStart | SeenDigit | SeenUnderscore | SeenOther

fun underscores_ok :: "bool \<Rightarrow> last_seen \<Rightarrow> string \<Rightarrow> bool" where
  "underscores_ok hex p [] \<longleftrightarrow> p \<noteq> SeenUnderscore"
| "underscores_ok hex p (c # s) \<longleftrightarrow>
     (if is_digit c \<or> (hex \<and> is_hex_char c) then underscores_ok hex SeenDigit s
      else if c = CHR ''_'' then p = SeenDigit \<and> underscores_ok hex SeenUnderscore s
      else p \<noteq> SeenUnderscore \<and> underscores_ok hex SeenOther s)"

definition split_sign :: "string \<Rightarrow> bool \<times> string" where
  "split_sign s =
     (case s of
        c # t \<Rightarrow> (if c = CHR ''-'' then (True, t) else if c = CHR ''+'' then (False, t) else (False, s))
      | [] \<Rightarrow> (False, []))"

text \<open>The exponent after its letter: a digit first, then digits and underscores; it stops growing at 10000.\<close>

definition parse_exponent :: "string \<Rightarrow> int option" where
  "parse_exponent s =
     (let (neg, t) = split_sign s;
          e = foldl (\<lambda>n c. if c = CHR ''_'' then n else if n < 10000 then n * 10 + digit_val c else n) 0 t
      in if t \<noteq> [] \<and> is_digit (hd t) \<and> list_all (\<lambda>c. is_digit c \<or> c = CHR ''_'') t
         then Some (if neg then - int e else int e) else None)"

definition scaled :: "nat \<Rightarrow> nat \<Rightarrow> int \<Rightarrow> nat option" where
  "scaled m b e = (if 0 \<le> e then f64_units (m * b ^ nat e) 1 else f64_units m (b ^ nat (- e)))"

text \<open>A literal without sign: mantissa, then an exponent, which hexadecimal literals must have.\<close>

definition parse_magnitude :: "string \<Rightarrow> nat option" where
  "parse_magnitude s =
     (let hex = (case s of c # x # _ \<Rightarrow> c = CHR ''0'' \<and> lower_ascii x = CHR ''x'' | _ \<Rightarrow> False);
          body = (if hex then drop 2 s else s);
          in_mantissa = (\<lambda>c. (if hex then is_hex_char c else is_digit c) \<or> c = CHR ''.'' \<or> c = CHR ''_'');
          mantissa = filter (\<lambda>c. c \<noteq> CHR ''_'') (takeWhile in_mantissa body);
          rest = dropWhile in_mantissa body;
          parts = split_on (CHR ''.'') mantissa;
          digits = concat parts;
          fraction = int (length (concat (tl parts)));
          exponent =
            (case rest of
               [] \<Rightarrow> (if hex then None else Some 0)
             | c # t \<Rightarrow> (if lower_ascii c = (if hex then CHR ''p'' else CHR ''e'') then parse_exponent t else None))
      in if digits = [] \<or> 2 < length parts then None
         else if CHR ''_'' \<in> set s \<and> \<not> underscores_ok hex (if hex then SeenDigit else SeenStart) body then None
         else case exponent of
                None \<Rightarrow> None
              | Some e \<Rightarrow>
                  (if hex then scaled (value_in_base 16 digits) 2 (e - 4 * fraction)
                   else scaled (value_in_base 10 digits) 10 (e - fraction)))"

definition ParseFloat :: "string \<Rightarrow> fval option" where
  "ParseFloat s =
     (let (neg, body) = split_sign s; low = map lower_ascii body in
      if low = ''inf'' \<or> low = ''infinity'' then Some (FInf neg)
      else if map lower_ascii s = ''nan'' then Some FNaN
      else case parse_magnitude body of
             None \<Rightarrow> None
           | Some u \<Rightarrow> Some (FFin (if neg then - int u else int u)))"

section \<open>Sorting\<close>

text \<open>Each element moves to the left past those it is less than; the sorted part is kept reversed.\<close>

fun sift :: "('a \<Rightarrow> 'a \<Rightarrow> bool) \<Rightarrow> 'a \<Rightarrow> 'a list \<Rightarrow> 'a list" where
  "sift lt x [] = [x]"
| "sift lt x (y # ys) = (if lt x y then y # sift lt x ys else x # y # ys)"

definition SliceStable :: "('a \<Rightarrow> 'a \<Rightarrow> bool) \<Rightarrow> 'a list \<Rightarrow> 'a list" where
  "SliceStable lt xs = rev (foldl (\<lambda>sorted x. sift lt x sorted) [] xs)"

lemma mset_sift [simp]: "mset (sift lt x ys) = add_mset x (mset ys)"
  by (induction ys) auto

lemma set_sift [simp]: "set (sift lt x ys) = insert x (set ys)"
  by (metis mset_sift set_mset_add_mset_insert set_mset_mset)

lemma mset_SliceStable [simp]: "mset (SliceStable lt xs) = mset xs"
proof -
  have "mset (foldl (\<lambda>sorted x. sift lt x sorted) acc xs) = mset acc + mset xs" for acc
    by (induction xs arbitrary: acc) auto
  then show ?thesis by (simp add: SliceStable_def)
qed

lemma set_SliceStable [simp]: "set (SliceStable lt xs) = set xs"
  by (metis mset_SliceStable set_mset_mset)

lemma length_SliceStable [simp]: "length (SliceStable lt xs) = length xs"
  by (metis mset_SliceStable size_mset)

text \<open>Where the comparison is that of a key in a linear order, the result is the stable sort by the key.\<close>

lemma sift_sorted:
  fixes k :: "'a \<Rightarrow> 'b :: linorder"
  assumes "\<And>y. y \<in> set ys \<Longrightarrow> lt x y \<longleftrightarrow> k x < k y" and "sorted (rev (map k ys))"
  shows "sorted (rev (map k (sift lt x ys))) \<and>
    filter (\<lambda>z. k z = c) (rev (sift lt x ys)) = filter (\<lambda>z. k z = c) (rev ys @ [x])"
  using assms
proof (induction ys)
  case (Cons y ys)
  show ?case
  proof (cases "k x < k y")
    case True
    with Cons.prems(1) have "lt x y" by simp
    with True Cons show ?thesis by (auto simp: sorted_append)
  next
    case False
    with Cons.prems(1) have "\<not> lt x y" by simp
    with False Cons.prems(2) show ?thesis by (fastforce simp: sorted_append)
  qed
qed simp

lemma SliceStable_sort_key:
  fixes k :: "'a \<Rightarrow> 'b :: linorder"
  assumes "\<And>x y. x \<in> set xs \<Longrightarrow> y \<in> set xs \<Longrightarrow> lt x y \<longleftrightarrow> k x < k y"
  shows "SliceStable lt xs = sort_key k xs"
proof -
  have "sorted (rev (map k (foldl (\<lambda>sorted x. sift lt x sorted) acc ys))) \<and>
      (\<forall>c. filter (\<lambda>z. k z = c) (rev (foldl (\<lambda>sorted x. sift lt x sorted) acc ys)) =
         filter (\<lambda>z. k z = c) (rev acc @ ys))"
    if "sorted (rev (map k acc))" "set acc \<subseteq> set xs" "set ys \<subseteq> set xs" for acc ys
    using that
  proof (induction ys arbitrary: acc)
    case (Cons y ys)
    have s: "sorted (rev (map k (sift lt y acc))) \<and>
        filter (\<lambda>z. k z = c) (rev (sift lt y acc)) = filter (\<lambda>z. k z = c) (rev acc @ [y])" for c
      by (rule sift_sorted) (use assms Cons.prems in auto)
    have "set (sift lt y acc) \<subseteq> set xs" using Cons.prems by auto
    then show ?case using Cons.IH [of "sift lt y acc"] s Cons.prems by simp
  qed simp
  from this [of "[]" xs] have 1: "sorted (map k (SliceStable lt xs))"
    and 2: "\<And>c. filter (\<lambda>z. k z = c) (SliceStable lt xs) = filter (\<lambda>z. k z = c) xs"
    by (simp_all add: SliceStable_def rev_map)
  show ?thesis
    by (rule properties_for_sort_key [symmetric]) (use 1 2 in \<open>simp_all add: eq_commute\<close>)
qed

text \<open>
  \<open>sort.Slice\<close> sorts at most twelve elements by insertion, and promises no order of equal elements
  beyond that. Here the argument \<open>ties\<close> decides: it arranges the elements by any key of their positions
  before a stable sort, so that every sorted arrangement is the result for some \<open>ties\<close>.
\<close>

definition sort_Slice :: "(nat \<Rightarrow> nat) \<Rightarrow> ('a \<Rightarrow> 'a \<Rightarrow> bool) \<Rightarrow> 'a list \<Rightarrow> 'a list" where
  "sort_Slice ties lt xs =
     SliceStable lt (if length xs \<le> 12 then xs else map snd (sort_key (\<lambda>p. ties (fst p)) (enumerate 0 xs)))"

lemma mset_sort_Slice [simp]: "mset (sort_Slice ties lt xs) = mset xs"
proof -
  have "image_mset snd (mset (enumerate 0 xs)) = mset xs"
    by (metis map_snd_enumerate mset_map)
  then show ?thesis by (simp add: sort_Slice_def)
qed

lemma mset_positions:
  "mset xs = mset ys \<Longrightarrow>
     \<exists>f. inj_on f {..<length xs} \<and> (\<forall>i < length xs. f i < length ys \<and> ys ! f i = xs ! i)"
proof (induction xs arbitrary: ys)
  case (Cons x xs)
  have "x \<in> set ys" using Cons.prems by (metis list.set_intros(1) mset_eq_setD)
  then obtain a b where ys: "ys = a @ x # b" by (meson split_list)
  with Cons.prems have "mset xs = mset (a @ b)" by simp
  then obtain f where f: "inj_on f {..<length xs}" "\<forall>i < length xs. f i < length (a @ b) \<and> (a @ b) ! f i = xs ! i"
    using Cons.IH by blast
  let ?g = "case_nat (length a) (\<lambda>i. if f i < length a then f i else Suc (f i))"
  have "inj_on ?g {..<length (x # xs)}"
    using f(1) by (auto simp: inj_on_def lessThan_Suc_eq_insert_0 split: if_splits)
  moreover have "?g i < length ys \<and> ys ! ?g i = (x # xs) ! i" if "i < length (x # xs)" for i
    using that f(2) by (cases i) (auto simp: ys nth_append Suc_diff_le)
  ultimately show ?case by blast
qed simp

lemma sort_Slice_any:
  fixes k :: "'a \<Rightarrow> 'b :: linorder"
  assumes "\<And>x y. x \<in> set xs \<Longrightarrow> y \<in> set xs \<Longrightarrow> lt x y \<longleftrightarrow> k x < k y"
    and "mset ys = mset xs" and "sorted (map k ys)" and "12 < length xs"
  shows "\<exists>ties. sort_Slice ties lt xs = ys"
proof -
  have n: "length ys = length xs" using assms(2) by (metis size_mset)
  obtain f where f: "inj_on f {..<length xs}" "\<forall>i < length xs. f i < length ys \<and> ys ! f i = xs ! i"
    using mset_positions [OF assms(2) [symmetric]] by blast
  let ?zs = "sort_key (\<lambda>p. f (fst p)) (enumerate 0 xs)"
  have "f ` {..<length xs} = {..<length xs}"
    by (rule endo_inj_surj) (use f n in auto)
  moreover have "mset_set (f ` {..<length xs}) = image_mset f (mset_set {..<length xs})"
    by (rule image_mset_mset_set [OF f(1), symmetric])
  ultimately have "mset (map f [0..<length xs]) = mset [0..<length xs]"
    by (simp add: lessThan_atLeast0)
  moreover have "mset (map (\<lambda>p. f (fst p)) ?zs) = mset (map f (map fst (enumerate 0 xs)))"
    unfolding mset_map mset_sort by (simp add: image_mset.compositionality comp_def)
  ultimately have "mset (map (\<lambda>p. f (fst p)) ?zs) = mset [0..<length xs]" by simp
  moreover have "sorted (map (\<lambda>p. f (fst p)) ?zs)" by (rule sorted_sort_key)
  ultimately have pos: "map (\<lambda>p. f (fst p)) ?zs = [0..<length xs]"
    by (metis properties_for_sort sorted_sort_id sorted_upt)
  have "map snd ?zs = map (\<lambda>p. ys ! f (fst p)) ?zs"
    by (rule map_cong [OF refl]) (use f(2) in \<open>auto simp: in_set_enumerate_eq\<close>)
  also have "\<dots> = map ((!) ys) (map (\<lambda>p. f (fst p)) ?zs)" by simp
  also have "\<dots> = ys" unfolding pos n [symmetric] by (rule map_nth)
  finally have zs: "map snd ?zs = ys" .
  have "SliceStable lt ys = sort_key k ys"
    by (rule SliceStable_sort_key) (use assms(1,2) in \<open>metis mset_eq_setD\<close>)
  also have "\<dots> = ys" using assms(3) by (rule sort_key_id_if_sorted)
  finally have "sort_Slice f lt xs = ys" using assms(4) zs by (simp add: sort_Slice_def)
  then show ?thesis by (rule exI [of _ f])
qed

text \<open>The first element of a stable sort is the first of those with the least key.\<close>

lemma sort_key_first:
  fixes k :: "'a \<Rightarrow> 'b :: linorder"
  shows "first_row (sort_key k xs) = find (\<lambda>x. \<forall>y \<in> set xs. k x \<le> k y) xs"
proof (cases "sort_key k xs")
  case Nil
  then have "xs = []" by (metis length_0_conv length_sort)
  then show ?thesis by simp
next
  case (Cons z zs)
  have "sorted (map k (z # zs))" using sorted_sort_key [of k xs] unfolding Cons .
  then have min: "\<forall>y \<in> set xs. k z \<le> k y"
    using set_sort [of k xs] unfolding Cons by (auto simp del: set_sort)
  have z: "z \<in> set xs" using set_sort [of k xs] unfolding Cons by (auto simp del: set_sort)
  have eq: "(\<forall>y \<in> set xs. k x \<le> k y) \<longleftrightarrow> k x = k z" if "x \<in> set xs" for x
    using min z that by (metis order_antisym)
  have "find (\<lambda>x. \<forall>y \<in> set xs. k x \<le> k y) xs = find (\<lambda>x. k x = k z) xs"
    by (rule find_cong) (use eq in simp_all)
  also have "\<dots> = first_row (filter (\<lambda>x. k x = k z) xs)" by (induction xs) auto
  also have "filter (\<lambda>x. k x = k z) xs = filter (\<lambda>x. k x = k z) (sort_key k xs)"
    by (simp add: sort_key_stable)
  also have "first_row \<dots> = Some z" by (simp add: Cons)
  finally show ?thesis by (simp add: Cons)
qed

end
