(* ===== verification/LanguageHandlers.thy ===== *)
theory LanguageHandlers
  imports Auth GoStrings
begin

text \<open>
  \<open>handlers/language.go\<close>: which language a request is answered in, and choosing it. A rune whose
  lower case is \<open>z\<close>, \<open>h\<close>, \<open>e\<close> or \<open>n\<close> is an ASCII letter, so \<open>strings.ToLower\<close> before a test for a
  prefix of two such letters is \<^const>\<open>lower_ascii\<close>. \<open>SliceStable\<close> agrees with Go's sort on every
  header whose q-values are numbers, and on one with a \<open>NaN\<close> up to twenty candidates.
\<close>

section \<open>The Accept-Language header\<close>

record candidate =
  cd_tag :: string
  cd_q :: fval

definition candidate_of :: "string \<Rightarrow> candidate option" where
  "candidate_of raw =
     (let part = TrimSpace raw in
      if part = [] then None
      else (let has_params = (CHR '';'' \<in> set part);
                tag = (if has_params then TrimSpace (takeWhile (\<lambda>c. c \<noteq> CHR '';'') part) else part);
                params = TrimSpace (drop 1 (dropWhile (\<lambda>c. c \<noteq> CHR '';'') part));
                q = (if has_params \<and> has_prefix params ''q=''
                     then (case ParseFloat (drop 2 params) of Some v \<Rightarrow> v | None \<Rightarrow> fval_one)
                     else fval_one)
            in if tag = [] then None else Some \<lparr>cd_tag = tag, cd_q = q\<rparr>))"

definition candidates_of :: "string \<Rightarrow> candidate list" where
  "candidates_of header = List.map_filter candidate_of (split_on (CHR '','') header)"

definition tag_language :: "string \<Rightarrow> language option" where
  "tag_language raw =
     (let tag = map lower_ascii raw in
      if has_prefix tag ''zh'' then Some LanguageTraditionalChinese
      else if has_prefix tag ''en'' then Some LanguageEnglish else None)"

fun first_supported :: "candidate list \<Rightarrow> language" where
  "first_supported [] = LanguageEnglish"
| "first_supported (c # cs) =
     (case tag_language (cd_tag c) of Some l \<Rightarrow> l | None \<Rightarrow> first_supported cs)"

definition languageFromAcceptLanguage :: "string \<Rightarrow> language" where
  "languageFromAcceptLanguage header =
     first_supported (SliceStable (\<lambda>a b. fval_greater (cd_q a) (cd_q b)) (candidates_of header))"

section \<open>The language of a request\<close>

definition languageCookieName :: string where "languageCookieName = ''ps_lang''"
definition languageCookieLifetime :: int where "languageCookieLifetime = 365 * 24 * hour"

definition resolveLanguageForRequest :: "web \<Rightarrow> request \<Rightarrow> db \<Rightarrow> language" where
  "resolveLanguageForRequest W r d =
     (let (u, ok) = currentUser r in
      if ok \<and> \<not> Language_Empty (usr_PreferredLanguage u) then usr_PreferredLanguage u
      else case (case request_Cookie r languageCookieName of
                   None \<Rightarrow> None
                 | Some v \<Rightarrow> (case NewLanguage v of Inl _ \<Rightarrow> None | Inr l \<Rightarrow> Some l)) of
             Some l \<Rightarrow> l
           | None \<Rightarrow>
               (case ReadSettings (wb_env W) d of
                  Inl _ \<Rightarrow> LanguageEnglish
                | Inr st \<Rightarrow>
                    (if \<not> SiteDefaultLanguage_IsAuto (set_DefaultLanguage st)
                     then SiteDefaultLanguage_Language (set_DefaultLanguage st)
                     else languageFromAcceptLanguage (header_Get r ''Accept-Language''))))"

definition resolveLanguage :: "('s \<Rightarrow> db) \<Rightarrow> 's handler_on \<Rightarrow> 's handler_on" where
  "resolveLanguage store h W w r s =
     h W w (r\<lparr>rq_localizer :=
              Some (Localizer_New W (Language_value (resolveLanguageForRequest W r (store s))))\<rparr>) s"

definition setLanguageCookie :: "web \<Rightarrow> response \<Rightarrow> request \<Rightarrow> language \<Rightarrow> response" where
  "setLanguageCookie W w r lang =
     SetCookie \<lparr>ck_name = languageCookieName, ck_value = Language_value lang, ck_path = ''/'',
       ck_expires = Some (time_add (server_now W) languageCookieLifetime), ck_max_age = 0,
       ck_http_only = True, ck_secure = requestIsHTTPS W r, ck_same_site_lax = True\<rparr> w"

definition languagePut :: handler where
  "languagePut W w r d =
     (case decode_json r of
        None \<Rightarrow> (http_Error w ''Invalid request: '' (Some DecodeError) 400, d)
      | Some fs \<Rightarrow>
          (case string_field ''language'' fs of
             None \<Rightarrow> (http_Error w ''Invalid request: '' (Some DecodeError) 400, d)
           | Some raw \<Rightarrow>
               (case NewLanguage raw of
                  Inl e \<Rightarrow> (http_Error w ''Invalid language: '' (Some (WebDomainError e)) 400, d)
                | Inr lang \<Rightarrow>
                    (let w1 = setLanguageCookie W w r lang; (u, ok) = currentUser r in
                     if ok
                     then (case UpdateUserLanguage (wb_env W) d (usr_ID u) lang of
                             (Inl _, d1) \<Rightarrow> (http_Error w1 ''Failed to save language preference'' None 500, d1)
                           | (Inr _, d1) \<Rightarrow> (w1, d1))
                     else (w1, d)))))"

section \<open>Which language is chosen\<close>

text \<open>The key a candidate is sorted by: infinite q-values lie beyond all finite ones.\<close>

definition q_key :: "fval \<Rightarrow> int \<times> int" where
  "q_key q = (case q of FInf neg \<Rightarrow> (if neg then 1 else - 1, 0) | FFin i \<Rightarrow> (0, - i) | FNaN \<Rightarrow> (0, 0))"

lemma fval_greater_key: "a \<noteq> FNaN \<Longrightarrow> b \<noteq> FNaN \<Longrightarrow> fval_greater a b \<longleftrightarrow> q_key a < q_key b"
  by (cases a; cases b) (auto simp: fval_greater_def q_key_def)

lemma first_supported_filter:
  "first_supported cs =
     (case first_row (filter (\<lambda>c. tag_language (cd_tag c) \<noteq> None) cs) of
        None \<Rightarrow> LanguageEnglish | Some c \<Rightarrow> the (tag_language (cd_tag c)))"
  by (induction cs) auto

text \<open>The reference: among the candidates PicoShare has an interface for, the first of greatest quality.\<close>

definition preferred_candidate :: "candidate list \<Rightarrow> candidate option" where
  "preferred_candidate cs =
     (let known = filter (\<lambda>c. tag_language (cd_tag c) \<noteq> None) cs in
      find (\<lambda>c. \<forall>c' \<in> set known. \<not> fval_greater (cd_q c') (cd_q c)) known)"

lemma languageFromAcceptLanguage_reference:
  assumes "\<forall>c \<in> set (candidates_of header). cd_q c \<noteq> FNaN"
  shows "languageFromAcceptLanguage header =
    (case preferred_candidate (candidates_of header) of
       None \<Rightarrow> LanguageEnglish | Some c \<Rightarrow> the (tag_language (cd_tag c)))"
proof -
  let ?cs = "candidates_of header" and ?k = "\<lambda>c. q_key (cd_q c)"
  let ?known = "filter (\<lambda>c. tag_language (cd_tag c) \<noteq> None) ?cs"
  have "SliceStable (\<lambda>a b. fval_greater (cd_q a) (cd_q b)) ?cs = sort_key ?k ?cs"
    by (rule SliceStable_sort_key) (use assms fval_greater_key in auto)
  moreover have "first_row (sort_key ?k ?known) = preferred_candidate ?cs"
    unfolding sort_key_first preferred_candidate_def Let_def
    by (rule find_cong) (use assms fval_greater_key in \<open>auto simp: not_less\<close>)
  ultimately show ?thesis
    by (simp add: languageFromAcceptLanguage_def first_supported_filter filter_sort)
qed

lemma first_supported_range:
  "first_supported cs = LanguageEnglish \<or> first_supported cs = LanguageTraditionalChinese"
  by (induction cs) (auto simp: tag_language_def Let_def split: option.splits)

lemma SiteDefaultLanguage_Language_range:
  "SiteDefaultLanguage_Language l \<in> {NoLanguage, LanguageEnglish, LanguageTraditionalChinese}"
  by (auto simp: SiteDefaultLanguage_Language_def NewLanguage_iff LanguageEnglish_def
      LanguageTraditionalChinese_def split: sum.splits)

lemma languagePut_users:
  assumes "languagePut W w r d = (w1, d1)"
  shows "d1 = d \<or> (\<exists>u lang. rq_user r = Some u \<and>
    d1 = d\<lparr>users := map (\<lambda>x. if ur_id x = UserID_Int64 (usr_ID u)
             then x\<lparr>ur_preferred_language := Some (Language_value lang)\<rparr> else x) (users d)\<rparr>)"
  using assms
  by (cases "rq_user r")
    (auto simp: languagePut_def UpdateUserLanguage_def Let_def split: option.splits sum.splits prod.splits if_splits)

end
