(* ===== verification/Space.thy ===== *)
theory Space
  imports StoreEntries
begin

text \<open>
  Package \<open>space\<close> and \<open>space/checkers\<close>: how much room the stored files, the database files and the
  file system take. Sums and products are computed in \<open>big.Int\<close>, and every conversion back to a
  machine integer is checked. The file system is a record of functions; the database reader is
  the locale, interpreted on the store.
\<close>

datatype space_error =
  ErrSizeOverflow
| ErrNegativeFileSizeOnDisk
| FileSystemError
| SpaceStoreError store_error

section \<open>Conversions\<close>

definition uint64ToBigInt :: "u64 \<Rightarrow> space_error + int" where
  "uint64ToBigInt val = (if uint val > max_int64 then Inl ErrSizeOverflow else Inr (uint val))"

text \<open>\<open>big.Int.Uint64\<close> takes the low 64 bits of the absolute value.\<close>

definition big_Uint64 :: "int \<Rightarrow> u64" where
  "big_Uint64 b = of_int \<bar>b\<bar>"

definition bigIntToUint64 :: "int \<Rightarrow> space_error + u64" where
  "bigIntToUint64 b = (if b > max_int64 then Inl ErrSizeOverflow else Inr (big_Uint64 b))"

lemma uint64ToBigInt_Inr: "uint64ToBigInt v = Inr i \<longleftrightarrow> i = uint v \<and> uint v \<le> max_int64"
  by (auto simp: uint64ToBigInt_def)

lemma bigIntToUint64_Inr: "0 \<le> b \<Longrightarrow> bigIntToUint64 b = Inr v \<longleftrightarrow> b \<le> max_int64 \<and> uint v = b"
proof -
  assume b: "0 \<le> b"
  have "uint (of_int b :: u64) = b" if "b \<le> max_int64"
    using b that by (simp add: uint_word_of_int take_bit_int_eq_self)
  then show ?thesis using b by (auto simp: bigIntToUint64_def big_Uint64_def word_uint_eq_iff)
qed

section \<open>The database\<close>

primrec sum_sizes :: "int \<Rightarrow> upload_metadata list \<Rightarrow> space_error + int" where
  "sum_sizes dbTotal [] = Inr dbTotal"
| "sum_sizes dbTotal (entry # es) =
     and_then (uint64ToBigInt (FileSize_UInt64 (um_Size entry))) (\<lambda>bigSize. sum_sizes (dbTotal + bigSize) es)"

definition TotalSize :: "store_error + upload_metadata list \<Rightarrow> space_error + u64" where
  "TotalSize read =
     (case read of
        Inl e \<Rightarrow> Inl (SpaceStoreError e)
      | Inr es \<Rightarrow> and_then (sum_sizes 0 es) bigIntToUint64)"

abbreviation "entry_bytes m \<equiv> uint (FileSize_UInt64 (um_Size m))"

lemma sum_sizes_Inr:
  "sum_sizes t es = Inr v \<longleftrightarrow>
     v = t + sum_list (map entry_bytes es) \<and> (\<forall>m \<in> set es. entry_bytes m \<le> max_int64)"
  by (induction es arbitrary: t) (auto simp: and_then_eq_Inr_iff uint64ToBigInt_Inr)

lemma entry_bytes_sum: "0 \<le> sum_list (map entry_bytes es)"
  by (rule sum_list_nonneg) auto

lemma member_le_sum: "m \<in> set es \<Longrightarrow> entry_bytes m \<le> sum_list (map entry_bytes es)"
  by (rule member_le_sum_list) (auto simp: uint_ge_0)

text \<open>The total is the exact sum, or an overflow is reported; no wrapped sum is ever returned.\<close>

lemma TotalSize_exact:
  "TotalSize (Inr es) =
     (if sum_list (map entry_bytes es) \<le> max_int64 then Inr (of_int (sum_list (map entry_bytes es)))
      else Inl ErrSizeOverflow)"
proof (cases "sum_sizes 0 es")
  case (Inl e)
  have "e = ErrSizeOverflow" if "sum_sizes t xs = Inl e" for t xs
    using that by (induction xs arbitrary: t) (auto simp: uint64ToBigInt_def split: if_splits)
  moreover have "\<not> sum_list (map entry_bytes es) \<le> max_int64"
  proof
    assume "sum_list (map entry_bytes es) \<le> max_int64"
    then have "sum_sizes 0 es = Inr (sum_list (map entry_bytes es))"
      by (force simp: sum_sizes_Inr dest: member_le_sum)
    with Inl show False by simp
  qed
  ultimately show ?thesis using Inl by (simp add: TotalSize_def)
next
  case (Inr v)
  then have "v = sum_list (map entry_bytes es)" by (simp add: sum_sizes_Inr)
  with Inr entry_bytes_sum [of es] show ?thesis
    by (simp add: TotalSize_def bigIntToUint64_def big_Uint64_def)
qed

text \<open>A reader of entries: no entry it lists is empty, so a zero total means that there is none.\<close>

locale metadata_reader =
  fixes read :: "store_error + upload_metadata list"
  assumes sizes_positive: "read = Inr es \<Longrightarrow> m \<in> set es \<Longrightarrow> FileSize_UInt64 (um_Size m) \<noteq> 0"
begin

lemma total_zero: "TotalSize read = Inr 0 \<longleftrightarrow> read = Inr []"
proof (cases read)
  case (Inr es)
  have "es = []" if "TotalSize (Inr es) = Inr 0"
  proof (rule ccontr)
    assume "es \<noteq> []"
    then obtain m where m: "m \<in> set es" by (cases es) auto
    then have "0 < entry_bytes m" using sizes_positive [OF Inr] uint_ge_0 by (metis order_le_less uint_0_iff)
    then have "0 < sum_list (map entry_bytes es)" using member_le_sum [OF m] by linarith
    moreover have "sum_list (map entry_bytes es) \<le> max_int64" "(of_int (sum_list (map entry_bytes es)) :: u64) = 0"
      using that unfolding TotalSize_exact by (auto split: if_splits)
    ultimately show False by (auto simp: word_of_int_eq_0_iff dest: zdvd_imp_le)
  qed
  then show ?thesis by (auto simp: Inr) (simp add: TotalSize_exact)
qed (simp add: TotalSize_def)

end

lemma entry_list_item_size: "entry_list_item d r = Inr m \<Longrightarrow> FileSize_UInt64 (um_Size m) \<noteq> 0"
  by (auto simp: entry_list_item_def and_then_eq_Inr_iff FileSizeFromUint64_def wrap_domain_def
      split: option.splits if_splits sum.splits)

lemma GetEntriesMetadata_member:
  assumes "GetEntriesMetadata E d opts = Inr ms" and "m \<in> set ms"
  obtains r where "r \<in> set (fetched E OpGetEntriesMetadata 1 (filter (\<lambda>r. has_chunks d (er_id r) \<and>
      (UserID_Empty (ResolveReadEntriesOptions opts) \<or>
       er_owner_user_id r = Some (UserID_Int64 (ResolveReadEntriesOptions opts)))) (entries d)))"
    "entry_list_item d r = Inr m"
  using assms by (auto simp: GetEntriesMetadata_def and_then_eq_Inr_iff Let_def dest!: map_result_member)

interpretation store_sizes: metadata_reader "GetEntriesMetadata E d opts"
  by unfold_locales (auto elim!: GetEntriesMetadata_member dest: entry_list_item_size)

text \<open>An empty store is the only one that the space check reports no bytes for.\<close>

lemma no_bytes_no_files:
  "TotalSize (GetEntriesMetadata E d opts) = Inr 0 \<longleftrightarrow> GetEntriesMetadata E d opts = Inr []"
  by (rule store_sizes.total_zero)

section \<open>The file system\<close>

record file_system_stats =
  fs_FreeBlocks :: u64
  fs_TotalBlocks :: u64
  fs_BlockSize :: int

record file_system_reader =
  GetFileSystemStats :: "string \<Rightarrow> file_system_stats option"
  FileSizeOf :: "string \<Rightarrow> int option"
  GlobFiles :: "string \<Rightarrow> string list option"

record file_system_usage =
  fu_UsedBytes :: u64
  fu_TotalBytes :: u64

record picoshare_usage =
  pu_FileSystemUsage :: file_system_usage
  pu_PicoShareDbFileSize :: u64

definition measureWholeFilesystem :: "file_system_reader \<Rightarrow> string \<Rightarrow> space_error + file_system_usage" where
  "measureWholeFilesystem fs dbPath =
     and_then (of_option FileSystemError (GetFileSystemStats fs dbPath)) (\<lambda>stats.
     and_then (uint64ToBigInt (fs_FreeBlocks stats)) (\<lambda>freeBlocks.
     and_then (uint64ToBigInt (fs_TotalBlocks stats)) (\<lambda>totalBlocks.
       let available = freeBlocks * fs_BlockSize stats;
           total = totalBlocks * fs_BlockSize stats
       in and_then (bigIntToUint64 (total - available)) (\<lambda>usedBytes.
          and_then (bigIntToUint64 total) (\<lambda>totalBytes.
            Inr \<lparr>fu_UsedBytes = usedBytes, fu_TotalBytes = totalBytes\<rparr>)))))"

primrec sum_files :: "file_system_reader \<Rightarrow> int \<Rightarrow> string list \<Rightarrow> space_error + int" where
  "sum_files fs totalSize [] = Inr totalSize"
| "sum_files fs totalSize (f # rest) =
     (case FileSizeOf fs f of
        None \<Rightarrow> Inl FileSystemError
      | Some s \<Rightarrow>
          (if s < 0 then Inl ErrNegativeFileSizeOnDisk else sum_files fs (totalSize + s) rest))"

definition measureDbFileUsage :: "file_system_reader \<Rightarrow> string \<Rightarrow> space_error + u64" where
  "measureDbFileUsage fs dbPath =
     and_then (of_option FileSystemError (GlobFiles fs (dbPath @ ''*''))) (\<lambda>matches.
     and_then (sum_files fs 0 matches) bigIntToUint64)"

definition MeasureUsage :: "file_system_reader \<Rightarrow> string \<Rightarrow> space_error + picoshare_usage" where
  "MeasureUsage fs dbPath =
     and_then (measureWholeFilesystem fs dbPath) (\<lambda>fsu.
     and_then (measureDbFileUsage fs dbPath) (\<lambda>dbFilesSize.
       Inr \<lparr>pu_FileSystemUsage = fsu, pu_PicoShareDbFileSize = dbFilesSize\<rparr>))"

section \<open>Both together\<close>

record usage =
  us_TotalServingBytes :: u64
  us_DatabaseFileSize :: u64
  us_FileSystemUsedBytes :: u64
  us_FileSystemTotalBytes :: u64

definition space_Check :: "space_error + picoshare_usage \<Rightarrow> space_error + u64 \<Rightarrow> space_error + usage" where
  "space_Check measured totalSize =
     and_then measured (\<lambda>fsUsage.
     and_then totalSize (\<lambda>dbTotalSize.
       Inr \<lparr>us_TotalServingBytes = dbTotalSize, us_DatabaseFileSize = pu_PicoShareDbFileSize fsUsage,
            us_FileSystemUsedBytes = fu_UsedBytes (pu_FileSystemUsage fsUsage),
            us_FileSystemTotalBytes = fu_TotalBytes (pu_FileSystemUsage fsUsage)\<rparr>))"

definition checkSpace :: "file_system_reader \<Rightarrow> string \<Rightarrow> env \<Rightarrow> db \<Rightarrow> space_error + usage" where
  "checkSpace fs dbPath E d = space_Check (MeasureUsage fs dbPath) (TotalSize (GetEntriesMetadata E d []))"

lemma sum_files_Inr:
  "sum_files fs t files = Inr v \<Longrightarrow>
     \<exists>sizes. map (FileSizeOf fs) files = map Some sizes \<and> list_all (\<lambda>s. 0 \<le> s) sizes \<and> v = t + sum_list sizes"
proof (induction files arbitrary: t)
  case (Cons f rest)
  then obtain s where s: "FileSizeOf fs f = Some s" "0 \<le> s" "sum_files fs (t + s) rest = Inr v"
    by (auto split: option.splits if_splits)
  from Cons.IH [OF s(3)] obtain sizes where
    "map (FileSizeOf fs) rest = map Some sizes" "list_all (\<lambda>s. 0 \<le> s) sizes" "v = t + s + sum_list sizes" by blast
  with s show ?case by (intro exI [of _ "s # sizes"]) simp
qed auto

text \<open>Where the file system reports at most as many free blocks as blocks, no figure has wrapped around.\<close>

lemma measureWholeFilesystem_exact:
  assumes "measureWholeFilesystem fs p = Inr u" and "GetFileSystemStats fs p = Some st"
    and "0 \<le> fs_BlockSize st" and "fs_FreeBlocks st \<le> fs_TotalBlocks st"
  shows "uint (fu_TotalBytes u) = uint (fs_TotalBlocks st) * fs_BlockSize st"
    and "uint (fu_UsedBytes u) = (uint (fs_TotalBlocks st) - uint (fs_FreeBlocks st)) * fs_BlockSize st"
proof -
  let ?b = "fs_BlockSize st" and ?t = "uint (fs_TotalBlocks st)" and ?f = "uint (fs_FreeBlocks st)"
  have le: "?f * ?b \<le> ?t * ?b" using assms(3,4) by (simp add: word_le_def mult_right_mono)
  have nn: "0 \<le> ?t * ?b" "0 \<le> ?t * ?b - ?f * ?b" using assms(3) le by simp_all
  have "bigIntToUint64 (?t * ?b - ?f * ?b) = Inr (fu_UsedBytes u)" "bigIntToUint64 (?t * ?b) = Inr (fu_TotalBytes u)"
    using assms(1,2)
    by (auto simp: measureWholeFilesystem_def and_then_eq_Inr_iff uint64ToBigInt_Inr Let_def)
  then show "uint (fu_TotalBytes u) = ?t * ?b" "uint (fu_UsedBytes u) = (?t - ?f) * ?b"
    using bigIntToUint64_Inr [OF nn(1)] bigIntToUint64_Inr [OF nn(2)] by (auto simp: left_diff_distrib)
qed

end
