(* ===== verification/Build.thy ===== *)
theory Build
  imports GoTime
begin

text \<open>
  \<open>build/build.go\<close>: version, commit time and revision of the running program, read from what the
  Go toolchain embedded in it (\<open>debug.ReadBuildInfo\<close>, a parameter: the main module's version and
  the list of build settings, or nothing).
\<close>

record debug_info =
  bi_main_version :: string
  bi_settings :: "(string \<times> string) list"

fun setting_value :: "string \<Rightarrow> (string \<times> string) list \<Rightarrow> string" where
  "setting_value key [] = []"
| "setting_value key ((k, v) # ss) = (if k = key then v else setting_value key ss)"

definition buildSetting :: "debug_info option \<Rightarrow> string \<Rightarrow> string" where
  "buildSetting info key = (case info of None \<Rightarrow> [] | Some i \<Rightarrow> setting_value key (bi_settings i))"

definition trim_prefix :: "string \<Rightarrow> string \<Rightarrow> string" where
  "trim_prefix s p = (if has_prefix s p then drop (length p) s else s)"

definition build_Version :: "debug_info option \<Rightarrow> string" where
  "build_Version info = (case info of None \<Rightarrow> [] | Some i \<Rightarrow> trim_prefix (bi_main_version i) ''v'')"

definition build_Time :: "debug_info option \<Rightarrow> time" where
  "build_Time info =
     (let v = buildSetting info ''vcs.time'' in
      if v = [] then zero_time
      else case parse_rfc3339 v of None \<Rightarrow> zero_time | Some t \<Rightarrow> t)"

definition build_Revision :: "debug_info option \<Rightarrow> string" where
  "build_Revision info = buildSetting info ''vcs.revision''"

text \<open>What a build without version control data shows.\<close>

lemma no_build_info [simp]:
  "build_Version None = []" "build_Time None = zero_time" "build_Revision None = []"
  by (simp_all add: build_Version_def build_Time_def build_Revision_def buildSetting_def)

text \<open>The toolchain writes the commit time in UTC; it is shown as that instant.\<close>

lemma build_Time_written:
  assumes "text_range t" and "setting_value ''vcs.time'' (bi_settings i) = format_rfc3339 (to_utc t)"
  shows "build_Time (Some i) = trunc_secs t"
proof -
  have "parse_rfc3339 [] = None" by code_simp
  then have "format_rfc3339 (to_utc t) \<noteq> []" using parse_format_utc [OF assms(1)] by auto
  then show ?thesis using parse_format_utc [OF assms(1)] assms(2) by (simp add: build_Time_def buildSetting_def)
qed

end
