(* ===== verification/ViewText.thy ===== *)
theory ViewText
  imports Http GoStrings
begin

text \<open>
  The text functions of \<open>handlers/views.go\<close>: names of lifetimes and expirations in the visitor's
  language, sizes, icons and previews of files, the progress of a guest link.
\<close>

section \<open>Formatting\<close>

text \<open>\<open>fmt.Sprintf\<close> for the verbs of the catalogs: \<open>%s\<close>, \<open>%d\<close> and \<open>%.0f\<close>.\<close>

datatype fmt_arg = StringArg string | IntArg int | FloatArg bool f64

definition fixed_text :: "nat \<Rightarrow> f64 \<Rightarrow> string" where
  "fixed_text prec x =
     (let m = round_half_even (fst x * 10 ^ prec) (snd x)
      in show_nat (m div 10 ^ prec) @ (if prec = 0 then [] else ''.'' @ pad_digits prec (m mod 10 ^ prec)))"

definition signed_text :: "bool \<Rightarrow> f64 \<Rightarrow> string" where
  "signed_text neg x = (if neg then ''-'' else []) @ fixed_text 0 x"

fun Sprintf :: "string \<Rightarrow> fmt_arg list \<Rightarrow> string" where
  "Sprintf [] args = []"
| "Sprintf (c # s) args =
     (if c = CHR ''%'' \<and> has_prefix s ''s'' then
        (case args of StringArg t # rest \<Rightarrow> t @ Sprintf (drop 1 s) rest | _ \<Rightarrow> c # Sprintf s args)
      else if c = CHR ''%'' \<and> has_prefix s ''d'' then
        (case args of IntArg i # rest \<Rightarrow> format_int i @ Sprintf (drop 1 s) rest | _ \<Rightarrow> c # Sprintf s args)
      else if c = CHR ''%'' \<and> has_prefix s ''.0f'' then
        (case args of FloatArg neg x # rest \<Rightarrow> signed_text neg x @ Sprintf (drop 3 s) rest | _ \<Rightarrow> c # Sprintf s args)
      else c # Sprintf s args)"

definition Localizer_T_args :: "web \<Rightarrow> string \<Rightarrow> string \<Rightarrow> fmt_arg list \<Rightarrow> string" where
  "Localizer_T_args W lang key args =
     (case catalog W lang key of
        Some msg \<Rightarrow> Sprintf msg args
      | None \<Rightarrow> (case catalog W ''en'' key of Some msg \<Rightarrow> Sprintf msg args | None \<Rightarrow> key))"

text \<open>\<open>THTML\<close> gives the same text to the template, which does not escape it. \<open>Messages\<close> is a page's
  dictionary for its scripts.\<close>

definition Localizer_THTML :: "web \<Rightarrow> string \<Rightarrow> string \<Rightarrow> fmt_arg list \<Rightarrow> string" where
  "Localizer_THTML W lang key args =
     (if args = [] then Localizer_T W lang key else Localizer_T_args W lang key args)"

definition Localizer_Messages :: "web \<Rightarrow> string \<Rightarrow> string list \<Rightarrow> (string \<rightharpoonup> string)" where
  "Localizer_Messages W lang keys =
     foldl (\<lambda>out k. out(k \<mapsto> Localizer_T W lang k)) Map.empty keys"

lemma Localizer_Messages_key:
  "Localizer_Messages W lang keys k = (if k \<in> set keys then Some (Localizer_T W lang k) else None)"
proof -
  have "foldl (\<lambda>out k. out(k \<mapsto> Localizer_T W lang k)) m keys k =
      (if k \<in> set keys then Some (Localizer_T W lang k) else m k)" for m
    by (induction keys arbitrary: m) auto
  then show ?thesis by (simp add: Localizer_Messages_def)
qed

text \<open>\<open>dict\<close> of the templates: keys and values in turn; a later key replaces an earlier one.\<close>

datatype 'a template_value = TemplateString string | TemplateValue 'a

datatype dict_error = OddArguments | KeyNotString

fun dict_pairs :: "(string \<rightharpoonup> 'a template_value) \<Rightarrow> 'a template_value list \<Rightarrow>
    dict_error + (string \<rightharpoonup> 'a template_value)" where
  "dict_pairs m (k # v # rest) =
     (case k of TemplateString s \<Rightarrow> dict_pairs (m(s \<mapsto> v)) rest | TemplateValue _ \<Rightarrow> Inl KeyNotString)"
| "dict_pairs m _ = Inr m"

definition dict :: "'a template_value list \<Rightarrow> dict_error + (string \<rightharpoonup> 'a template_value)" where
  "dict pairs = (if length pairs mod 2 \<noteq> 0 then Inl OddArguments else dict_pairs Map.empty pairs)"

lemma dict_of_pairs:
  "dict (concat (map (\<lambda>(k, v). [TemplateString k, v]) kvs)) = Inr (map_of (rev kvs))"
proof -
  have "dict_pairs m (concat (map (\<lambda>(k, v). [TemplateString k, v]) kvs)) = Inr (m ++ map_of (rev kvs))" for m
    by (induction kvs arbitrary: m) (auto simp: map_add_def fun_eq_iff split: option.splits)
  moreover have "length (concat (map (\<lambda>(k, v). [TemplateString k, v]) kvs)) mod 2 = 0"
    by (induction kvs) auto
  ultimately show ?thesis by (simp add: dict_def)
qed

text \<open>\<open>t.Format(time.DateOnly)\<close>.\<close>

definition format_date_only :: "time \<Rightarrow> string" where
  "format_date_only t =
     (let (y, m, d) = date_of_days ((unix_secs t + loc_offset (t_loc t)) div 86400)
      in append_int y 4 @ ''-'' @ append_int m 2 @ ''-'' @ append_int d 2)"

definition time_IsZero :: "time \<Rightarrow> bool" where
  "time_IsZero t \<longleftrightarrow> t_ns t = t_ns zero_time"

definition formatTimeOrEmpty :: "time \<Rightarrow> string" where
  "formatTimeOrEmpty t = (if time_IsZero t then [] else format_rfc3339 t)"

section \<open>Lifetimes and expirations\<close>

definition friendlyLifetimeName :: "web \<Rightarrow> file_lifetime \<Rightarrow> string \<Rightarrow> string" where
  "friendlyLifetimeName W lt l =
     (if FileLifetime_Equal lt FileLifetimeInfinite then Localizer_T W l ''lifetime.never''
      else if FileLifetime_IsYearBoundary lt
      then (let years = FileLifetime_Years lt in
            Localizer_T_args W l (if years = 1 then ''lifetime.year'' else ''lifetime.years'') [IntArg (uint years)])
      else (let days = FileLifetime_Days lt in
            Localizer_T_args W l (if days = 1 then ''lifetime.day'' else ''lifetime.days'') [IntArg (uint days)]))"

text \<open>The number of days of a duration as the pages compute it: hours in double precision, by 24.\<close>

definition duration_days :: "int \<Rightarrow> f64" where
  "duration_days delta = f64_div (hours (nat \<bar>delta\<bar>)) (f64_of_nat 24)"

definition formatExpiration_file :: "web \<Rightarrow> expiration_time \<Rightarrow> string \<Rightarrow> string" where
  "formatExpiration_file W et l =
     (if et = NeverExpire then Localizer_T W l ''lifetime.never''
      else (let t = wb_local W et; delta = time_sub t (server_now W)
            in Localizer_T_args W l ''expiration.withDays''
                 [StringArg (format_date_only t), FloatArg (delta < 0) (duration_days delta)]))"

definition formatExpiration_link :: "web \<Rightarrow> expiration_time \<Rightarrow> string \<Rightarrow> string" where
  "formatExpiration_link W et l =
     (if et = NeverExpire then Localizer_T W l ''lifetime.never''
      else (let delta = time_sub et (server_now W)
            in Localizer_T_args W l (if delta < 0 then ''expiration.withDaysAgo'' else ''expiration.withDays'')
                 [StringArg (format_date_only et), FloatArg False (duration_days delta)]))"

definition formatExpiration_edit :: "web \<Rightarrow> expiration_time \<Rightarrow> string \<Rightarrow> string" where
  "formatExpiration_edit W et l =
     (if et = NeverExpire then Localizer_T W l ''lifetime.never'' else format_rfc3339 et)"

definition expiringSoonThreshold :: int where "expiringSoonThreshold = 72 * hour"

definition isExpiringSoon :: "expiration_time \<Rightarrow> time \<Rightarrow> bool" where
  "isExpiringSoon et now =
     (if et = NeverExpire then False
      else (let delta = time_sub et now in 0 < delta \<and> delta \<le> expiringSoonThreshold))"

section \<open>Sizes\<close>

text \<open>The divisor and the number of steps after the first: the loop ends as \<open>n\<close> shrinks.\<close>

function unit_loop :: "nat \<Rightarrow> nat \<Rightarrow> nat \<Rightarrow> nat \<times> nat" where
  "unit_loop n dv exp = (if 1024 \<le> n then unit_loop (n div 1024) (dv * 1024) (exp + 1) else (dv, exp))"
  by pat_completeness auto
termination
  by (relation "measure (\<lambda>(n, dv, exp). n)") auto

declare unit_loop.simps [simp del]

text \<open>\<^const>\<open>None\<close> would be an index out of the range of the unit letters.\<close>

definition unit_letter :: "nat \<Rightarrow> char option" where
  "unit_letter exp = (if exp < length ''kMGTPE'' then Some (''kMGTPE'' ! exp) else None)"

definition humanReadableDiskUsage :: "u64 \<Rightarrow> string option" where
  "humanReadableDiskUsage b =
     (if b < 1024 then Some (show_nat (unat b) @ '' B'')
      else (let (dv, exp) = unit_loop (unat b div 1024) 1024 0
            in map_option (\<lambda>c. fixed_text 2 (f64_div (f64_of_nat (unat b)) (f64_of_nat dv)) @ '' '' @ [c] @ ''B'')
                 (unit_letter exp)))"

definition humanReadableFileSize :: "file_size \<Rightarrow> string option" where
  "humanReadableFileSize s = humanReadableDiskUsage (FileSize_UInt64 s)"

definition formatSizeLimit :: "web \<Rightarrow> u64 option \<Rightarrow> string \<Rightarrow> string option" where
  "formatSizeLimit W limit l =
     (case limit of
        None \<Rightarrow> Some (Localizer_T W l ''common.unlimited'')
      | Some b \<Rightarrow>
          (if b < 1024 then Some (show_nat (unat b) @ '' B'')
           else (let (dv, exp) = unit_loop (unat b div 1024) 1024 0
                 in map_option (\<lambda>c. fixed_text 2 (f64_div (f64_of_nat (unat b)) (f64_of_nat dv)) @ '' '' @ [c] @ ''B'')
                      (unit_letter exp))))"

definition formatCountLimit :: "web \<Rightarrow> int option \<Rightarrow> string \<Rightarrow> string" where
  "formatCountLimit W limit l =
     (case limit of None \<Rightarrow> Localizer_T W l ''common.unlimited'' | Some n \<Rightarrow> format_int n)"

definition percentage :: "u64 \<Rightarrow> u64 \<Rightarrow> string" where
  "percentage part whole =
     (if whole = 0 then (if part = 0 then ''NaN'' else ''+Inf'') @ ''%''
      else fixed_text 0 (f64_mul (f64_of_nat 100)
             (f64_div (f64_of_nat (unat part)) (f64_of_nat (unat whole)))) @ ''%'')"

definition guestLinkUploadProgressPercent :: "nat \<Rightarrow> int option \<Rightarrow> int" where
  "guestLinkUploadProgressPercent uploaded limit =
     (case limit of
        None \<Rightarrow> - 1
      | Some m \<Rightarrow>
          (if m \<le> 0 then 100
           else (let pct = int (f64_trunc (f64_div (f64_mul (f64_of_nat 100) (f64_of_nat uploaded)) (f64_of_nat (nat m))))
                 in if pct > 100 then 100 else pct)))"

section \<open>Content types\<close>

definition fileTypeIcon :: "content_type \<Rightarrow> string" where
  "fileTypeIcon s =
     (if has_prefix s ''image/'' then ''fa-file-image''
      else if has_prefix s ''video/'' then ''fa-file-video''
      else if has_prefix s ''audio/'' then ''fa-file-audio''
      else if has_prefix s ''text/'' then ''fa-file-lines''
      else if s = ''application/pdf'' then ''fa-file-pdf''
      else if s \<in> {''application/zip'', ''application/x-7z-compressed'', ''application/x-tar'',
                    ''application/gzip'', ''application/x-rar-compressed''} then ''fa-file-zipper''
      else if contains_str s ''word'' then ''fa-file-word''
      else if contains_str s ''excel'' \<or> contains_str s ''spreadsheet'' then ''fa-file-excel''
      else ''fa-file'')"

definition previewKind :: "content_type \<Rightarrow> string" where
  "previewKind s =
     (if has_prefix s ''image/'' then ''image''
      else if has_prefix s ''video/'' then ''video''
      else if s = ''application/pdf'' then ''pdf'' else [])"

section \<open>Facts\<close>

text \<open>Sizes are at most \<open>2 ^ 64 - 1\<close>: six letters suffice, and no divisor exceeds \<open>2 ^ 60\<close>.\<close>

lemma unit_loop_spec:
  assumes "unit_loop n dv exp = (dv', exp')"
  shows "exp \<le> exp' \<and> dv' = dv * 1024 ^ (exp' - exp) \<and> n div 1024 ^ (exp' - exp) < 1024 \<and>
    (exp < exp' \<longrightarrow> 1024 ^ (exp' - exp) \<le> n)"
  using assms
proof (induction n dv exp rule: unit_loop.induct)
  case (1 n dv exp)
  show ?case
  proof (cases "1024 \<le> n")
    case True
    with 1 have IH: "exp + 1 \<le> exp'" "dv' = dv * 1024 * 1024 ^ (exp' - (exp + 1))"
      "n div 1024 div 1024 ^ (exp' - (exp + 1)) < 1024"
      "exp + 1 < exp' \<longrightarrow> 1024 ^ (exp' - (exp + 1)) \<le> n div 1024"
      by (simp_all add: unit_loop.simps [of n])
    then obtain k where k: "exp' - exp = Suc k" "exp' - (exp + 1) = k" by (metis Suc_diff_Suc Suc_eq_plus1 Suc_le_lessD)
    have "1024 * 1024 ^ k \<le> n"
    proof (cases "k = 0")
      case False
      with IH(4) k have "1024 ^ k \<le> n div 1024" by auto
      then show ?thesis by (simp add: less_eq_div_iff_mult_less_eq mult.commute)
    qed (use True in simp)
    with IH(1,2,3) k show ?thesis by (simp add: div_mult2_eq)
  next
    case False
    with 1(2) show ?thesis by (simp add: unit_loop.simps [of n])
  qed
qed

lemma unit_loop_u64:
  assumes "unit_loop (unat (b :: u64) div 1024) 1024 0 = (dv, exp)"
  shows "exp < 6 \<and> dv = 1024 ^ (exp + 1) \<and> unat b div dv < 1024"
proof -
  have spec: "dv = 1024 * 1024 ^ exp" "unat b div 1024 div 1024 ^ exp < 1024" "0 < exp \<longrightarrow> 1024 ^ exp \<le> unat b div 1024"
    using unit_loop_spec [OF assms] by simp_all
  have "unat b < 2 ^ 64" using unsigned_less [of b, where ?'a = nat] by simp
  then have b: "unat b div 1024 < 2 ^ 54" by (simp add: div_less_iff_less_mult)
  have "exp < 6"
  proof (rule ccontr)
    assume "\<not> exp < 6"
    then have "(1024 :: nat) ^ 6 \<le> 1024 ^ exp" by (intro power_increasing) simp_all
    with spec(3) b \<open>\<not> exp < 6\<close> show False by simp
  qed
  with spec show ?thesis by (simp add: div_mult2_eq)
qed

lemma humanReadableDiskUsage_total: "humanReadableDiskUsage b \<noteq> None"
proof (cases "unit_loop (unat b div 1024) 1024 0")
  case (Pair dv exp)
  with unit_loop_u64 [OF Pair] show ?thesis by (simp add: humanReadableDiskUsage_def unit_letter_def)
qed

lemma guestLinkUploadProgressPercent_range:
  "guestLinkUploadProgressPercent n limit = - 1 \<longleftrightarrow> limit = None"
  "guestLinkUploadProgressPercent n limit \<le> 100" "- 1 \<le> guestLinkUploadProgressPercent n limit"
  by (auto simp: guestLinkUploadProgressPercent_def Let_def split: option.splits)

lemma isExpiringSoon_iff:
  "isExpiringSoon et now \<longleftrightarrow> et \<noteq> NeverExpire \<and> t_ns now < t_ns et \<and> t_ns et - t_ns now \<le> 72 * hour"
  by (auto simp: isExpiringSoon_def time_sub_def expiringSoonThreshold_def duration_defs Let_def)

end
