(* ===== verification/Views.thy ===== *)
theory Views
  imports ViewText Upload Collector Space Build
begin

text \<open>
  The pages of \<open>handlers/views.go\<close>: which data each is rendered with. The HTML templates that
  lay the data out are not modelled.
\<close>

section \<open>Files\<close>

definition fileIndexGetWithOptions :: "string \<Rightarrow> bool \<Rightarrow> (request \<Rightarrow> user_id list) \<Rightarrow> handler" where
  "fileIndexGetWithOptions titleKey showOwner optsFromContext W w r d =
     (case GetEntriesMetadata (wb_env W) d (optsFromContext r) of
        Inl _ \<Rightarrow> (http_Error w ''failed to retrieve file index'' None 500, d)
      | Inr em \<Rightarrow>
          (renderPage W w r titleKey
             (FilesPage (sort_Slice (wb_ties W) (\<lambda>a b. time_after (um_Uploaded a) (um_Uploaded b)) em) showOwner), d))"

definition fileIndexGet :: handler where
  "fileIndexGet = fileIndexGetWithOptions ''title.files'' False (\<lambda>r. [usr_ID (fst (currentUser r))])"

definition fileAllGet :: handler where
  "fileAllGet = fileIndexGetWithOptions ''title.allFiles'' True (\<lambda>_. [])"

definition hasLifetimeCap :: "user \<Rightarrow> settings \<Rightarrow> bool" where
  "hasLifetimeCap u st \<longleftrightarrow>
     \<not> usr_IsAdmin u \<and> \<not> FileLifetime_Equal (set_MaxNonAdminFileLifetime st) FileLifetimeInfinite"

definition maxExpirationDate :: "web \<Rightarrow> user \<Rightarrow> settings \<Rightarrow> time" where
  "maxExpirationDate W u st =
     (if hasLifetimeCap u st
      then FileLifetime_ExpirationFromTime (set_MaxNonAdminFileLifetime st) (server_now W) else zero_time)"

definition with_entry :: "(entry_id \<Rightarrow> upload_metadata \<Rightarrow> handler) \<Rightarrow> handler" where
  "with_entry h W w r d =
     (case EntryIDFromString (mux_Var r ''id'') of
        Inl e \<Rightarrow> (http_Error w ''bad entry ID: '' (Some (WebDomainError e)) 400, d)
      | Inr i \<Rightarrow>
          (case manageableEntry W w r d i of
             Inl w1 \<Rightarrow> (w1, d)
           | Inr md \<Rightarrow> h i md W w r d))"

definition fileEditGet :: handler where
  "fileEditGet = with_entry (\<lambda>i md W w r d.
     case ReadSettings (wb_env W) d of
       Inl e \<Rightarrow> (http_Error w ''failed to read settings from database: '' (Some (WebStoreError e)) 500, d)
     | Inr st \<Rightarrow>
         (let u = fst (currentUser r) in
          (renderPage W w r ''title.fileEdit''
             (FileEditPage md MaxPassphraseLength (hasLifetimeCap u st)
                (friendlyLifetimeName W (set_MaxNonAdminFileLifetime st) (localizerFromContext W r))
                (maxExpirationDate W u st)), d)))"

definition fileInfoGet :: handler where
  "fileInfoGet = with_entry (\<lambda>i md W w r d.
     case GetEntryDownloads (wb_env W) d i of
       Inl _ \<Rightarrow> (http_Error w ''failed to retrieve downloads'' None 500, d)
     | Inr ds \<Rightarrow> (renderPage W w r ''title.fileInfo'' (FileInfoPage md (length ds)), d))"

text \<open>The first download of each client address.\<close>

fun unique_downloads :: "string set \<Rightarrow> download_record list \<Rightarrow> download_record list" where
  "unique_downloads seen [] = []"
| "unique_downloads seen (x # xs) =
     (if dr_ClientIP x \<in> seen then unique_downloads seen xs
      else x # unique_downloads (insert (dr_ClientIP x) seen) xs)"

definition download_view :: "web \<Rightarrow> download_record \<Rightarrow> time \<times> string \<times> string \<times> string" where
  "download_view W x =
     (let (name, os) = wb_useragent W (dr_UserAgent x) in (dr_Time x, dr_ClientIP x, name, os))"

definition fileDownloadsGet :: handler where
  "fileDownloadsGet = with_entry (\<lambda>i md W w r d.
     case GetEntryDownloads (wb_env W) d i of
       Inl _ \<Rightarrow> (http_Error w ''failed to retrieve downloads'' None 500, d)
     | Inr ds \<Rightarrow>
         (let showUniqueOnly = (query_Get r ''unique'' = ''true'');
              filtered = (if showUniqueOnly then unique_downloads {} ds else ds)
          in (renderPage W w r ''title.fileDownloads''
                (FileDownloadsPage md (map (download_view W) filtered) showUniqueOnly), d)))"

definition fileConfirmDeleteGet :: handler where
  "fileConfirmDeleteGet = with_entry (\<lambda>i md W w r d.
     (renderPage W w r ''title.fileDelete'' (FileDeletePage md), d))"

section \<open>Guest links\<close>

definition guestLinkIndexGet :: handler where
  "guestLinkIndexGet W w r d =
     (case GetGuestLinks (wb_env W) d (usr_ID (fst (currentUser r))) of
        Inl _ \<Rightarrow> (http_Error w ''Failed to retrieve guest links'' None 500, d)
      | Inr links \<Rightarrow>
          (renderPage W w r ''title.guestLinks''
             (GuestLinksPage (sort_Slice (wb_ties W) (\<lambda>a b. time_after (gl_Created a) (gl_Created b)) links)), d))"

text \<open>\<open>AddDate\<close>: the date moves, the clock and the offset from UTC stay.\<close>

definition AddDate :: "time \<Rightarrow> int \<Rightarrow> int \<Rightarrow> time" where
  "AddDate t years days =
     (let local = unix_secs t + loc_offset (t_loc t);
          (y, m, d) = date_of_days (local div 86400);
          moved = days_of_date (y + years) m (d + days) - local div 86400
      in t\<lparr>t_ns := t_ns t + moved * 86400 * second\<rparr>)"

definition guestLinksNewGet :: handler where
  "guestLinksNewGet W w r d =
     (let l = localizerFromContext W r; now = server_now W;
          option = (\<lambda>lt t dflt. \<lparr>eo_FriendlyName = friendlyLifetimeName W lt l, eo_Expiration = t, eo_IsDefault = dflt\<rparr>)
      in (renderPage W w r ''title.guestLinkNew''
            (GuestLinkNewPage
               [option (NewFileLifetimeInDays 1) (AddDate now 0 1) False,
                option (NewFileLifetimeInDays 7) (AddDate now 0 7) False,
                option (NewFileLifetimeInDays 30) (AddDate now 0 30) False,
                option (NewFileLifetimeInYears 1) (AddDate now 1 0) False,
                option FileLifetimeInfinite NeverExpire True]
               [(NewFileLifetimeInDays 1, False), (NewFileLifetimeInDays 7, False),
                (NewFileLifetimeInDays 30, False), (NewFileLifetimeInYears 1, False),
                (FileLifetimeInfinite, True)]), d))"

section \<open>Uploading\<close>

text \<open>An option of the upload form: a lifetime and whether it is selected.\<close>

type_synonym lifetime_option = "file_lifetime \<times> bool"

definition built_in_lifetimes :: "lifetime_option list" where
  "built_in_lifetimes =
     [(NewFileLifetimeInDays 1, False), (NewFileLifetimeInDays 7, False), (NewFileLifetimeInDays 30, False),
      (NewFileLifetimeInYears 1, False), (FileLifetimeInfinite, False)]"

definition denseLifetimeCapThresholdDays :: u16 where "denseLifetimeCapThresholdDays = 30"

text \<open>The loop \<open>for d := uint16(1); d <= capDays; d++\<close>: \<open>fuel\<close> is at least the number of its turns.\<close>

fun dense_options :: "nat \<Rightarrow> u16 \<Rightarrow> u16 \<Rightarrow> lifetime_option list" where
  "dense_options 0 d capDays = []"
| "dense_options (Suc fuel) d capDays =
     (if d \<le> capDays then (NewFileLifetimeInDays d, False) # dense_options fuel (d + 1) capDays else [])"

definition capped_options :: "settings \<Rightarrow> lifetime_option list" where
  "capped_options st =
     (let cap = set_MaxNonAdminFileLifetime st; capDays = FileLifetime_Days cap in
      if capDays \<le> denseLifetimeCapThresholdDays then dense_options 30 1 capDays
      else (let capped = filter (\<lambda>(lt, _). FileLifetime_Days lt \<le> capDays) built_in_lifetimes in
            if list_ex (\<lambda>(lt, _). FileLifetime_Days lt = capDays) capped then capped
            else capped @ [(cap, False)]))"

definition default_lifetime :: "user \<Rightarrow> settings \<Rightarrow> file_lifetime" where
  "default_lifetime u st =
     (if hasLifetimeCap u st \<and>
         FileLifetime_Days (set_DefaultFileLifetime st) > FileLifetime_Days (set_MaxNonAdminFileLifetime st)
      then set_MaxNonAdminFileLifetime st else set_DefaultFileLifetime st)"

definition mark_default :: "file_lifetime \<Rightarrow> lifetime_option list \<Rightarrow> lifetime_option list" where
  "mark_default dflt opts = map (\<lambda>(lt, b). (lt, b \<or> FileLifetime_Equal lt dflt)) opts"

definition upload_options :: "user \<Rightarrow> settings \<Rightarrow> lifetime_option list" where
  "upload_options u st =
     (let opts = (if hasLifetimeCap u st then capped_options st else built_in_lifetimes);
          dflt = default_lifetime u st
      in if list_ex (\<lambda>(lt, _). FileLifetime_Equal lt dflt) opts then mark_default dflt opts
         else SliceStable (\<lambda>(a, _) (b, _). FileLifetime_LessThan a b) (opts @ [(dflt, True)]))"

definition expiration_option_of :: "web \<Rightarrow> string \<Rightarrow> lifetime_option \<Rightarrow> expiration_option" where
  "expiration_option_of W l lto =
     (let expiration =
            (if FileLifetime_Equal (fst lto) FileLifetimeInfinite then NeverExpire
             else FileLifetime_ExpirationFromTime (fst lto) (server_now W))
      in \<lparr>eo_FriendlyName = friendlyLifetimeName W (fst lto) l, eo_Expiration = expiration,
          eo_IsDefault = snd lto\<rparr>)"

definition uploadGet :: handler where
  "uploadGet W w r d =
     (case ReadSettings (wb_env W) d of
        Inl e \<Rightarrow> (http_Error w ''failed to read settings from database: '' (Some (WebStoreError e)) 500, d)
      | Inr st \<Rightarrow>
          (let l = localizerFromContext W r; u = fst (currentUser r);
               custom = \<lparr>eo_FriendlyName = Localizer_T W l ''lifetime.custom'', eo_Expiration = zero_time,
                         eo_IsDefault = False\<rparr>
           in (renderPage W w r ''title.upload''
                 (UploadPage (map (expiration_option_of W l) (upload_options u st) @ [custom])
                    MaxFileNoteBytes MaxPassphraseLength (hasLifetimeCap u st)
                    (friendlyLifetimeName W (set_MaxNonAdminFileLifetime st) l) (maxExpirationDate W u st)), d)))"

definition indexGet :: handler where
  "indexGet W w r d =
     (if isAuthenticated r then uploadGet W w r d else (renderPage W w r ''title.index'' IndexPage, d))"

text \<open>The first option equal to the link's own maximum is the selected one.\<close>

fun mark_first :: "file_lifetime \<Rightarrow> lifetime_option list \<Rightarrow> lifetime_option list" where
  "mark_first dflt [] = []"
| "mark_first dflt ((lt, b) # opts) =
     (if FileLifetime_Equal lt dflt then (lt, True) # opts else (lt, b) # mark_first dflt opts)"

definition guest_options :: "guest_link \<Rightarrow> lifetime_option list" where
  "guest_options gl =
     mark_first (gl_MaxFileLifetime gl)
       (filter (\<lambda>(lt, _). FileLifetime_Days lt \<le> FileLifetime_Days (gl_MaxFileLifetime gl)) built_in_lifetimes)"

definition guestUploadGet :: handler where
  "guestUploadGet W w r d =
     (case parseGuestLinkID (mux_Var r ''guestLinkID'') of
        Inl e \<Rightarrow> (http_Error w ''Invalid guest link ID: '' (Some e) 400, d)
      | Inr i \<Rightarrow>
          (case GetGuestLink (wb_env W) d i of
             Inl e \<Rightarrow>
               (if is_guest_link_not_found e then (http_Error w ''Invalid guest link ID'' None 404, d)
                else (http_Error w ''Failed to retrieve guest link'' None 500, d))
           | Inr gl \<Rightarrow>
               (if \<not> GuestLink_IsActive (wb_wall W) gl
                then (renderPage W w r ''title.guestLinkInactive'' GuestLinkInactivePage, d)
                else (renderPage W w r ''title.upload''
                        (GuestUploadPage (map (expiration_option_of W (localizerFromContext W r)) (guest_options gl))
                           gl False [] zero_time), d))))"

section \<open>Administration\<close>

definition settings_page :: "settings \<Rightarrow> page" where
  "settings_page st =
     (let never = FileLifetime_Equal (set_DefaultFileLifetime st) FileLifetimeInfinite;
          year = FileLifetime_IsYearBoundary (set_DefaultFileLifetime st);
          dflt = (if never then 30
                  else if year then FileLifetime_Years (set_DefaultFileLifetime st)
                  else FileLifetime_Days (set_DefaultFileLifetime st));
          unit = (if \<not> never \<and> year then ''years'' else ''days'');
          retention = set_DownloadHistoryRetention st;
          retentionDays = (case Retention_Days retention of None \<Rightarrow> 90 | Some n \<Rightarrow> n);
          noMax = FileLifetime_Equal (set_MaxNonAdminFileLifetime st) FileLifetimeInfinite;
          maxDays = (if noMax then 7 else FileLifetime_Days (set_MaxNonAdminFileLifetime st))
      in SettingsPage dflt unit never retentionDays 3650 (Retention_IsForever retention)
           (SiteDefaultLanguage_String (set_DefaultLanguage st)) maxDays noMax)"

definition settingsGet :: handler where
  "settingsGet W w r d =
     (case ReadSettings (wb_env W) d of
        Inl e \<Rightarrow> (http_Error w ''failed to read settings from database: '' (Some (WebStoreError e)) 500, d)
      | Inr st \<Rightarrow> (renderPage W w r ''title.settings'' (settings_page st), d))"

text \<open>The integers that SQLite answers the two pragmas with, if it does; the product wraps.\<close>

definition ReclaimableBytes :: "(string \<Rightarrow> u64 option) \<Rightarrow> store_error + u64" where
  "ReclaimableBytes pragma =
     and_then (of_option DriverError (pragma ''freelist_count'')) (\<lambda>freePages.
     and_then (of_option DriverError (pragma ''page_size'')) (\<lambda>pageSize.
       Inr (freePages * pageSize)))"

definition systemInformationGet ::
  "(env \<Rightarrow> db \<Rightarrow> space_error + usage) \<Rightarrow> (string \<Rightarrow> u64 option) \<Rightarrow> debug_info option \<Rightarrow>
     web \<Rightarrow> response \<Rightarrow> request \<Rightarrow> store_error collector \<times> db \<Rightarrow> response \<times> store_error collector \<times> db" where
  "systemInformationGet check pragma build W w r cd =
     (case check (wb_env W) (snd cd) of
        Inl _ \<Rightarrow> (http_Error w ''failed to check available space: '' None 500, cd)
      | Inr us \<Rightarrow>
          (case ReclaimableBytes pragma of
             Inl _ \<Rightarrow> (http_Error w ''Failed to measure reclaimable database space'' None 500, cd)
           | Inr reclaimable \<Rightarrow>
               (let lastCleanup = LastRun (fst cd) in
                (renderPage W w r ''title.systemInformation''
                   (SystemInformationPage (us_TotalServingBytes us) (us_DatabaseFileSize us) reclaimable
                      (us_FileSystemUsedBytes us) (us_FileSystemTotalBytes us) (col_Time lastCleanup)
                      (col_Err lastCleanup \<noteq> None) (build_Time build) (build_Version build) (build_Revision build)),
                 cd))))"

end
