(* ===== verification/Server.thy ===== *)
theory Server
  imports Download GuestLinkHandlers Admin Setup LanguageHandlers Views
begin

text \<open>
  \<open>handlers/server.go\<close> and \<open>routes.go\<close>: the server's state, every registered route with the
  middleware of its subrouter, and the runs of the program: requests, ticks of the collector's
  scheduler, restarts and the reset of the identity provider (\<open>cmd/picoshare/main.go\<close>), in any
  order. Which route a request matches is the choice of the router (package \<open>mux\<close>), so the
  facts below hold for every route. A request runs to its end before the next one begins; the
  invariant of the database in theory \<open>Store\<close> does not depend on that.
\<close>

section \<open>State and parameters\<close>

record 'c server_state =
  sv_db :: db
  sv_collector :: "store_error collector"
  sv_client :: 'c

record ('c, 'p) server_params =
  sp_IdentityProvider :: "'c identity_provider"
  sp_lib :: "'p oidc_lib"
  sp_CheckSpace :: "env \<Rightarrow> db \<Rightarrow> space_error + usage"
  sp_pragma :: "string \<Rightarrow> u64 option"
  sp_build :: "debug_info option"
  sp_static_seed :: string
  sp_file_server :: "response \<Rightarrow> request \<Rightarrow> response"

type_synonym 'c server_handler = "'c server_state handler_on"

definition on_db :: "handler \<Rightarrow> 'c server_handler" where
  "on_db h W w r s = (case h W w r (sv_db s) of (w1, d1) \<Rightarrow> (w1, s\<lparr>sv_db := d1\<rparr>))"

definition on_collector :: "(store_error collector \<times> db) handler_on \<Rightarrow> 'c server_handler" where
  "on_collector h W w r s =
     (case h W w r (sv_collector s, sv_db s) of (w1, c1, d1) \<Rightarrow> (w1, s\<lparr>sv_db := d1, sv_collector := c1\<rparr>))"

definition on_client :: "('c \<times> db) handler_on \<Rightarrow> 'c server_handler" where
  "on_client h W w r s =
     (case h W w r (sv_client s, sv_db s) of (w1, c1, d1) \<Rightarrow> (w1, s\<lparr>sv_db := d1, sv_client := c1\<rparr>))"

text \<open>\<open>static.go\<close>: the entity tag of a static file depends on the process and the path.\<close>

definition static_etag :: "string \<Rightarrow> string \<Rightarrow> string" where
  "static_etag seed path = ''\"'' @ hex_encode (sha256 (seed @ path)) @ ''\"''"

definition staticCacheControl :: "web \<Rightarrow> string" where
  "staticCacheControl W = (if wb_dev W then ''no-store'' else ''public, max-age=3600'')"

definition serveStaticResource :: "string \<Rightarrow> (response \<Rightarrow> request \<Rightarrow> response) \<Rightarrow> handler" where
  "serveStaticResource seed fileServer W w r d =
     (fileServer (set_header ''Cache-Control'' (staticCacheControl W)
        (set_header ''ETag'' (static_etag seed (rq_path r)) w)) r, d)"

section \<open>Routes\<close>

datatype http_method = GET | POST | PUT | DELETE

datatype subrouter =
  Root | AuthenticatedApis | AdminApis | PublicApis | Static | AuthenticatedViews | AdminViews | PublicViews

datatype route =
  AuthDelete | LanguagePut | OidcLoginGet | SetupPost | SetupTestConnectionPost
| EntryPost | EntryPut | EntryDelete
| GuestLinksPost | GuestLinksDelete | GuestLinksEnable | GuestLinksDisable
| SettingsPut | CleanupPost | AdminOIDCSettingsGet | AdminOIDCSettingsPut | AdminOIDCSettingsTestConnectionPost
| MemberGrantAdminPut | MemberRevokeAdminPut
| GuestEntryPost | StaticResource
| FileIndexGet | FileDownloadsGet | FileEditGet | FileInfoGet | FileConfirmDeleteGet
| GuestLinkIndexGet | GuestLinksNewGet
| SystemInformationGet | SettingsGet | FileAllGet | MembersGet | SsoSettingsGet
| AuthGet | OidcCallbackGet | SetupGet | GuestUploadGet | IndexGet
| EntryUnlockGet | EntryUnlockPost | EntryPreviewGet | EntryGet | EntryGetFilename
| DebugCleanupPost | DebugLoginPost

text \<open>Where each route is registered: its subrouter, its method, and its path below the subrouter's.\<close>

fun registration :: "route \<Rightarrow> subrouter \<times> http_method \<times> string" where
  "registration AuthDelete = (Root, DELETE, ''/api/auth'')"
| "registration LanguagePut = (Root, PUT, ''/api/language'')"
| "registration OidcLoginGet = (Root, GET, ''/oidc/login'')"
| "registration SetupPost = (Root, POST, ''/api/setup'')"
| "registration SetupTestConnectionPost = (Root, POST, ''/api/setup/test-connection'')"
| "registration EntryPost = (AuthenticatedApis, POST, ''/entry'')"
| "registration EntryPut = (AuthenticatedApis, PUT, ''/entry/{id}'')"
| "registration EntryDelete = (AuthenticatedApis, DELETE, ''/entry/{id}'')"
| "registration GuestLinksPost = (AuthenticatedApis, POST, ''/guest-links'')"
| "registration GuestLinksDelete = (AuthenticatedApis, DELETE, ''/guest-links/{id}'')"
| "registration GuestLinksEnable = (AuthenticatedApis, PUT, ''/guest-links/{id}/enable'')"
| "registration GuestLinksDisable = (AuthenticatedApis, PUT, ''/guest-links/{id}/disable'')"
| "registration SettingsPut = (AdminApis, PUT, ''/settings'')"
| "registration CleanupPost = (AdminApis, POST, ''/maintenance/cleanup'')"
| "registration AdminOIDCSettingsGet = (AdminApis, GET, ''/admin/oidc-settings'')"
| "registration AdminOIDCSettingsPut = (AdminApis, PUT, ''/admin/oidc-settings'')"
| "registration AdminOIDCSettingsTestConnectionPost = (AdminApis, POST, ''/admin/oidc-settings/test-connection'')"
| "registration MemberGrantAdminPut = (AdminApis, PUT, ''/admin/users/{id}/grant-admin'')"
| "registration MemberRevokeAdminPut = (AdminApis, PUT, ''/admin/users/{id}/revoke-admin'')"
| "registration GuestEntryPost = (PublicApis, POST, ''/guest/{guestLinkID}'')"
| "registration StaticResource = (Static, GET, ''/'')"
| "registration FileIndexGet = (AuthenticatedViews, GET, ''/files'')"
| "registration FileDownloadsGet = (AuthenticatedViews, GET, ''/files/{id}/downloads'')"
| "registration FileEditGet = (AuthenticatedViews, GET, ''/files/{id}/edit'')"
| "registration FileInfoGet = (AuthenticatedViews, GET, ''/files/{id}/info'')"
| "registration FileConfirmDeleteGet = (AuthenticatedViews, GET, ''/files/{id}/confirm-delete'')"
| "registration GuestLinkIndexGet = (AuthenticatedViews, GET, ''/guest-links'')"
| "registration GuestLinksNewGet = (AuthenticatedViews, GET, ''/guest-links/new'')"
| "registration SystemInformationGet = (AdminViews, GET, ''/information'')"
| "registration SettingsGet = (AdminViews, GET, ''/settings'')"
| "registration FileAllGet = (AdminViews, GET, ''/files/all'')"
| "registration MembersGet = (AdminViews, GET, ''/members'')"
| "registration SsoSettingsGet = (AdminViews, GET, ''/sso-settings'')"
| "registration AuthGet = (PublicViews, GET, ''/login'')"
| "registration OidcCallbackGet = (PublicViews, GET, ''/oidc/callback'')"
| "registration SetupGet = (PublicViews, GET, ''/setup'')"
| "registration GuestUploadGet = (PublicViews, GET, ''/g/{guestLinkID}'')"
| "registration IndexGet = (PublicViews, GET, ''/'')"
| "registration EntryUnlockGet = (PublicViews, GET, ''/-{id}/unlock'')"
| "registration EntryUnlockPost = (PublicViews, POST, ''/-{id}/unlock'')"
| "registration EntryPreviewGet = (PublicViews, GET, ''/-{id}/preview'')"
| "registration EntryGet = (PublicViews, GET, ''/-{id}'')"
| "registration EntryGetFilename = (PublicViews, GET, ''/-{id}/{filename}'')"
| "registration DebugCleanupPost = (Root, POST, ''/api/debug/db/cleanup'')"
| "registration DebugLoginPost = (Root, POST, ''/api/debug/login'')"

text \<open>The paths of the API subrouters start with \<open>/api\<close>; some routes match every path with a prefix.\<close>

definition path_prefix :: "subrouter \<Rightarrow> string" where
  "path_prefix sub = (if sub \<in> {AuthenticatedApis, AdminApis, PublicApis} then ''/api'' else [])"

definition full_path :: "route \<Rightarrow> string" where
  "full_path rt = (case registration rt of (sub, _, path) \<Rightarrow> path_prefix sub @ path)"

definition matches_prefix :: "route \<Rightarrow> bool" where
  "matches_prefix rt \<longleftrightarrow> rt \<in> {GuestUploadGet, EntryGet, EntryGetFilename}"

text \<open>Static files: three directories, and the files at the root.\<close>

definition static_directories :: "string list" where
  "static_directories = [''/css/'', ''/js/'', ''/third-party/'']"

definition static_root_files :: "string list" where
  "static_root_files =
     [''/android-chrome-192x192.png'', ''/android-chrome-384x384.png'', ''/apple-touch-icon.png'',
      ''/browserconfig.xml'', ''/favicon-16x16.png'', ''/favicon-32x32.png'', ''/favicon.ico'',
      ''/mstile-150x150.png'', ''/safari-pinned-tab.svg'', ''/site.webmanifest'']"

text \<open>The debug routes exist in development builds only.\<close>

definition registered :: "web \<Rightarrow> route \<Rightarrow> bool" where
  "registered W rt \<longleftrightarrow> (rt = DebugCleanupPost \<or> rt = DebugLoginPost \<longrightarrow> wb_dev W)"

definition middleware :: "subrouter \<Rightarrow> 'c server_handler \<Rightarrow> 'c server_handler" where
  "middleware sub h =
     (case sub of
        Root \<Rightarrow> h
      | AuthenticatedApis \<Rightarrow> requireAuthentication h
      | AdminApis \<Rightarrow> requireAuthentication (requireAdmin h)
      | PublicApis \<Rightarrow> h
      | Static \<Rightarrow> h
      | AuthenticatedViews \<Rightarrow> requireAuthentication (resolveLanguage sv_db (enforceContentSecurityPolicy h))
      | AdminViews \<Rightarrow>
          requireAuthentication (requireAdmin (resolveLanguage sv_db (enforceContentSecurityPolicy h)))
      | PublicViews \<Rightarrow> upgradeToHttps (resolveLanguage sv_db (enforceContentSecurityPolicy h)))"

fun handler_of :: "('c, 'p) server_params \<Rightarrow> route \<Rightarrow> 'c server_handler" where
  "handler_of P AuthDelete = on_db authDelete"
| "handler_of P LanguagePut = on_db languagePut"
| "handler_of P OidcLoginGet = on_client (oidcLoginGet (sp_IdentityProvider P))"
| "handler_of P SetupPost = on_db setupPost"
| "handler_of P SetupTestConnectionPost = on_db (setupTestConnectionPost (sp_lib P))"
| "handler_of P EntryPost = on_db entryPost"
| "handler_of P EntryPut = on_db entryPut"
| "handler_of P EntryDelete = on_db entryDelete"
| "handler_of P GuestLinksPost = on_db guestLinksPost"
| "handler_of P GuestLinksDelete = on_db guestLinksDelete"
| "handler_of P GuestLinksEnable = on_db guestLinksEnableDisable"
| "handler_of P GuestLinksDisable = on_db guestLinksEnableDisable"
| "handler_of P SettingsPut = on_db settingsPut"
| "handler_of P CleanupPost = on_collector cleanupPost"
| "handler_of P AdminOIDCSettingsGet = on_db adminOIDCSettingsGet"
| "handler_of P AdminOIDCSettingsPut = on_db adminOIDCSettingsPut"
| "handler_of P AdminOIDCSettingsTestConnectionPost = on_db (adminOIDCSettingsTestConnectionPost (sp_lib P))"
| "handler_of P MemberGrantAdminPut = on_db memberGrantAdminPut"
| "handler_of P MemberRevokeAdminPut = on_db memberRevokeAdminPut"
| "handler_of P GuestEntryPost = on_db guestEntryPost"
| "handler_of P StaticResource = on_db (serveStaticResource (sp_static_seed P) (sp_file_server P))"
| "handler_of P FileIndexGet = on_db fileIndexGet"
| "handler_of P FileDownloadsGet = on_db fileDownloadsGet"
| "handler_of P FileEditGet = on_db fileEditGet"
| "handler_of P FileInfoGet = on_db fileInfoGet"
| "handler_of P FileConfirmDeleteGet = on_db fileConfirmDeleteGet"
| "handler_of P GuestLinkIndexGet = on_db guestLinkIndexGet"
| "handler_of P GuestLinksNewGet = on_db guestLinksNewGet"
| "handler_of P SystemInformationGet =
     on_collector (systemInformationGet (sp_CheckSpace P) (sp_pragma P) (sp_build P))"
| "handler_of P SettingsGet = on_db settingsGet"
| "handler_of P FileAllGet = on_db fileAllGet"
| "handler_of P MembersGet = on_db membersGet"
| "handler_of P SsoSettingsGet = on_db ssoSettingsGet"
| "handler_of P AuthGet = on_db authGet"
| "handler_of P OidcCallbackGet = on_client (oidcCallbackGet (sp_IdentityProvider P))"
| "handler_of P SetupGet = on_db setupGet"
| "handler_of P GuestUploadGet = on_db guestUploadGet"
| "handler_of P IndexGet = on_db indexGet"
| "handler_of P EntryUnlockGet = on_db entryUnlockGet"
| "handler_of P EntryUnlockPost = on_db entryUnlockPost"
| "handler_of P EntryPreviewGet = on_db entryPreviewGet"
| "handler_of P EntryGet = on_db entryGet"
| "handler_of P EntryGetFilename = on_db entryGet"
| "handler_of P DebugCleanupPost = on_collector cleanupPost"
| "handler_of P DebugLoginPost = on_db devLoginPost"

text \<open>A request as it arrives carries nothing in its context yet.\<close>

definition fresh_request :: "request \<Rightarrow> bool" where
  "fresh_request r \<longleftrightarrow>
     rq_user r = None \<and> rq_localizer r = None \<and> rq_nonce r = None \<and> rq_body_limit r = None"

definition serve :: "('c, 'p) server_params \<Rightarrow> route \<Rightarrow> web \<Rightarrow> request \<Rightarrow> 'c server_state \<Rightarrow> response \<times> 'c server_state" where
  "serve P rt W r s =
     loadSession sv_db (middleware (fst (registration rt)) (handler_of P rt)) W new_response r s"

text \<open>
  \<open>http.NewCrossOriginProtection\<close> around the router: a request that may change something and that a
  browser sent on behalf of another site is refused. A request that matches a route has its method.
\<close>

definition cross_origin_allowed :: "web \<Rightarrow> http_method \<Rightarrow> request \<Rightarrow> bool" where
  "cross_origin_allowed W method r \<longleftrightarrow>
     method = GET \<or>
     (let site = header_Get r ''Sec-Fetch-Site''; origin = header_Get r ''Origin'' in
      if site \<noteq> [] then site = ''same-origin'' \<or> site = ''none''
      else origin = [] \<or>
        (case env_url_parse (wb_env W) origin of None \<Rightarrow> False | Some (scheme, host) \<Rightarrow> host = rq_host r))"

definition protectedRouter ::
  "('c, 'p) server_params \<Rightarrow> route \<Rightarrow> web \<Rightarrow> request \<Rightarrow> 'c server_state \<Rightarrow> response \<times> 'c server_state" where
  "protectedRouter P rt W r s =
     (if cross_origin_allowed W (fst (snd (registration rt))) r then serve P rt W r s
      else (http_Error new_response
              (if header_Get r ''Sec-Fetch-Site'' \<noteq> []
               then ''cross-origin request detected from Sec-Fetch-Site header''
               else ''cross-origin request detected, and/or browser is out of date: '' @
                    ''Sec-Fetch-Site is missing, and Origin does not match Host'') None 403, s))"

section \<open>Starting the program\<close>

text \<open>\<open>ensureSetupToken\<close> and \<open>runResetOIDC\<close>: an error ends the process, here with the first sum.\<close>

definition ensureSetupToken :: "env \<Rightarrow> db \<Rightarrow> (store_error + setup_token option) \<times> db" where
  "ensureSetupToken E d =
     (case NeedsSetup E d of
        Inl e \<Rightarrow> (Inl e, d)
      | Inr needsSetup \<Rightarrow>
          (if \<not> needsSetup then (Inr None, d)
           else case GenerateSetupToken E d of
                  (Inl e, d1) \<Rightarrow> (Inl e, d1)
                | (Inr token, d1) \<Rightarrow> (Inr (Some token), d1)))"

definition runResetOIDC :: "env \<Rightarrow> db \<Rightarrow> (store_error + setup_token) \<times> db" where
  "runResetOIDC E d =
     (case ClearOIDCSettings E d of
        (Inl e, d1) \<Rightarrow> (Inl e, d1)
      | (Inr _, d1) \<Rightarrow> GenerateSetupToken E d1)"

text \<open>A process starts with no collection and a fresh identity provider client.\<close>

definition start_state :: "'c \<Rightarrow> db \<Rightarrow> 'c server_state" where
  "start_state c0 d = \<lparr>sv_db = d, sv_collector = NewCollector, sv_client = c0\<rparr>"

definition scheduler_tick :: "env \<Rightarrow> 'c server_state \<Rightarrow> 'c server_state" where
  "scheduler_tick E s =
     (case scheduler_collect Purge st_later (sv_collector s, sv_db s) E of
        (c1, d1) \<Rightarrow> s\<lparr>sv_db := d1, sv_collector := c1\<rparr>)"

inductive server_reach :: "('c, 'p) server_params \<Rightarrow> 'c \<Rightarrow> 'c server_state \<Rightarrow> bool" for P c0 where
  first_start: "server_reach P c0 (start_state c0 initial_db)"
| request: "server_reach P c0 s \<Longrightarrow> 0 < st_chunkSize (wb_env W) \<Longrightarrow> registered W rt \<Longrightarrow> fresh_request r \<Longrightarrow>
     server_reach P c0 (snd (protectedRouter P rt W r s))"
| tick: "server_reach P c0 s \<Longrightarrow> 0 < st_chunkSize E \<Longrightarrow> server_reach P c0 (scheduler_tick E s)"
| restart: "server_reach P c0 s \<Longrightarrow> 0 < st_chunkSize E \<Longrightarrow>
     server_reach P c0 (start_state c0 (snd (ensureSetupToken E (sv_db s))))"
| reset: "server_reach P c0 s \<Longrightarrow> 0 < st_chunkSize E \<Longrightarrow>
     server_reach P c0 (start_state c0 (snd (runResetOIDC E (sv_db s))))"

inductive_cases server_reachE: "server_reach P c0 s"

end
