(* ===== verification/Requests.thy ===== *)
theory Requests
  imports Server
begin

text \<open>
  What requests can do to the database: every handler's effect is a sequence of store calls, so
  every database the server reaches is one that store calls reach; and the tables that requests
  without administrator rights leave alone.
\<close>

section \<open>Handlers as sequences of store calls\<close>

text \<open>
  What the handlers see to before they insert a row that counts for a guest link: that the link the
  upload came through has room for one more file, and that a new link allows some and has an
  identifier they drew, one of \<open>N\<close>.
\<close>

definition link_room :: "db \<Rightarrow> guest_link_id \<Rightarrow> bool" where
  "link_room d g \<longleftrightarrow>
     g = [] \<or>
     list_ex (\<lambda>r. glr_id r = g \<and> check_null (\<lambda>k. entry_count d g < k) (glr_max_file_uploads r)) (guest_links d)"

definition link_guard :: "guest_link_id set \<Rightarrow> db \<Rightarrow> store_call \<Rightarrow> bool" where
  "link_guard N d c =
     (case c of
        CallInsertEntry src md \<Rightarrow> link_room d (gl_ID (um_GuestLink md))
      | CallInsertGuestLink gl \<Rightarrow> gl_ID gl \<in> N \<and> check_null (\<lambda>k. 0 < k) (gl_MaxFileUploads gl)
      | _ \<Rightarrow> True)"

inductive db_step :: "guest_link_id set \<Rightarrow> db \<Rightarrow> db \<Rightarrow> bool" for N where
  call: "0 < st_chunkSize E \<Longrightarrow> link_guard N d c \<Longrightarrow> db_step N d (run_call E c d)"

abbreviation db_steps :: "guest_link_id set \<Rightarrow> db \<Rightarrow> db \<Rightarrow> bool" where
  "db_steps N \<equiv> (db_step N)\<^sup>*\<^sup>*"

abbreviation new_link :: "web \<Rightarrow> guest_link_id set" where
  "new_link W \<equiv> {generateGuestLinkID (wb_draw W)}"

lemma db_steps_any: "db_steps N d d1 \<Longrightarrow> db_steps UNIV d d1"
proof (erule rtranclp_mono [THEN predicate2D, rotated], rule predicate2I)
  fix d d1 assume "db_step N d d1"
  then show "db_step UNIV d d1"
  proof cases
    case (call E c)
    then have "link_guard UNIV d c" by (auto simp: link_guard_def split: store_call.splits)
    with call show ?thesis by (auto intro: db_step.call)
  qed
qed

lemma reachable_steps: "db_steps N d d1 \<Longrightarrow> reachable_db d \<Longrightarrow> reachable_db d1"
  by (induction rule: rtranclp_induct) (auto elim!: db_step.cases intro: reachable_db.step)

named_theorems call_steps \<open>store operations as steps\<close>

lemma one_call:
  "0 < st_chunkSize E \<Longrightarrow> run_call E c d = snd x \<Longrightarrow> link_guard N d c \<Longrightarrow> x = (y, d1) \<Longrightarrow> db_steps N d d1"
  by (auto dest: db_step.call [of E N d c])

lemmas call_step [call_steps] =
  one_call [where c = "CallInsertEntry src md" and x = "InsertEntry E d src md" for E d src md, simplified run_call_def link_guard_def store_call.case, OF _ refl]
  one_call [where c = "CallUpdateEntryMetadata i md" and x = "UpdateEntryMetadata E d i md" for E d i md, simplified run_call_def link_guard_def store_call.case, OF _ refl TrueI]
  one_call [where c = "CallDeleteEntry i" and x = "DeleteEntry E d i" for E d i, simplified run_call_def link_guard_def store_call.case, OF _ refl TrueI]
  one_call [where c = "CallInsertGuestLink gl" and x = "InsertGuestLink E d gl" for E d gl, simplified run_call_def link_guard_def store_call.case, OF _ refl]
  one_call [where c = "CallDeleteGuestLink g" and x = "DeleteGuestLink E d g" for E d g, simplified run_call_def link_guard_def store_call.case, OF _ refl TrueI]
  one_call [where c = "CallDisableGuestLink g" and x = "DisableGuestLink E d g" for E d g, simplified run_call_def link_guard_def store_call.case, OF _ refl TrueI]
  one_call [where c = "CallEnableGuestLink g" and x = "EnableGuestLink E d g" for E d g, simplified run_call_def link_guard_def store_call.case, OF _ refl TrueI]
  one_call [where c = "CallInsertEntryDownload i dl" and x = "InsertEntryDownload E d i dl" for E d i dl, simplified run_call_def link_guard_def store_call.case, OF _ refl TrueI]
  one_call [where c = "CallRecordUserLogin u" and x = "RecordUserLogin E d u" for E d u, simplified run_call_def link_guard_def store_call.case, OF _ refl TrueI]
  one_call [where c = "CallGrantAdmin k" and x = "GrantAdmin E d k" for E d k, simplified run_call_def link_guard_def store_call.case, OF _ refl TrueI]
  one_call [where c = "CallRevokeAdmin k" and x = "RevokeAdmin E d k" for E d k, simplified run_call_def link_guard_def store_call.case, OF _ refl TrueI]
  one_call [where c = "CallUpdateUserLanguage k lang" and x = "UpdateUserLanguage E d k lang" for E d k lang, simplified run_call_def link_guard_def store_call.case, OF _ refl TrueI]
  one_call [where c = "CallInsertSession ses" and x = "InsertSession E d ses" for E d ses, simplified run_call_def link_guard_def store_call.case, OF _ refl TrueI]
  one_call [where c = "CallDeleteSession hash" and x = "DeleteSession E d hash" for E d hash, simplified run_call_def link_guard_def store_call.case, OF _ refl TrueI]
  one_call [where c = "CallUpdateSettings st" and x = "UpdateSettings E d st" for E d st, simplified run_call_def link_guard_def store_call.case, OF _ refl TrueI]
  one_call [where c = "CallUpdateOIDCSettings os" and x = "UpdateOIDCSettings E d os" for E d os, simplified run_call_def link_guard_def store_call.case, OF _ refl TrueI]
  one_call [where c = "CallClearOIDCSettings" and x = "ClearOIDCSettings E d" for E d , simplified run_call_def link_guard_def store_call.case, OF _ refl TrueI]
  one_call [where c = "CallGenerateSetupToken" and x = "GenerateSetupToken E d" for E d , simplified run_call_def link_guard_def store_call.case, OF _ refl TrueI]
  one_call [where c = "CallPurge" and x = "Purge E d" for E d , simplified run_call_def link_guard_def store_call.case, OF _ refl TrueI]

text \<open>A handler that only makes store calls.\<close>

definition only_calls :: "handler \<Rightarrow> bool" where
  "only_calls h \<longleftrightarrow> (\<forall>W w r d. 0 < st_chunkSize (wb_env W) \<longrightarrow> db_steps (new_link W) d (snd (h W w r d)))"

lemma only_callsI:
  "(\<And>W w r d w1 d1. 0 < st_chunkSize (wb_env W) \<Longrightarrow> h W w r d = (w1, d1) \<Longrightarrow> db_steps (new_link W) d d1) \<Longrightarrow> only_calls h"
  unfolding only_calls_def by (metis prod.collapse)

lemma insertFile_steps:
  assumes "0 < st_chunkSize (wb_env W)" and "link_room d g"
    and "insertFileFromRequest W r d et g owner = (res, d1)"
  shows "db_steps N d d1"
proof (cases "upload_from_request W r et g owner")
  case (Inl e)
  with assms(3) show ?thesis by (simp add: insertFileFromRequest_def)
next
  case (Inr p)
  obtain src md where p: "p = (src, md)" by (cases p)
  obtain x where "InsertEntry (wb_env W) d src md = (x, d1)"
    using assms(3) Inr p by (auto simp: insertFileFromRequest_def split: sum.splits prod.splits)
  moreover have "gl_ID (um_GuestLink md) = g" by (rule upload_from_request_ok [OF Inr [unfolded p]])
  ultimately show ?thesis using assms(2) by (intro call_step(1) [OF assms(1)]) simp_all
qed

lemma link_room_own [simp]: "link_room d []"
  by (simp add: link_room_def)

text \<open>The guard of a guest's upload is its check that the link still accepts files.\<close>

lemma active_link_room:
  assumes "GetGuestLink E d g = Inr gl" and "GuestLink_IsActive wall gl"
  shows "link_room d g"
proof -
  obtain r where r: "r \<in> set (guest_links d)" "glr_id r = g" "guestLinkFromRow r (entry_count d g) = Inr gl"
    "gl_FilesUploaded gl = entry_count d g"
    by (rule GetGuestLink_Inr [OF assms(1)])
  have "check_null (\<lambda>k. entry_count d g < k) (glr_max_file_uploads r)"
    using assms(2) r(4) guestLinkFromRow_fields [OF r(3)]
    by (cases "glr_max_file_uploads r") (simp_all add: GuestLink_IsActive_def GuestLink_CanAcceptMoreFiles_def)
  with r(1,2) show ?thesis by (auto simp: link_room_def list_ex_iff)
qed

lemma upload_handlers_calls: "only_calls entryPost" "only_calls guestEntryPost" "only_calls entryPut"
  "only_calls entryDelete"
  by (rule only_callsI;
      auto simp: entryPost_def guestEntryPost_def entryPut_def entryDelete_def Let_def
        dest: call_steps insertFile_steps [OF _ link_room_own] insertFile_steps [OF _ active_link_room]
        split: sum.splits prod.splits if_splits)+

lemma guestLinksPost_steps:
  assumes "0 < st_chunkSize (wb_env W)" and "guestLinksPost W w r d = (w1, d1)"
  shows "db_steps (new_link W) d d1"
proof (cases "guestLinkFromRequest W r")
  case (Inl e)
  with assms(2) show ?thesis by (simp add: guestLinksPost_def)
next
  case (Inr gl)
  let ?gl = "gl\<lparr>gl_ID := generateGuestLinkID (wb_draw W), gl_OwnerID := usr_ID (fst (currentUser r)),
      gl_Created := server_now W\<rparr>"
  obtain x where "InsertGuestLink (wb_env W) d ?gl = (x, d1)"
    using assms(2) Inr by (auto simp: guestLinksPost_def Let_def split: sum.splits prod.splits)
  moreover have "check_null (\<lambda>k. 0 < k) (gl_MaxFileUploads gl)"
    using guestLinkFromRequest_ok(5) [OF Inr] by (cases "gl_MaxFileUploads gl") auto
  ultimately show ?thesis by (intro call_step(4) [OF assms(1)]) simp_all
qed

lemma guest_link_handlers_calls:
  "only_calls guestLinksPost" "only_calls guestLinksDelete" "only_calls guestLinksEnableDisable"
  by (rule only_callsI, erule guestLinksPost_steps, assumption)
    (rule only_callsI;
      auto simp: guestLinksDelete_def guestLinksEnableDisable_def Let_def
        dest: call_steps split: sum.splits prod.splits if_splits)+

lemma serve_steps:
  "0 < st_chunkSize (wb_env W) \<Longrightarrow> serveEntryContent W w r entry d = (w1, d1) \<Longrightarrow> db_steps N d d1"
  using call_step(8) [of "wb_env W" d "um_ID entry"]
  by (auto simp: serveEntryContent_def recordDownload_def) (metis prod.collapse)

lemma download_handlers_calls:
  "only_calls entryGet" "only_calls entryPreviewGet" "only_calls entryUnlockGet" "only_calls entryUnlockPost"
  by (rule only_callsI;
      auto simp: entryGet_def entryPreviewGet_def entryUnlockGet_def entryUnlockPost_def Let_def
        dest: serve_steps split: sum.splits prod.splits if_splits option.splits)+

lemma revoke_steps: "0 < st_chunkSize E \<Longrightarrow> db_steps N d (revoke_request_session E r d)"
  by (auto simp: revoke_request_session_def split: option.splits)
    (metis call_step(14) prod.collapse)

lemma completeLogin_steps:
  assumes "0 < st_chunkSize (wb_env W)" and "completeLogin W w r identity d = (e, w1, d1)"
  shows "db_steps N d d1"
proof -
  obtain a d2 where R: "RecordUserLogin (wb_env W) d identity = (a, d2)" by (metis prod.collapse)
  have 1: "db_steps N d d2" using assms(1) R by (rule call_steps)
  show ?thesis
  proof (cases a)
    case (Inr u)
    have 2: "db_steps N d2 (revoke_request_session (wb_env W) r d2)" using assms(1) by (rule revoke_steps)
    have "db_steps N (revoke_request_session (wb_env W) r d2) d1"
      using assms(2) R Inr by (auto simp: completeLogin_def Let_def dest: call_steps(13) [OF assms(1)] split: sum.splits prod.splits)
    with 1 2 show ?thesis by simp
  qed (use 1 assms(2) R in \<open>simp add: completeLogin_def\<close>)
qed

lemma other_handlers_calls:
  "only_calls authDelete" "only_calls languagePut" "only_calls setupPost" "only_calls settingsPut"
  "only_calls adminOIDCSettingsPut" "only_calls memberGrantAdminPut" "only_calls memberRevokeAdminPut"
  "only_calls devLoginPost"
  by (rule only_callsI;
      auto simp: authDelete_def languagePut_def setupPost_def settingsPut_def adminOIDCSettingsPut_def
        memberGrantAdminPut_def memberRevokeAdminPut_def devLoginPost_def Let_def
        intro: revoke_steps dest: call_steps completeLogin_steps
        split: sum.splits prod.splits if_splits option.splits)+

text \<open>Handlers that change nothing.\<close>

definition read_only :: "handler \<Rightarrow> bool" where
  "read_only h \<longleftrightarrow> (\<forall>W w r d. snd (h W w r d) = d)"

lemma read_only_calls: "read_only h \<Longrightarrow> only_calls h"
  by (simp add: read_only_def only_calls_def)

lemma with_entry_read_only: "(\<And>i md. read_only (h i md)) \<Longrightarrow> read_only (with_entry h)"
  by (auto simp: read_only_def with_entry_def split: sum.splits)

lemma page_handlers_read_only:
  "read_only fileIndexGet" "read_only fileAllGet" "read_only fileEditGet" "read_only fileInfoGet"
  "read_only fileDownloadsGet" "read_only fileConfirmDeleteGet" "read_only guestLinkIndexGet"
  "read_only guestLinksNewGet" "read_only uploadGet" "read_only indexGet" "read_only guestUploadGet"
  "read_only settingsGet" "read_only membersGet" "read_only ssoSettingsGet" "read_only authGet"
  "read_only setupGet" "read_only adminOIDCSettingsGet" "read_only (setupTestConnectionPost L)"
  "read_only (adminOIDCSettingsTestConnectionPost L)" "read_only (serveStaticResource seed fsrv)"
  "read_only entryPreviewGet" "read_only entryUnlockGet"
  by (auto simp: fileEditGet_def fileInfoGet_def fileDownloadsGet_def fileConfirmDeleteGet_def
      intro!: with_entry_read_only)
    (auto simp: read_only_def fileIndexGet_def fileAllGet_def fileIndexGetWithOptions_def guestLinkIndexGet_def
      guestLinksNewGet_def uploadGet_def indexGet_def guestUploadGet_def settingsGet_def membersGet_def
      ssoSettingsGet_def authGet_def setupGet_def adminOIDCSettingsGet_def setupTestConnectionPost_def
      adminOIDCSettingsTestConnectionPost_def serveStaticResource_def entryPreviewGet_def entryUnlockGet_def
      Let_def split: sum.splits)


section \<open>Through the middleware\<close>

definition admitted :: "subrouter \<Rightarrow> user option \<Rightarrow> bool" where
  "admitted sub u =
     (case sub of
        AuthenticatedApis \<Rightarrow> u \<noteq> None
      | AuthenticatedViews \<Rightarrow> u \<noteq> None
      | AdminApis \<Rightarrow> (case u of None \<Rightarrow> False | Some v \<Rightarrow> usr_IsAdmin v)
      | AdminViews \<Rightarrow> (case u of None \<Rightarrow> False | Some v \<Rightarrow> usr_IsAdmin v)
      | _ \<Rightarrow> True)"

lemma middleware_cases:
  "(\<exists>w1. middleware sub h W w r s = (w1, s) \<and> rs_status w1 \<in> {301, 401, 403} \<and> rs_body w1 \<in> {rs_body w} \<union> range (\<lambda>(m, e). ErrorText m e)) \<or>
   (admitted sub (rq_user r) \<and>
    (\<exists>w0 l n. middleware sub h W w r s = h W w0 (r\<lparr>rq_localizer := l, rq_nonce := n\<rparr>) s \<and>
       rs_status w0 = rs_status w \<and> rs_body w0 = rs_body w))"
proof -
  have id: "\<exists>w0 l n. h W w r s = h W w0 (r\<lparr>rq_localizer := l, rq_nonce := n\<rparr>) s \<and>
      rs_status w0 = rs_status w \<and> rs_body w0 = rs_body w"
    by (intro exI [of _ w] exI [of _ "rq_localizer r"] exI [of _ "rq_nonce r"]) simp
  have page: "\<exists>w0 l n. resolveLanguage sv_db (enforceContentSecurityPolicy h) W w r s =
      h W w0 (r\<lparr>rq_localizer := l, rq_nonce := n\<rparr>) s \<and> rs_status w0 = rs_status w \<and> rs_body w0 = rs_body w"
    unfolding resolveLanguage_def enforceContentSecurityPolicy_def Let_def
    by (intro exI conjI, rule refl) simp_all
  show ?thesis
  proof (cases sub)
    case Root
    then show ?thesis using id by (simp add: middleware_def admitted_def)
  next
    case PublicApis
    then show ?thesis using id by (simp add: middleware_def admitted_def)
  next
    case Static
    then show ?thesis using id by (simp add: middleware_def admitted_def)
  next
    case AuthenticatedApis
    then show ?thesis using id
      by (cases "rq_user r") (auto simp: middleware_def admitted_def requireAuthentication_none clearSessionCookie_def)
  next
    case AdminApis
    then show ?thesis using id
      by (cases "rq_user r")
        (auto simp: middleware_def admitted_def requireAuthentication_none requireAdmin_def clearSessionCookie_def)
  next
    case AuthenticatedViews
    then show ?thesis using page
      by (cases "rq_user r") (auto simp: middleware_def admitted_def requireAuthentication_none clearSessionCookie_def)
  next
    case AdminViews
    then show ?thesis using page
      by (cases "rq_user r")
        (auto simp: middleware_def admitted_def requireAuthentication_none requireAdmin_def clearSessionCookie_def)
  next
    case PublicViews
    then show ?thesis using page by (auto simp: middleware_def admitted_def upgradeToHttps_def)
  qed
qed

text \<open>A request is refused before its handler, or the handler runs for the user of the session.\<close>

lemma serve_cases:
  assumes "fresh_request r"
  obtains (refused) w1 where "serve P rt W r s = (w1, s)" "rs_status w1 \<in> {301, 401, 403}" "\<not> serves_file w1"
  | (handled) w0 r0 where "serve P rt W r s = handler_of P rt W w0 r0 s"
      "rq_user r0 = session_user (wb_env W) r (sv_db s)" "admitted (fst (registration rt)) (rq_user r0)"
      "r0 = r\<lparr>rq_user := rq_user r0, rq_localizer := rq_localizer r0, rq_nonce := rq_nonce r0\<rparr>"
      "rs_status w0 = 200" "rs_body w0 = Empty"
proof -
  let ?u = "session_user (wb_env W) r (sv_db s)"
  have S: "serve P rt W r s =
      middleware (fst (registration rt)) (handler_of P rt) W new_response (r\<lparr>rq_user := ?u\<rparr>) s"
    using assms by (simp add: serve_def fresh_request_def loadSession_user)
  from middleware_cases [of "fst (registration rt)" "handler_of P rt" W new_response "r\<lparr>rq_user := ?u\<rparr>" s]
  show ?thesis
  proof (elim disjE exE conjE)
    fix w1
    assume m: "middleware (fst (registration rt)) (handler_of P rt) W new_response (r\<lparr>rq_user := ?u\<rparr>) s = (w1, s)"
      and st: "rs_status w1 \<in> {301, 401, 403}"
      and b: "rs_body w1 \<in> {rs_body new_response} \<union> range (\<lambda>(m, e). ErrorText m e)"
    from b have "\<not> serves_file w1" by (auto simp: serves_file_def new_response_def)
    with refused m st S show ?thesis by simp
  next
    fix w0 l n
    assume adm: "admitted (fst (registration rt)) (rq_user (r\<lparr>rq_user := ?u\<rparr>))"
      and m: "middleware (fst (registration rt)) (handler_of P rt) W new_response (r\<lparr>rq_user := ?u\<rparr>) s =
        handler_of P rt W w0 (r\<lparr>rq_user := ?u, rq_localizer := l, rq_nonce := n\<rparr>) s"
      and w0: "rs_status w0 = rs_status new_response" "rs_body w0 = rs_body new_response"
    show ?thesis
      by (rule handled [of w0 "r\<lparr>rq_user := ?u, rq_localizer := l, rq_nonce := n\<rparr>"])
        (use S m adm w0 in \<open>simp_all add: new_response_def\<close>)
  qed
qed

lemma on_db_calls:
  "only_calls h \<Longrightarrow> 0 < st_chunkSize (wb_env W) \<Longrightarrow> db_steps (new_link W) (sv_db s) (sv_db (snd (on_db h W w r s)))"
  by (auto simp: only_calls_def on_db_def split: prod.splits) (metis snd_conv)

lemma oidcLoginGet_db: "snd (snd (oidcLoginGet idp W w r cd)) = snd cd"
  by (simp add: oidcLoginGet_def split: prod.splits)

lemma oidcCallbackGet_calls:
  "0 < st_chunkSize (wb_env W) \<Longrightarrow> db_steps N (snd cd) (snd (snd (oidcCallbackGet idp W w r cd)))"
  by (auto simp: oidcCallbackGet_def dest: completeLogin_steps split: sum.splits prod.splits option.splits)

lemma cleanupPost_calls:
  "0 < st_chunkSize (wb_env W) \<Longrightarrow> db_steps N (snd cd) (snd (snd (cleanupPost W w r cd)))"
  by (auto simp: cleanupPost_def Collect_def Let_def dest: call_step(19) split: sum.splits prod.splits)
    (metis call_step(19) prod.collapse)+

lemma systemInformationGet_state: "snd (systemInformationGet check pragma build W w r cd) = cd"
  by (simp add: systemInformationGet_def Let_def split: sum.splits prod.splits)

lemma handler_calls:
  assumes c: "0 < st_chunkSize (wb_env W)"
  shows "db_steps (new_link W) (sv_db s) (sv_db (snd (handler_of P rt W w r s)))"
proof -
  have cl: "db_steps (new_link W) (sv_db s) (sv_db (snd (on_client h W w r s)))"
    if "db_steps (new_link W) (sv_db s) (snd (snd (h W w r (sv_client s, sv_db s))))" for h
    using that by (cases "h W w r (sv_client s, sv_db s)") (simp add: on_client_def)
  have co: "db_steps (new_link W) (sv_db s) (sv_db (snd (on_collector h W w r s)))"
    if "db_steps (new_link W) (sv_db s) (snd (snd (h W w r (sv_collector s, sv_db s))))" for h
    using that by (cases "h W w r (sv_collector s, sv_db s)") (simp add: on_collector_def)
  show ?thesis
    by (cases rt)
      (simp_all add: on_db_calls [OF _ c] upload_handlers_calls guest_link_handlers_calls download_handlers_calls
        other_handlers_calls page_handlers_read_only [THEN read_only_calls] cl co oidcLoginGet_db
        oidcCallbackGet_calls [OF c, where cd = "(a, b)" for a b, simplified]
        cleanupPost_calls [OF c, where cd = "(a, b)" for a b, simplified] systemInformationGet_state)
qed

lemma serve_calls:
  assumes "0 < st_chunkSize (wb_env W)" and "fresh_request r"
  shows "db_steps (new_link W) (sv_db s) (sv_db (snd (serve P rt W r s)))"
  by (rule serve_cases [OF assms(2), of P rt W s]) (simp_all add: handler_calls assms(1))

lemma start_calls:
  assumes c: "0 < st_chunkSize E"
  shows "db_steps N d (snd (ensureSetupToken E d))" and "db_steps N d (snd (runResetOIDC E d))"
proof -
  show "db_steps N d (snd (ensureSetupToken E d))"
    by (auto simp: ensureSetupToken_def dest: call_steps(18) [OF c] split: sum.splits prod.splits)
  obtain a d1 where C: "ClearOIDCSettings E d = (a, d1)" by (metis prod.collapse)
  have "db_steps N d1 (snd (GenerateSetupToken E d1))" using call_steps(18) [OF c] by (metis prod.collapse)
  with call_steps(17) [OF c C] have "db_steps N d (snd (GenerateSetupToken E d1))" by (rule rtranclp_trans)
  with call_steps(17) [OF c C] show "db_steps N d (snd (runResetOIDC E d))"
    by (simp add: runResetOIDC_def C split: sum.split)
qed

text \<open>So the runs of the server refine the store's transition relation.\<close>

lemma server_reach_steps: "server_reach P c0 s \<Longrightarrow> db_steps UNIV initial_db (sv_db s)"
proof (induction rule: server_reach.induct)
  case first_start
  show ?case by (simp add: start_state_def)
next
  case (request s W rt r)
  have "db_steps UNIV (sv_db s) (sv_db (snd (protectedRouter P rt W r s)))"
    by (simp add: protectedRouter_def serve_calls [OF request(2,4), THEN db_steps_any])
  with request(5) show ?case by (rule rtranclp_trans)
next
  case (tick s E)
  have "db_steps UNIV (sv_db s) (snd (Purge E (sv_db s)))" using call_steps(19) [OF tick(2)] by (metis prod.collapse)
  with tick show ?case
    by (auto simp: scheduler_tick_def scheduler_collect_def Collect_def Let_def intro: rtranclp_trans)
next
  case (restart s E)
  from restart(3) start_calls(1) [OF restart(2)] show ?case
    unfolding start_state_def server_state.simps by (rule rtranclp_trans)
next
  case (reset s E)
  from reset(3) start_calls(2) [OF reset(2)] show ?case
    unfolding start_state_def server_state.simps by (rule rtranclp_trans)
qed

lemma server_reach_db: "server_reach P c0 s \<Longrightarrow> reachable_db (sv_db s)"
  by (rule reachable_steps [OF server_reach_steps reachable_db.initial])

end
