(* ===== verification/Safety.thy ===== *)
theory Safety
  imports Requests
begin

text \<open>
  What a request without administrator rights can do to the database: nothing to the settings and to
  anybody's rights, and nothing to what others own (their accounts, sessions, files with their
  download history, guest links), save that deleting an own guest link unlinks the files that came
  through it. And what a request that another site makes through a browser can do.
\<close>

section \<open>Harmless changes\<close>

text \<open>What only administrators may change, apart from the identity provider: settings and rights.\<close>

definition keeps_site :: "db \<Rightarrow> db \<Rightarrow> bool" where
  "keeps_site d d1 \<longleftrightarrow>
     settings_table d1 = settings_table d \<and>
     map (\<lambda>x. (ur_id x, ur_oidc_subject x, ur_is_admin x)) (users d1) =
       map (\<lambda>x. (ur_id x, ur_oidc_subject x, ur_is_admin x)) (users d)"

definition owned_by :: "user option \<Rightarrow> int option \<Rightarrow> bool" where
  "owned_by u owner \<longleftrightarrow> (\<exists>v. u = Some v \<and> owner = Some (UserID_Int64 (usr_ID v)))"

definition owns_entry :: "user option \<Rightarrow> db \<Rightarrow> string \<Rightarrow> bool" where
  "owns_entry u d i \<longleftrightarrow> (\<exists>x \<in> set (entries d). er_id x = i \<and> owned_by u (er_owner_user_id x))"

text \<open>The rows of others that stay, with the user \<open>u\<close> and the session token the request carries.\<close>

definition keeps_users :: "user option \<Rightarrow> db \<Rightarrow> db \<Rightarrow> bool" where
  "keeps_users u d d1 \<longleftrightarrow> (\<forall>x \<in> set (users d). x \<in> set (users d1) \<or> owned_by u (Some (ur_id x)))"

definition keeps_sessions :: "session_token option \<Rightarrow> db \<Rightarrow> db \<Rightarrow> bool" where
  "keeps_sessions token d d1 \<longleftrightarrow>
     set (sessions d1) \<subseteq> set (sessions d) \<and>
     (\<forall>x \<in> set (sessions d). x \<in> set (sessions d1) \<or>
        (\<exists>t. token = Some t \<and> sr_token_hash x = SessionTokenHash_String (SessionToken_Hash t)))"

definition keeps_downloads :: "user option \<Rightarrow> db \<Rightarrow> db \<Rightarrow> bool" where
  "keeps_downloads u d d1 \<longleftrightarrow>
     (\<forall>x \<in> set (downloads d). x \<in> set (downloads d1) \<or> owns_entry u d (dl_entry_id x))"

definition keeps_entries :: "user option \<Rightarrow> db \<Rightarrow> db \<Rightarrow> bool" where
  "keeps_entries u d d1 \<longleftrightarrow>
     (\<forall>x \<in> set (entries d). owned_by u (er_owner_user_id x) \<or> x \<in> set (entries d1) \<or>
        x\<lparr>er_guest_link_id := None\<rparr> \<in> set (entries d1) \<and>
        (\<exists>g \<in> set (guest_links d). er_guest_link_id x = Some (glr_id g) \<and> owned_by u (glr_owner_user_id g)))"

definition keeps_chunks :: "user option \<Rightarrow> db \<Rightarrow> db \<Rightarrow> bool" where
  "keeps_chunks u d d1 \<longleftrightarrow>
     (\<forall>c \<in> set (entries_data d). c \<in> set (entries_data d1) \<or> owns_entry u d (cr_id c))"

definition keeps_links :: "user option \<Rightarrow> db \<Rightarrow> db \<Rightarrow> bool" where
  "keeps_links u d d1 \<longleftrightarrow>
     (\<forall>g \<in> set (guest_links d). g \<in> set (guest_links d1) \<or> owned_by u (glr_owner_user_id g))"

text \<open>A file appears under another's name only through a guest link of theirs, a guest link never.\<close>

definition adds_own_entries :: "user option \<Rightarrow> db \<Rightarrow> db \<Rightarrow> bool" where
  "adds_own_entries u d d1 \<longleftrightarrow>
     (\<forall>x \<in> set (entries d1). er_id x \<in> er_id ` set (entries d) \<or>
        er_owner_user_id x = None \<or> owned_by u (er_owner_user_id x) \<or>
        (\<exists>g \<in> set (guest_links d).
           er_guest_link_id x = Some (glr_id g) \<and> er_owner_user_id x = glr_owner_user_id g))"

definition adds_own_links :: "user option \<Rightarrow> db \<Rightarrow> db \<Rightarrow> bool" where
  "adds_own_links u d d1 \<longleftrightarrow>
     (\<forall>g \<in> set (guest_links d1). glr_id g \<in> glr_id ` set (guest_links d) \<or>
        glr_owner_user_id g = None \<or> owned_by u (glr_owner_user_id g))"

definition harmless :: "session_token option \<Rightarrow> user option \<Rightarrow> db \<Rightarrow> db \<Rightarrow> bool" where
  "harmless token u d d1 \<longleftrightarrow>
     keeps_site d d1 \<and> keeps_users u d d1 \<and> keeps_sessions token d d1 \<and>
     keeps_downloads u d d1 \<and> keeps_entries u d d1 \<and> keeps_chunks u d d1 \<and> keeps_links u d d1 \<and>
     adds_own_entries u d d1 \<and> adds_own_links u d d1"

text \<open>Each part is about few tables, and holds when they are the same before and after.\<close>

named_theorems same_tables \<open>parts of \<^const>\<open>harmless\<close> for unchanged tables\<close>

lemma same_site [same_tables]:
  "settings_table d1 = settings_table d \<Longrightarrow> users d1 = users d \<Longrightarrow> keeps_site d d1"
  by (simp add: keeps_site_def)

lemma same_users [same_tables]: "users d1 = users d \<Longrightarrow> keeps_users u d d1"
  by (simp add: keeps_users_def)

lemma same_sessions [same_tables]: "sessions d1 = sessions d \<Longrightarrow> keeps_sessions token d d1"
  by (simp add: keeps_sessions_def)

lemma same_downloads [same_tables]: "downloads d1 = downloads d \<Longrightarrow> keeps_downloads u d d1"
  by (simp add: keeps_downloads_def)

lemma same_entries [same_tables]: "entries d1 = entries d \<Longrightarrow> keeps_entries u d d1"
  "entries d1 = entries d \<Longrightarrow> adds_own_entries u d d1"
  by (simp_all add: keeps_entries_def adds_own_entries_def)

lemma same_chunks [same_tables]: "entries_data d1 = entries_data d \<Longrightarrow> keeps_chunks u d d1"
  by (simp add: keeps_chunks_def)

lemma same_links [same_tables]: "guest_links d1 = guest_links d \<Longrightarrow> keeps_links u d d1"
  "guest_links d1 = guest_links d \<Longrightarrow> adds_own_links u d d1"
  by (simp_all add: keeps_links_def adds_own_links_def)

definition not_admin :: "user option \<Rightarrow> bool" where
  "not_admin u \<longleftrightarrow> (case u of None \<Rightarrow> True | Some v \<Rightarrow> \<not> usr_IsAdmin v)"

definition harmless_handler :: "handler \<Rightarrow> bool" where
  "harmless_handler h \<longleftrightarrow>
     (\<forall>W w r d. keys_ok d \<longrightarrow> not_admin (rq_user r) \<longrightarrow> harmless (request_token r) (rq_user r) d (snd (h W w r d)))"

lemma harmless_refl [simp]: "harmless token u d d"
  by (simp add: harmless_def same_tables)

lemma read_only_harmless: "read_only h \<Longrightarrow> harmless_handler h"
  by (simp add: read_only_def harmless_handler_def)

lemma harmless_handlerI:
  "(\<And>W w r d w1 d1. keys_ok d \<Longrightarrow> not_admin (rq_user r) \<Longrightarrow> h W w r d = (w1, d1) \<Longrightarrow>
      harmless (request_token r) (rq_user r) d d1) \<Longrightarrow> harmless_handler h"
  unfolding harmless_handler_def by (metis prod.collapse)

section \<open>Uploads\<close>

definition own_name :: "user option \<Rightarrow> user_id \<Rightarrow> bool" where
  "own_name u i \<longleftrightarrow> owner_column i = None \<or> owned_by u (owner_column i)"

lemma own_name_nobody [simp]: "own_name u (UserID 0)"
  by (simp add: own_name_def owner_column_def UserID_Empty_def)

lemma own_name_currentUser [simp]: "own_name (rq_user r) (usr_ID (fst (currentUser r)))"
  by (cases "rq_user r")
    (simp_all add: own_name_def owned_by_def owner_column_def currentUser_def zero_user_def UserID_Empty_def)

lemma InsertEntry_harmless:
  assumes "InsertEntry E d src md = (res, d1)" and "own_name u (um_OwnerID md)"
  shows "harmless token u d d1"
proof -
  obtain d2 where a: "chunk_table.adds E (EntryID_value (um_ID md)) d d2"
    and c: "d1 = d2 \<or> d1 = d2\<lparr>entries := entries d2 @ [entry_row_of d2 md]\<rparr>"
    using InsertEntry_cases [of E md d src] assms(1) by (metis snd_conv)
  obtain rs where d2: "d2 = d\<lparr>entries_data := entries_data d @ rs\<rparr>"
    using chunk_table.adds_rows [OF a] by blast
  let ?x = "entry_row_of d2 md"
  have new: "er_owner_user_id ?x = None \<or> owned_by u (er_owner_user_id ?x) \<or>
      (\<exists>g \<in> set (guest_links d). er_guest_link_id ?x = Some (glr_id g) \<and> er_owner_user_id ?x = glr_owner_user_id g)"
  proof (cases "gl_ID (um_GuestLink md) = []")
    case True
    then show ?thesis using assms(2) by (simp add: entry_row_of_def inserted_owner_def own_name_def)
  next
    case False
    show ?thesis
    proof (cases "first_row (filter (\<lambda>g. glr_id g = gl_ID (um_GuestLink md)) (guest_links d))")
      case None
      then show ?thesis using False by (simp add: entry_row_of_def inserted_owner_def d2)
    next
      case (Some g)
      then have "g \<in> set (guest_links d)" "er_guest_link_id ?x = Some (glr_id g)"
        "er_owner_user_id ?x = glr_owner_user_id g"
        using first_row_filterD [OF Some] False by (auto simp: entry_row_of_def inserted_owner_def d2)
      then show ?thesis by blast
    qed
  qed
  have "keeps_chunks u d d1" "keeps_entries u d d1" using c by (auto simp: d2 keeps_chunks_def keeps_entries_def)
  moreover have "set (entries d1) \<subseteq> insert ?x (set (entries d))" using c by (auto simp: d2)
  then have "adds_own_entries u d d1" using new unfolding adds_own_entries_def by blast
  moreover have "settings_table d1 = settings_table d" "users d1 = users d" "sessions d1 = sessions d"
    "downloads d1 = downloads d" "guest_links d1 = guest_links d" using c by (auto simp: d2)
  ultimately show ?thesis by (simp add: harmless_def same_tables)
qed

lemma insertFile_harmless:
  assumes "insertFileFromRequest W r d et g owner = (res, d1)" and "own_name u owner"
  shows "harmless token u d d1"
proof (cases "upload_from_request W r et g owner")
  case (Inr p)
  obtain src md where p: "p = (src, md)" by (cases p)
  obtain x where "InsertEntry (wb_env W) d src md = (x, d1)"
    using assms(1) Inr p by (auto simp: insertFileFromRequest_def split: sum.splits prod.splits)
  moreover have "um_OwnerID md = owner" by (rule upload_from_request_ok [OF Inr [unfolded p]])
  ultimately show ?thesis using assms(2) InsertEntry_harmless by metis
qed (use assms in \<open>simp add: insertFileFromRequest_def\<close>)

lemma upload_harmless: "harmless_handler entryPost" "harmless_handler guestEntryPost"
  by (rule harmless_handlerI;
      auto simp: entryPost_def guestEntryPost_def Let_def dest!: insertFile_harmless
        split: sum.splits prod.splits if_splits)+

section \<open>Files\<close>

text \<open>Without administrator rights, a manageable entry is one whose row names the user.\<close>

lemma manageable_owned:
  assumes "manageableEntry W w r d i = Inr entry" and "keys_ok d" and "not_admin (rq_user r)"
    and "x \<in> set (entries d)" and "er_id x = EntryID_value i"
  shows "owned_by (rq_user r) (er_owner_user_id x)"
proof -
  have m: "GetEntryMetadata (wb_env W) d i = Inr entry" "User_CanManageEntry (fst (currentUser r)) entry"
    using assms(1) by (simp_all add: manageableEntry_Inr)
  obtain y where y: "y \<in> set (entries d)" "er_id y = EntryID_value i" "entry_from_row (wb_env W) d i y = Inr entry"
    using GetEntryMetadata_Inr [OF m(1)] .
  have "inj_on er_id (set (entries d))" using assms(2) by (simp add: keys_ok_def distinct_map)
  then have "y = x" using assms(4,5) y(1,2) by (metis inj_onD)
  note owner = entry_from_row_fields(3) [OF y(3), unfolded this]
  show ?thesis
    using m(2) assms(3)
    by (cases "rq_user r")
      (auto simp: User_CanManageEntry_def owner owned_by_def not_admin_def zero_user_def UserID_Empty_def
        NoOwner_def split: option.splits, metis user_id.sel)
qed

lemma manageable_link_owned:
  assumes "manageableGuestLink W w r d i = Inr gl" and "keys_ok d"
    and "x \<in> set (guest_links d)" and "glr_id x = i"
  shows "owned_by (rq_user r) (glr_owner_user_id x)"
proof -
  have m: "GetGuestLink (wb_env W) d i = Inr gl" "User_OwnsGuestLink (fst (currentUser r)) gl"
    using assms(1) by (simp_all add: manageableGuestLink_Inr)
  obtain y where y: "first_row (filter (\<lambda>r. glr_id r = i) (guest_links d)) = Some y"
    "guestLinkFromRow y (entry_count d (glr_id y)) = Inr gl"
    using m(1) by (auto simp: GetGuestLink_def and_then_eq_Inr_iff split: option.splits)
  have "distinct (map glr_id (guest_links d))" using assms(2) by (simp add: keys_ok_def)
  then have "y = x" using first_row_filterD [OF y(1)] assms(3,4) by (metis distinct_map inj_onD)
  with y(2) have "gl_OwnerID gl = (case glr_owner_user_id x of None \<Rightarrow> NoOwner | Some v \<Rightarrow> UserID v)"
    by (auto simp: guestLinkFromRow_def and_then_eq_Inr_iff split: if_splits)
  with m(2) show ?thesis
    by (cases "rq_user r"; cases "glr_owner_user_id x")
      (simp_all add: User_OwnsGuestLink_def owned_by_def zero_user_def UserID_Empty_def NoOwner_def, metis user_id.sel)
qed

lemma UpdateEntryMetadata_harmless:
  assumes "UpdateEntryMetadata E d i md = (res, d1)"
    and "\<And>x. x \<in> set (entries d) \<Longrightarrow> er_id x = EntryID_value i \<Longrightarrow> owned_by u (er_owner_user_id x)"
  shows "harmless token u d d1"
proof (cases "d1 = d")
  case False
  let ?f = "\<lambda>r. if er_id r = EntryID_value i then updated_entry_row md r else r"
  have d1: "d1 = d\<lparr>entries := map ?f (entries d)\<rparr>" using UpdateEntryMetadata_cases [OF assms(1)] False by blast
  have "x \<in> set (entries d1)" if "x \<in> set (entries d)" "er_id x \<noteq> EntryID_value i" for x
    using that by (auto simp: d1 intro!: image_eqI [of x ?f x])
  with assms(2) have "keeps_entries u d d1" unfolding keeps_entries_def by blast
  moreover have "er_id ` set (entries d1) \<subseteq> er_id ` set (entries d)"
    by (auto simp: d1 updated_entry_row_def intro: rev_image_eqI)
  then have "adds_own_entries u d d1" unfolding adds_own_entries_def by blast
  ultimately show ?thesis by (simp add: harmless_def same_tables d1)
qed simp

lemma DeleteEntry_harmless:
  assumes "DeleteEntry E d i = (res, d1)" and "x \<in> set (entries d)" "er_id x = EntryID_value i"
    and "\<And>x. x \<in> set (entries d) \<Longrightarrow> er_id x = EntryID_value i \<Longrightarrow> owned_by u (er_owner_user_id x)"
  shows "harmless token u d d1"
proof (cases res)
  case (Inl e)
  with assms(1) DeleteEntry_atomic [of E d i e d1] show ?thesis by simp
next
  case (Inr v)
  note d1 = DeleteEntry_ok [OF assms(1) [unfolded Inr]]
  have own: "owns_entry u d (EntryID_value i)" using assms(2-4) by (auto simp: owns_entry_def)
  have "keeps_downloads u d d1" "keeps_chunks u d d1"
    using own by (auto simp: d1 keeps_downloads_def keeps_chunks_def)
  moreover have "keeps_entries u d d1" "adds_own_entries u d d1"
    using assms(4) by (auto simp: d1 keeps_entries_def adds_own_entries_def)
  ultimately show ?thesis by (simp add: harmless_def same_tables d1)
qed

lemma manageableEntry_row:
  assumes "manageableEntry W w r d i = Inr entry"
  obtains x where "x \<in> set (entries d)" "er_id x = EntryID_value i"
  using assms by (auto simp: manageableEntry_Inr elim: GetEntryMetadata_Inr)

lemma entry_harmless: "harmless_handler entryPut" "harmless_handler entryDelete"
proof -
  show "harmless_handler entryPut"
  proof (rule harmless_handlerI)
    fix W w r d w1 d1
    assume a: "keys_ok d" "not_admin (rq_user r)" "entryPut W w r d = (w1, d1)"
    then show "harmless (request_token r) (rq_user r) d d1"
      by (auto simp: entryPut_def dest!: UpdateEntryMetadata_harmless intro: manageable_owned [OF _ a(1,2)]
          split: sum.splits prod.splits if_splits)
  qed
  show "harmless_handler entryDelete"
  proof (rule harmless_handlerI)
    fix W w r d w1 d1
    assume a: "keys_ok d" "not_admin (rq_user r)" "entryDelete W w r d = (w1, d1)"
    show "harmless (request_token r) (rq_user r) d d1"
    proof (cases "d1 = d")
      case False
      then obtain i entry where m: "manageableEntry W w r d i = Inr entry" "DeleteEntry (wb_env W) d i = (Inr (), d1)"
        using entryDelete_changes [OF a(3)] by blast
      obtain x where "x \<in> set (entries d)" "er_id x = EntryID_value i" by (rule manageableEntry_row [OF m(1)])
      with m a show ?thesis by (intro DeleteEntry_harmless [OF m(2)]) (auto intro: manageable_owned)
    qed simp
  qed
qed

section \<open>Guest links\<close>

lemma InsertGuestLink_harmless:
  assumes "InsertGuestLink E d gl = (res, d1)" and "own_name u (gl_OwnerID gl)"
  shows "harmless token u d d1"
proof (cases res)
  case (Inl e)
  with assms(1) InsertGuestLink_err [of E d gl e d1] show ?thesis by simp
next
  case (Inr v)
  note d1 = InsertGuestLink_ok(1) [OF assms(1) [unfolded Inr]]
  have "keeps_links u d d1" by (simp add: d1 keeps_links_def)
  moreover have "adds_own_links u d d1"
    using assms(2) by (simp add: d1 adds_own_links_def own_name_def guest_link_row_of_def)
  ultimately show ?thesis by (simp add: harmless_def same_tables d1)
qed

lemma DeleteGuestLink_harmless:
  assumes "DeleteGuestLink E d i = (Inr v, d1)" and "y \<in> set (guest_links d)" "glr_id y = i"
    and own: "\<And>x. x \<in> set (guest_links d) \<Longrightarrow> glr_id x = i \<Longrightarrow> owned_by u (glr_owner_user_id x)"
  shows "harmless token u d d1"
proof -
  let ?f = "\<lambda>r. if er_guest_link_id r = Some i then r\<lparr>er_guest_link_id := None\<rparr> else r"
  have d1: "d1 = d\<lparr>entries := map ?f (entries d), guest_links := filter (\<lambda>r. glr_id r \<noteq> i) (guest_links d)\<rparr>"
    by (rule DeleteGuestLink_ok [OF assms(1)])
  have own_link: "\<exists>g \<in> set (guest_links d). Some i = Some (glr_id g) \<and> owned_by u (glr_owner_user_id g)"
    using assms(2,3) own [OF assms(2,3)] by blast
  have "x \<in> set (entries d1) \<or> x\<lparr>er_guest_link_id := None\<rparr> \<in> set (entries d1) \<and> er_guest_link_id x = Some i"
    if "x \<in> set (entries d)" for x
  proof -
    have "?f x \<in> set (entries d1)" using that by (simp add: d1)
    then show ?thesis by (simp split: if_splits)
  qed
  with own_link have "keeps_entries u d d1" unfolding keeps_entries_def by metis
  moreover have "adds_own_entries u d d1" by (auto simp: d1 adds_own_entries_def)
  moreover have "keeps_links u d d1" "adds_own_links u d d1"
    using own by (auto simp: d1 keeps_links_def adds_own_links_def)
  ultimately show ?thesis by (simp add: harmless_def same_tables d1)
qed

lemma set_disabled_harmless:
  assumes "\<And>x. x \<in> set (guest_links d) \<Longrightarrow> glr_id x = i \<Longrightarrow> owned_by u (glr_owner_user_id x)"
  shows "harmless token u d (set_disabled i b d)"
proof -
  have "keeps_links u d (set_disabled i b d)" "adds_own_links u d (set_disabled i b d)"
    using assms by (auto simp: keeps_links_def adds_own_links_def set_disabled_def)
  then show ?thesis by (simp add: harmless_def same_tables set_disabled_def)
qed

lemma guest_link_harmless:
  "harmless_handler guestLinksPost" "harmless_handler guestLinksDelete" "harmless_handler guestLinksEnableDisable"
proof -
  show "harmless_handler guestLinksPost"
    by (rule harmless_handlerI)
      (auto simp: guestLinksPost_def Let_def dest!: InsertGuestLink_harmless split: sum.splits prod.splits)
  show "harmless_handler guestLinksDelete"
  proof (rule harmless_handlerI)
    fix W w r d w1 d1
    assume a: "keys_ok d" "not_admin (rq_user r)" "guestLinksDelete W w r d = (w1, d1)"
    show "harmless (request_token r) (rq_user r) d d1"
    proof (cases "d1 = d")
      case False
      then obtain i gl where m: "manageableGuestLink W w r d i = Inr gl" "DeleteGuestLink (wb_env W) d i = (Inr (), d1)"
        using guestLinksDelete_changes [OF a(3)] by blast
      obtain y where "y \<in> set (guest_links d)" "glr_id y = i"
        using m(1) by (auto simp: manageableGuestLink_Inr elim: GetGuestLink_Inr)
      then show ?thesis by (rule DeleteGuestLink_harmless [OF m(2)]) (rule manageable_link_owned [OF m(1) a(1)])
    qed simp
  qed
  show "harmless_handler guestLinksEnableDisable"
  proof (rule harmless_handlerI)
    fix W w r d w1 d1
    assume a: "keys_ok d" "not_admin (rq_user r)" "guestLinksEnableDisable W w r d = (w1, d1)"
    show "harmless (request_token r) (rq_user r) d d1"
    proof (cases "d1 = d")
      case False
      then obtain i gl b where m: "manageableGuestLink W w r d i = Inr gl" "d1 = set_disabled i b d"
        using guestLinksEnableDisable_changes [OF a(3)] by blast
      show ?thesis unfolding m(2) by (rule set_disabled_harmless) (rule manageable_link_owned [OF m(1) a(1)])
    qed simp
  qed
qed

section \<open>The other handlers\<close>

lemma download_recorded_harmless: "harmless token u d (d\<lparr>downloads := downloads d @ rows\<rparr>)"
  by (simp add: harmless_def same_tables keeps_downloads_def)

lemma serve_entry_harmless: "serveEntryContent W w r entry d = (w1, d1) \<Longrightarrow> harmless token u d d1"
  using recordDownload_cases [of "wb_env W" d "um_ID entry" "server_now W" "rq_remote_addr r" "header_Get r ''User-Agent''"]
  by (auto simp: serveEntryContent_def download_recorded_harmless)

lemma download_harmless: "harmless_handler entryGet" "harmless_handler entryUnlockPost"
  by (rule harmless_handlerI;
      auto simp: entryGet_def entryUnlockPost_def Let_def dest: serve_entry_harmless
        split: sum.splits prod.splits if_splits option.splits)+

lemma session_harmless: "harmless_handler authDelete" "harmless_handler languagePut"
proof -
  have "keeps_sessions (request_token r) d (revoke_request_session E r d)" for E r d
    by (auto simp: revoke_request_session_def DeleteSession_def keeps_sessions_def split: option.splits)
  moreover have "users (revoke_request_session E r d) = users d" "settings_table (revoke_request_session E r d) = settings_table d"
    "downloads (revoke_request_session E r d) = downloads d" "entries (revoke_request_session E r d) = entries d"
    "entries_data (revoke_request_session E r d) = entries_data d" "guest_links (revoke_request_session E r d) = guest_links d"
    for E r d by (simp_all add: revoke_request_session_def DeleteSession_def split: option.splits)
  ultimately have "harmless (request_token r) (rq_user r) d (revoke_request_session E r d)" for E r d
    by (simp add: harmless_def same_tables)
  then show "harmless_handler authDelete"
    by (intro harmless_handlerI) (auto simp: authDelete_def)
  show "harmless_handler languagePut"
  proof (rule harmless_handlerI)
    fix W w r d w1 d1
    assume "languagePut W w r d = (w1, d1)"
    from languagePut_users [OF this] show "harmless (request_token r) (rq_user r) d d1"
    proof (elim disjE exE conjE)
      fix u lang
      assume u: "rq_user r = Some u" and d1: "d1 = d\<lparr>users := map (\<lambda>x. if ur_id x = UserID_Int64 (usr_ID u)
             then x\<lparr>ur_preferred_language := Some (Language_value lang)\<rparr> else x) (users d)\<rparr>"
      have "keeps_users (rq_user r) d d1" by (auto simp: keeps_users_def d1 u owned_by_def)
      moreover have "keeps_site d d1" by (simp add: keeps_site_def d1 comp_def if_distrib cong: if_cong)
      ultimately show ?thesis by (simp add: harmless_def same_tables d1)
    qed simp
  qed
qed

lemma setup_harmless: "harmless_handler setupPost"
proof (rule harmless_handlerI)
  fix W w r d w1 d1
  assume s: "setupPost W w r d = (w1, d1)"
  show "harmless (request_token r) (rq_user r) d d1"
  proof (cases "d1 = d")
    case False
    obtain x where "d1 = d\<lparr>oidc_table := x\<rparr>" by (rule setupPost_changes [OF s False]) blast
    then show ?thesis by (simp add: harmless_def same_tables)
  qed simp
qed

text \<open>Routes that end in a login, for which the session's user is not yet the one who acts, and the
  other route of development builds.\<close>

definition login_or_debug :: "route \<Rightarrow> bool" where
  "login_or_debug rt \<longleftrightarrow> rt \<in> {OidcCallbackGet, DebugLoginPost, DebugCleanupPost}"

lemma not_admitted:
  "not_admin u \<Longrightarrow> \<not> admitted AdminApis u" "not_admin u \<Longrightarrow> \<not> admitted AdminViews u"
  by (auto simp: admitted_def not_admin_def split: option.splits)

lemma oidcLoginGet_state: "sv_db (snd (on_client (oidcLoginGet idp) W w r s)) = sv_db s"
  "sv_collector (snd (on_client (oidcLoginGet idp) W w r s)) = sv_collector s"
  using oidcLoginGet_db [of idp W w r "(sv_client s, sv_db s)"]
  by (cases "oidcLoginGet idp W w r (sv_client s, sv_db s)"; simp add: on_client_def)+

lemma handler_harmless:
  assumes "keys_ok (sv_db s)" and "not_admin (rq_user r)" and "\<not> login_or_debug rt"
    and "admitted (fst (registration rt)) (rq_user r)"
  shows "harmless (request_token r) (rq_user r) (sv_db s) (sv_db (snd (handler_of P rt W w r s)))"
proof -
  have db: "harmless (request_token r) (rq_user r) (sv_db s) (sv_db (snd (on_db h W w r s)))" if "harmless_handler h" for h
    using that assms(1,2) by (cases "h W w r (sv_db s)") (simp add: on_db_def, metis harmless_handler_def snd_conv)
  from assms(3,4) not_admitted [OF assms(2)] show ?thesis
    by (cases rt)
      (simp_all add: login_or_debug_def db oidcLoginGet_state upload_harmless entry_harmless guest_link_harmless
        download_harmless session_harmless setup_harmless page_handlers_read_only [THEN read_only_harmless])
qed

section \<open>The identity provider\<close>

text \<open>Without administrator rights its settings can only be changed with a setup token.\<close>

definition setup_token_shown :: "env \<Rightarrow> request \<Rightarrow> db \<Rightarrow> bool" where
  "setup_token_shown E r d \<longleftrightarrow>
     (\<exists>q x. parseOIDCSettingsRequest (env_url_parse E) r (ValidateSetupToken E d) = Inr q \<and>
        oidc_table d = Some x \<and> or_setup_token_hash x = Some (SetupToken_Hash (osr_SetupToken q)))"

definition keeps_oidc :: "handler \<Rightarrow> bool" where
  "keeps_oidc h \<longleftrightarrow> (\<forall>W w r d. oidc_table (snd (h W w r d)) = oidc_table d)"

lemma keeps_oidcI: "(\<And>W w r d w1 d1. h W w r d = (w1, d1) \<Longrightarrow> oidc_table d1 = oidc_table d) \<Longrightarrow> keeps_oidc h"
  unfolding keeps_oidc_def by (metis prod.collapse)

lemma read_only_keeps_oidc: "read_only h \<Longrightarrow> keeps_oidc h"
  by (simp add: read_only_def keeps_oidc_def)

lemma InsertEntry_oidc: "InsertEntry E d src md = (res, d1) \<Longrightarrow> oidc_table d1 = oidc_table d"
proof -
  assume I: "InsertEntry E d src md = (res, d1)"
  obtain d2 where a: "chunk_table.adds E (EntryID_value (um_ID md)) d d2"
    and c: "d1 = d2 \<or> d1 = d2\<lparr>entries := entries d2 @ [entry_row_of d2 md]\<rparr>"
    using InsertEntry_cases [of E md d src] I by (metis snd_conv)
  obtain rs where "d2 = d\<lparr>entries_data := entries_data d @ rs\<rparr>"
    using chunk_table.adds_rows [OF a] by blast
  with c show ?thesis by auto
qed

lemma insertFile_oidc: "insertFileFromRequest W r d et g owner = (res, d1) \<Longrightarrow> oidc_table d1 = oidc_table d"
  by (auto simp: insertFileFromRequest_def dest: InsertEntry_oidc split: sum.splits prod.splits)

lemma DeleteEntry_oidc: "DeleteEntry E d i = (res, d1) \<Longrightarrow> oidc_table d1 = oidc_table d"
  using DeleteEntry_atomic [of E d i _ d1] DeleteEntry_ok [of E d i _ d1] by (cases res) auto

lemma DeleteGuestLink_oidc: "DeleteGuestLink E d i = (res, d1) \<Longrightarrow> oidc_table d1 = oidc_table d"
  using DeleteGuestLink_atomic [of E d i _ d1] DeleteGuestLink_ok [of E d i _ d1] by (cases res) auto

lemma handlers_keep_oidc:
  "keeps_oidc entryPost" "keeps_oidc guestEntryPost" "keeps_oidc entryPut" "keeps_oidc entryDelete"
  "keeps_oidc guestLinksPost" "keeps_oidc guestLinksDelete" "keeps_oidc guestLinksEnableDisable"
  "keeps_oidc entryGet" "keeps_oidc entryUnlockPost" "keeps_oidc authDelete" "keeps_oidc languagePut"
proof -
  show "keeps_oidc entryPost" "keeps_oidc guestEntryPost"
    by (rule keeps_oidcI; auto simp: entryPost_def guestEntryPost_def Let_def dest!: insertFile_oidc
        split: sum.splits prod.splits if_splits)+
  show "keeps_oidc entryPut"
    by (rule keeps_oidcI)
      (auto simp: entryPut_def dest!: UpdateEntryMetadata_cases split: sum.splits prod.splits if_splits)
  show "keeps_oidc entryDelete"
    by (rule keeps_oidcI) (metis entryDelete_changes DeleteEntry_oidc)
  show "keeps_oidc guestLinksPost"
    by (rule keeps_oidcI)
      (auto simp: guestLinksPost_def Let_def dest: InsertGuestLink_ok(1) InsertGuestLink_err split: sum.splits prod.splits)
  show "keeps_oidc guestLinksDelete"
    by (rule keeps_oidcI) (metis guestLinksDelete_changes DeleteGuestLink_oidc)
  have set_disabled: "oidc_table (set_disabled i b d) = oidc_table d" for i b d by (simp add: set_disabled_def)
  show "keeps_oidc guestLinksEnableDisable"
    by (rule keeps_oidcI) (metis guestLinksEnableDisable_changes set_disabled)
  have "serveEntryContent W w r entry d = (w1, d1) \<Longrightarrow> oidc_table d1 = oidc_table d" for W w r entry d w1 d1
    using recordDownload_cases [of "wb_env W" d "um_ID entry" "server_now W" "rq_remote_addr r" "header_Get r ''User-Agent''"]
    by (auto simp: serveEntryContent_def)
  then show "keeps_oidc entryGet" "keeps_oidc entryUnlockPost"
    by (intro keeps_oidcI;
        fastforce simp: entryGet_def entryUnlockPost_def Let_def split: sum.splits prod.splits if_splits option.splits)+
  show "keeps_oidc authDelete"
    by (rule keeps_oidcI)
      (auto simp: authDelete_def revoke_request_session_def DeleteSession_def split: option.splits)
  show "keeps_oidc languagePut"
    by (rule keeps_oidcI) (auto dest!: languagePut_users)
qed

lemma handler_oidc:
  assumes "not_admin (rq_user r)" and "\<not> login_or_debug rt" and "admitted (fst (registration rt)) (rq_user r)"
    and "oidc_table (sv_db (snd (handler_of P rt W w r s))) \<noteq> oidc_table (sv_db s)"
  shows "rt = SetupPost \<and> setup_token_shown (wb_env W) r (sv_db s)"
proof -
  have db: "oidc_table (sv_db (snd (on_db h W w r s))) = oidc_table (sv_db s)" if "keeps_oidc h" for h
    using that by (cases "h W w r (sv_db s)") (simp add: on_db_def, metis keeps_oidc_def snd_conv)
  have "rt = SetupPost"
    using assms(2-4) not_admitted [OF assms(1)]
    by (cases rt)
      (simp_all add: login_or_debug_def db oidcLoginGet_state handlers_keep_oidc
        page_handlers_read_only [THEN read_only_keeps_oidc])
  moreover have "setup_token_shown (wb_env W) r (sv_db s)"
  proof -
    obtain w1 d1 where s: "setupPost W w r (sv_db s) = (w1, d1)" by (metis surj_pair)
    then have ne: "d1 \<noteq> sv_db s" using assms(4) calculation by (auto simp: on_db_def)
    show ?thesis unfolding setup_token_shown_def by (rule setupPost_changes [OF s ne]) blast
  qed
  ultimately show ?thesis ..
qed

section \<open>Requests of other sites\<close>

text \<open>
  A browser says that a request comes from another site with \<open>Sec-Fetch-Site\<close>; one that does not send
  this header gives it away when its \<open>Origin\<close> is not the host of the request.
\<close>

definition from_other_site :: "web \<Rightarrow> request \<Rightarrow> bool" where
  "from_other_site W r \<longleftrightarrow>
     header_Get r ''Sec-Fetch-Site'' \<in> {''cross-site'', ''same-site''} \<or>
     header_Get r ''Sec-Fetch-Site'' = [] \<and> header_Get r ''Origin'' \<noteq> [] \<and>
       (case env_url_parse (wb_env W) (header_Get r ''Origin'') of
          None \<Rightarrow> True | Some (scheme, host) \<Rightarrow> host \<noteq> rq_host r)"

lemma from_other_site_refused:
  "from_other_site W r \<Longrightarrow> method \<noteq> GET \<Longrightarrow> \<not> cross_origin_allowed W method r"
  by (auto simp: from_other_site_def cross_origin_allowed_def Let_def split: option.splits)

text \<open>What a GET request changes, but for the login callback: it may add one row to the download
  history, and the beginning of a login may fetch the identity provider.\<close>

definition only_records_download :: "db \<Rightarrow> db \<Rightarrow> bool" where
  "only_records_download d d1 \<longleftrightarrow> (\<exists>rows. length rows \<le> 1 \<and> d1 = d\<lparr>downloads := downloads d @ rows\<rparr>)"

lemma only_records_refl [simp]: "only_records_download d d"
  unfolding only_records_download_def by (intro exI [of _ "[]"]) simp

lemma entryGet_records: "only_records_download d (snd (entryGet W w r d))"
proof -
  have "only_records_download d (snd (serveEntryContent W w r entry d))" for w entry
  proof -
    have "\<exists>x. snd (recordDownload E d i t addr ua) = d \<or>
        snd (recordDownload E d i t addr ua) = d\<lparr>downloads := downloads d @ [x]\<rparr>" for E i t addr ua
      using recordDownload_cases [of E d i t addr ua] by blast
    moreover have "only_records_download d (d\<lparr>downloads := downloads d @ [x]\<rparr>)" for x
      unfolding only_records_download_def by (intro exI [of _ "[x]"]) simp
    ultimately show ?thesis unfolding serveEntryContent_def by (metis only_records_refl snd_conv)
  qed
  then show ?thesis by (auto simp: entryGet_def split: sum.splits)
qed

lemma get_handler_records:
  assumes "fst (snd (registration rt)) = GET" and "rt \<noteq> OidcCallbackGet"
  shows "only_records_download (sv_db s) (sv_db (snd (handler_of P rt W w r s))) \<and>
    sv_collector (snd (handler_of P rt W w r s)) = sv_collector s \<and>
    (sv_client (snd (handler_of P rt W w r s)) \<noteq> sv_client s \<longrightarrow> rt = OidcLoginGet)"
proof -
  have db: "only_records_download (sv_db s) (sv_db (snd (on_db h W w r s))) \<and>
      sv_collector (snd (on_db h W w r s)) = sv_collector s \<and> sv_client (snd (on_db h W w r s)) = sv_client s"
    if "read_only h" for h
    using that by (cases "h W w r (sv_db s)") (simp add: on_db_def, metis read_only_def snd_conv only_records_refl)
  have get: "only_records_download (sv_db s) (sv_db (snd (on_db entryGet W w r s))) \<and>
      sv_collector (snd (on_db entryGet W w r s)) = sv_collector s \<and> sv_client (snd (on_db entryGet W w r s)) = sv_client s"
    using entryGet_records [of "sv_db s" W w r] by (cases "entryGet W w r (sv_db s)") (simp add: on_db_def)
  have info: "snd (on_collector (systemInformationGet check pragma build) W w r s) = s" for check pragma build
    using systemInformationGet_state [of check pragma build W w r "(sv_collector s, sv_db s)"]
    by (cases "systemInformationGet check pragma build W w r (sv_collector s, sv_db s)") (simp add: on_collector_def)
  from assms show ?thesis
    by (cases rt) (simp_all add: db get oidcLoginGet_state info page_handlers_read_only)
qed

text \<open>
  The callback changes the database only by completing a login, which the identity provider has to
  have accepted, and which leaves the files, their history and all settings as they are.
\<close>

definition only_logs_in :: "web \<Rightarrow> request \<Rightarrow> user_identity \<Rightarrow> db \<Rightarrow> db \<Rightarrow> bool" where
  "only_logs_in W r identity d d1 \<longleftrightarrow>
     (\<exists>w1 e w2. completeLogin W w1 r identity d = (e, w2, d1)) \<and>
     settings_table d1 = settings_table d \<and> oidc_table d1 = oidc_table d \<and> entries_data d1 = entries_data d \<and>
     downloads d1 = downloads d \<and> map er_id (entries d1) = map er_id (entries d) \<and>
     map glr_id (guest_links d1) = map glr_id (guest_links d)"

lemma RecordUserLogin_frame:
  assumes "RecordUserLogin E d identity = (res, d1)"
  shows "settings_table d1 = settings_table d \<and> oidc_table d1 = oidc_table d \<and> entries_data d1 = entries_data d \<and>
    downloads d1 = downloads d \<and> map er_id (entries d1) = map er_id (entries d) \<and>
    map glr_id (guest_links d1) = map glr_id (guest_links d)"
proof (cases res)
  case (Inl e)
  with assms RecordUserLogin_atomic [of E d identity e d1] show ?thesis by simp
next
  case (Inr u)
  from RecordUserLogin_users [OF assms [unfolded Inr]] show ?thesis
  proof (elim disjE exE conjE)
    fix i
    assume i: "insert_user E d identity = Inr (i, d1)"
    note ui = insert_user_ok [OF i]
    show ?thesis
    proof (cases "users d = []")
      case True
      show ?thesis by (simp add: claimOwnerlessRows_ok [OF ui(4) [OF True]] comp_def if_distrib cong: if_cong)
    next
      case False
      then show ?thesis using ui(5) by simp
    qed
  qed simp
qed

lemma completeLogin_logs_in:
  assumes "completeLogin W w r identity d = (e, w1, d1)"
  shows "only_logs_in W r identity d d1"
proof -
  obtain a d2 where R: "RecordUserLogin (wb_env W) d identity = (a, d2)" by (metis prod.collapse)
  have "\<exists>ss. d1 = d2\<lparr>sessions := ss\<rparr>"
  proof (cases a)
    case (Inl x)
    then show ?thesis using assms R by (intro exI [of _ "sessions d2"]) (simp add: completeLogin_def)
  next
    case (Inr u)
    have rev: "\<exists>ss. revoke_request_session (wb_env W) r d2 = d2\<lparr>sessions := ss\<rparr>"
      by (cases "request_token r")
        (auto simp: revoke_request_session_def DeleteSession_def intro: exI [of _ "sessions d2"])
    have ins: "\<exists>ss. snd (InsertSession E d ses) = d\<lparr>sessions := ss\<rparr>" for E d ses
      by (auto simp: InsertSession_def Let_def intro: exI [of _ "sessions d"])
    obtain ss where ss: "revoke_request_session (wb_env W) r d2 = d2\<lparr>sessions := ss\<rparr>" using rev by blast
    obtain ses x where "InsertSession (wb_env W) (d2\<lparr>sessions := ss\<rparr>) ses = (x, d1)"
      using assms R Inr ss by (auto simp: completeLogin_def Let_def split: sum.splits prod.splits)
    with ins [of "wb_env W" "d2\<lparr>sessions := ss\<rparr>" ses] show ?thesis by auto
  qed
  with RecordUserLogin_frame [OF R] assms show ?thesis unfolding only_logs_in_def by auto
qed

lemma completeLogin_context:
  "completeLogin W w (r\<lparr>rq_user := u, rq_localizer := l, rq_nonce := n\<rparr>) identity d = completeLogin W w r identity d"
proof -
  let ?r = "r\<lparr>rq_user := u, rq_localizer := l, rq_nonce := n\<rparr>"
  have rev: "revoke_request_session E ?r d = revoke_request_session E r d" for E d
    by (simp add: revoke_request_session_def request_token_def request_Cookie_def)
  have cookie: "setSessionCookie W w ?r token t = setSessionCookie W w r token t" for w token t
    by (simp add: setSessionCookie_def requestIsHTTPS_def header_Get_def)
  show ?thesis unfolding completeLogin_def rev cookie ..
qed

lemma callback_logs_in:
  assumes "on_client (oidcCallbackGet idp) W w r s = (w1, s1)"
  shows "sv_collector s1 = sv_collector s \<and>
    (sv_db s1 = sv_db s \<or>
     (\<exists>identity w2. fst (idp_Callback idp W w r (sv_client s, sv_db s)) = Inr identity \<and>
        only_logs_in W r identity (sv_db s) (sv_db s1)))"
  using assms completeLogin_logs_in
  by (cases "idp_Callback idp W w r (sv_client s, sv_db s)")
    (fastforce simp: on_client_def oidcCallbackGet_def split: sum.splits prod.splits option.splits)

end
