(* ===== verification/Samples.thy ===== *)
theory Samples
  imports Collector
begin

text \<open>
  A concrete setting that satisfies every law the development assumes of SQLite, with a clock at
  the first day of 2025 and no failing statement, and concrete values for the witnesses.
\<close>

definition sample_datetime :: "string \<Rightarrow> string option" where
  "sample_datetime s =
     (if length s = 10 then Some (s @ '' 00:00:00'')
      else Some (take 10 s @ '' '' @ take 8 (drop 11 s)))"

definition sample_now :: time where "sample_now = utc_date 2025 1 1 0 0 0 0"

definition sample_env :: env where
  "sample_env =
     \<lparr>sq_datetime = sample_datetime, sq_length = rune_count, sq_fk = True,
      sq_fault = (\<lambda>op k. False), st_now = sample_now, st_later = sample_now, st_chunkSize = 4,
      st_optimizeForLitestream = False,
      env_url_parse = (\<lambda>s. if has_prefix s ''https://'' then Some (''https'', ''idp'') else None),
      env_draw = (\<lambda>i. i)\<rparr>"

lemma sample_env_simps [simp]:
  "sq_length sample_env = rune_count" "sq_fk sample_env" "\<not> sq_fault sample_env op k"
  "st_now sample_env = sample_now" "st_chunkSize sample_env = 4" "sq_datetime sample_env = sample_datetime"
  "env_draw sample_env = (\<lambda>i. i)" "no_faults sample_env op" "reads_ok sample_env"
  "st_later sample_env = sample_now"
  by (simp_all add: sample_env_def no_faults_def reads_ok_def)

lemma sample_now_secs: "unix_secs sample_now = 1735689600"
  by (simp add: sample_now_def utc_date_def unix_secs_def days_of_date_def
      days_before_year_def days_before_month_def leap_def second_def)

lemma sample_now_range [simp]: "text_range sample_now"
  by (simp add: text_range_def sample_now_secs)

lemma sample_datetime_law [simp]: "datetime_law sample_env"
proof -
  have "sample_datetime (formatTime t) = Some (datetime_text t)" if rng: "text_range t" for t
  proof -
    obtain d c where t: "formatTime t = d @ ''T'' @ c @ ''Z''" "length d = 10" "length c = 8"
      using formatTime_parts [OF rng] .
    then show ?thesis by (simp add: sample_datetime_def datetime_text_def)
  qed
  then show ?thesis by (simp add: datetime_law_def) (simp add: sample_datetime_def)
qed

lemma sample_length_law [simp]: "length_law sample_env"
  by (simp add: length_law_def)

lemma sample_check_time: "text_range t \<Longrightarrow> 1645315200 \<le> unix_secs t \<Longrightarrow> check_time sample_env (formatTime t)"
  by (simp add: check_time_formatTime picoshare_epoch_secs)

lemma NeverExpire_secs: "unix_secs NeverExpire = 32503593600"
  by (simp add: NeverExpire_def utc_date_def unix_secs_def days_of_date_def
      days_before_year_def days_before_month_def leap_def second_def)

lemma NeverExpire_range [simp]: "text_range NeverExpire"
  by (simp add: text_range_def NeverExpire_secs)

text \<open>An entry that never expires, and its content in two pieces.\<close>

definition sample_id :: entry_id where "sample_id = EntryID ''abcdefghij''"

definition sample_md :: upload_metadata where
  "sample_md =
     \<lparr>um_ID = sample_id, um_Filename = ''hello.txt'', um_Note = None, um_OwnerID = NoOwner,
      um_OwnerUsername = Username [], um_ContentType = ''text/plain'', um_Uploaded = sample_now,
      um_Expires = NeverExpire, um_Size = FileSize 5, um_GuestLink = NoGuestLink, um_DownloadCount = 0,
      um_DownloadPassphrase = NoDownloadPassphrase\<rparr>"

definition sample_src :: source where
  "sample_src = \<lparr>src_pieces = [''he'', ''llo''], src_fails = False\<rparr>"

lemma sample_simps [simp]:
  "um_ID sample_md = sample_id" "EntryID_value sample_id = ''abcdefghij''"
  "src_pieces sample_src = [''he'', ''llo'']" "\<not> src_fails sample_src"
  by (simp_all add: sample_md_def sample_id_def sample_src_def)

lemma sample_entry_row:
  "entry_row_of initial_db sample_md =
     \<lparr>er_id = ''abcdefghij'', er_guest_link_id = None, er_filename = ''hello.txt'', er_note = None,
      er_content_type = ''text/plain'', er_upload_time = formatTime sample_now,
      er_expiration_time = Some (formatTime NeverExpire), er_download_passphrase = None,
      er_owner_user_id = None\<rparr>"
  by (simp add: entry_row_of_def sample_md_def sample_id_def NoGuestLink_def formatExpirationTime_def
      downloadPassphraseString_def DownloadPassphrase_Empty_def Passphrase_Empty_def NoDownloadPassphrase_def
      inserted_owner_def owner_column_def UserID_Empty_def NoOwner_def)

lemma sample_entry_ok: "entry_ok sample_env initial_db (entry_row_of initial_db sample_md)"
  by (simp add: sample_entry_row entry_ok_def entry_checks_def sample_check_time sample_now_secs NeverExpire_secs)

lemma initial_db_simps [simp]:
  "entries initial_db = []" "entries_data initial_db = []" "downloads initial_db = []"
  "guest_links initial_db = []" "users initial_db = []" "sessions initial_db = []"
  by (simp_all add: initial_db_def)

text \<open>The database after the entry was inserted.\<close>

definition sample_db :: db where
  "sample_db = snd (InsertEntry sample_env initial_db sample_src sample_md)"

lemma sample_inserted: "InsertEntry sample_env initial_db sample_src sample_md = (Inr (), sample_db)"
proof -
  have "\<exists>d1. InsertEntry sample_env initial_db sample_src sample_md = (Inr (), d1)"
    by (rule InsertEntry_succeeds) (simp_all add: sample_entry_ok)
  then show ?thesis by (auto simp: sample_db_def)
qed

lemma sample_db_eq:
  "sample_db = initial_db\<lparr>entries_data := file_rows ''abcdefghij'' 4 ''hello'',
                          entries := [entry_row_of initial_db sample_md]\<rparr>"
  using InsertEntry_ok(2) [OF sample_inserted] by simp

lemma sample_storable: "storable_entry sample_md"
  by (simp add: storable_entry_def sample_md_def)


lemma sample_read_settings:
  "settings_table d = settings_table initial_db \<Longrightarrow> \<exists>s. ReadSettings sample_env d = Inr s"
  by (simp add: ReadSettings_def stmt_def initial_db_def settings_from_row_def scan_u16_def scan_null_i16_def)

lemma sample_purge:
  "settings_table d = settings_table initial_db \<Longrightarrow> \<exists>d1. Purge sample_env d = (Inr (), d1)"
  using sample_read_settings [of d] Purge_succeeds [of sample_env d] by auto


text \<open>The same with a user and a session that lasts as long as the entry.\<close>

definition sample_user_row :: user_row where
  "sample_user_row =
     \<lparr>ur_id = 1, ur_oidc_subject = ''sub'', ur_username = ''alice'', ur_email = None, ur_is_admin = True,
      ur_preferred_language = None, ur_creation_time = formatTime sample_now,
      ur_last_login_time = formatTime sample_now\<rparr>"

definition sample_token :: session_token where "sample_token = NewSessionToken (\<lambda>i. i)"

definition sample_session :: session_row where
  "sample_session =
     \<lparr>sr_token_hash = SessionTokenHash_String (SessionToken_Hash sample_token), sr_user_id = 1,
      sr_creation_time = formatTime sample_now, sr_expiration_time = formatTime NeverExpire\<rparr>"

definition sample_db2 :: db where
  "sample_db2 = sample_db\<lparr>users := [sample_user_row], sessions := [sample_session]\<rparr>"

lemma file_rows_distinct: "distinct (map (\<lambda>r. (cr_id r, cr_chunk_index r)) (file_rows i L s))"
proof -
  have "map (\<lambda>r. (cr_id r, cr_chunk_index r)) (number_rows i k cs) = map (\<lambda>j. (i, int j)) [k..<k + length cs]" for k cs
    by (rule number_rows_keys)
  then show ?thesis by (simp add: file_rows_def distinct_map inj_on_def)
qed

lemma sample_db2_keys: "keys_ok sample_db2"
  by (simp add: keys_ok_def sample_db2_def sample_db_eq file_rows_distinct)


definition sample_row :: entry_row where "sample_row = entry_row_of initial_db sample_md"

lemma sample_db2_rows:
  "sample_row \<in> set (entries sample_db2)" "er_expiration_time sample_row = Some (formatTime NeverExpire)"
  "sample_session \<in> set (sessions sample_db2)"
  "sr_expiration_time sample_session = formatTime NeverExpire"
  "settings_table sample_db2 = settings_table initial_db"
  by (simp_all add: sample_db2_def sample_db_eq sample_row_def sample_session_def sample_entry_row)

end
