(* ===== verification/WebSamples.thy ===== *)
theory WebSamples
  imports Samples Requests
begin

text \<open>
  A concrete web server for the witnesses: requests without a session, and an upload by an
  administrator who has one.
\<close>

section \<open>A server to try things on\<close>

definition sample_web :: web where
  "sample_web =
     \<lparr>wb_env = sample_env, wb_wall = sample_now, wb_behind_proxy = False, wb_dev = False,
      wb_mime = (\<lambda>_. []), wb_catalogs = (\<lambda>_. None), wb_local = (\<lambda>t. t), wb_useragent = (\<lambda>_. ([], [])),
      wb_nonce_draw = (\<lambda>i. i), wb_draw = (\<lambda>i. i + 20), wb_ties = (\<lambda>i. i)\<rparr>"

definition sample_request :: request where
  "sample_request =
     \<lparr>rq_path = [], rq_vars = [], rq_query = [], rq_headers = [], rq_cookies = [], rq_host = ''p'',
      rq_uri = ''/'', rq_remote_addr = ''1.2.3.4:5'', rq_tls = True, rq_range = None, rq_body = OtherBody,
      rq_body_bytes = 0, rq_body_limit = None, rq_user = None, rq_localizer = None, rq_nonce = None\<rparr>"

definition sample_params :: "(unit, unit) server_params" where
  "sample_params =
     \<lparr>sp_IdentityProvider = \<lparr>idp_Redirect = (\<lambda>W w r cd. (w, ())), idp_Callback = (\<lambda>W w r cd. (Inl (), w, ()))\<rparr>,
      sp_lib = \<lparr>lib_pem_ok = (\<lambda>_. True), lib_NewProvider = (\<lambda>_ _ _. Some ()),
        lib_AuthCodeURL = (\<lambda>_ _ _ _ _. []), lib_Exchange = (\<lambda>_ _ _ _. None), lib_Verify = (\<lambda>_ _ _ _. None),
        lib_GenerateVerifier = []\<rparr>,
      sp_CheckSpace = (\<lambda>_ _. Inl ErrSizeOverflow), sp_pragma = (\<lambda>_. None), sp_build = None,
      sp_static_seed = [], sp_file_server = (\<lambda>w r. w)\<rparr>"

lemma sample_web_simps [simp]: "wb_env sample_web = sample_env" "wb_draw sample_web = (\<lambda>i. i + 20)"
  by (simp_all add: sample_web_def)

lemma sample_request_fresh [simp]: "fresh_request sample_request"
  by (simp add: fresh_request_def sample_request_def)

lemma no_cookie_no_user: "request_Cookie r sessionCookieName = None \<Longrightarrow> session_user E r d = None"
  by (simp add: session_user_def request_token_def)

lemma sample_request_user [simp]: "session_user E sample_request d = None"
  by (rule no_cookie_no_user) (simp add: request_Cookie_def sample_request_def)

text \<open>The middleware sets the user, the localizer and the nonce; nothing that reads the body looks at them.\<close>

lemma within_limit_context [simp]:
  "within_limit (r\<lparr>rq_user := u, rq_localizer := l, rq_nonce := n\<rparr>) = within_limit r"
  "within_limit (r\<lparr>rq_user := u, rq_localizer := l, rq_nonce := n, rq_body_limit := b\<rparr>) =
     within_limit (r\<lparr>rq_body_limit := b\<rparr>)"
  by (simp_all add: within_limit_def cong: option.case_cong)

lemma body_context:
  "ParseForm (MaxBytesReader (r\<lparr>rq_user := u, rq_localizer := l, rq_nonce := n\<rparr>) k) = ParseForm (MaxBytesReader r k)"
  "ParseMultipartForm (r\<lparr>rq_user := u, rq_localizer := l, rq_nonce := n\<rparr>) = ParseMultipartForm r"
  "query_Get (r\<lparr>rq_user := u, rq_localizer := l, rq_nonce := n\<rparr>) = query_Get r"
  "mux_Var (r\<lparr>rq_user := u, rq_localizer := l, rq_nonce := n\<rparr>) = mux_Var r"
  by (auto simp: ParseForm_def ParseMultipartForm_def MaxBytesReader_def query_Get_def mux_Var_def
      split: request_body.splits)

text \<open>An administrator with a session uploads five bytes in two pieces.\<close>

definition sample_upload :: request where
  "sample_upload = sample_request
     \<lparr>rq_cookies := [(sessionCookieName, SessionToken_String sample_token)],
      rq_query := [(''expiration'', formatTime NeverExpire)],
      rq_body := MultipartBody
        (Some \<lparr>fp_filename = ''hello.txt'', fp_content_type = ''text/plain'', fp_size = 5, fp_reader = sample_src\<rparr>) []\<rparr>"

definition sample_download :: request where
  "sample_download = sample_request\<lparr>rq_vars := [(''id'', ''vwxyzABCDE'')], rq_range := Some (RangeFrom 2)\<rparr>"

definition sample_user :: user where
  "sample_user =
     \<lparr>usr_ID = UserID 1, usr_Subject = OIDCSubject ''sub'', usr_Username = Username ''alice'',
      usr_Email = NoEmailAddress, usr_IsAdmin = True, usr_PreferredLanguage = NoLanguage,
      usr_Created = trunc_secs sample_now, usr_LastLogin = trunc_secs sample_now\<rparr>"

lemma sample_user_from_row: "userFromRow sample_user_row = Inr sample_user"
proof -
  have "NewOIDCSubject ''sub'' = Inr (OIDCSubject ''sub'')" "NewUsername ''alice'' = Inr (Username ''alice'')"
    by (simp_all add: NewOIDCSubject_def NewUsername_def text_check_def rune_count_def runes_ascii valid_utf8_ascii ascii_def)
  then show ?thesis by (simp add: userFromRow_def sample_user_row_def sample_user_def wrap_domain_def)
qed

lemma sample_upload_user [simp]: "session_user sample_env sample_upload sample_db2 = Some sample_user"
proof -
  have tok: "request_token sample_upload = Some sample_token"
    using NewSessionToken_accepted [of "\<lambda>i. i"]
    by (simp add: request_token_def request_Cookie_def sample_upload_def sample_token_def)
  have "session_live sample_env sample_session"
    using session_live_iff(1) [of sample_env NeverExpire sample_session]
    by (simp add: sample_db2_rows(4) sample_now_secs NeverExpire_secs)
  then have "GetSessionUser sample_env sample_db2 (SessionToken_Hash sample_token) = userFromRow sample_user_row"
    by (intro GetSessionUser_live [of _ _ sample_session])
      (use sample_db2_keys in \<open>simp_all add: sample_db2_rows\<close>, simp_all add: sample_session_def sample_user_row_def sample_db2_def)
  then show ?thesis by (simp add: session_user_def tok sample_user_from_row)
qed

lemma trunc_NeverExpire: "trunc_secs NeverExpire = NeverExpire"
proof -
  have "t_ns NeverExpire = unix_secs NeverExpire * second" "t_loc NeverExpire = UTC"
    by (simp_all add: NeverExpire_def utc_date_def unix_secs_def second_def)
  then show ?thesis by (simp add: trunc_secs_def)
qed

definition sample_up_md :: upload_metadata where
  "sample_up_md = sample_md\<lparr>um_ID := EntryID ''vwxyzABCDE'', um_OwnerID := UserID 1, um_Expires := NeverExpire\<rparr>"

lemma sample_new_id: "NewEntryID (\<lambda>i. i + 20) = EntryID ''vwxyzABCDE''"
  by (simp add: NewEntryID_def random_String_def EntryIDLength_def entryIDCharacters_def upt_rec)

lemma sample_server_now: "server_now sample_web = sample_now"
  by (simp add: server_now_def)

lemma sample_parse_expiration:
  "parse_Expiration (formatTime NeverExpire) sample_now = Inr (NeverExpire)"
proof -
  have "t_ns NeverExpire = 32503593600 * second" "t_ns sample_now = 1735689600 * second"
    using NeverExpire_secs sample_now_secs
    by (simp_all add: NeverExpire_def sample_now_def utc_date_def unix_secs_def second_def)
  then show ?thesis
    by (simp add: parse_Expiration_iff formatTime_def parse_format_utc trunc_NeverExpire time_sub_def duration_defs)
qed

lemma sample_upload_parts:
  "upload_from_request sample_web (sample_upload\<lparr>rq_user := u\<rparr>) (NeverExpire) [] (UserID 1) =
     Inr (sample_src, sample_up_md)"
proof -
  have parts: "FileSizeFromInt64 5 = Inr (FileSize 5)" "parse_FileNote [] = Inr None"
    by (simp_all add: FileSizeFromInt64_def FileSizeFromUint64_def parse_FileNote_iff)
  have name: "parse_Filename ''hello.txt'' = Inr ''hello.txt''" by code_simp
  show ?thesis
    by (simp add: upload_from_request_def ParseMultipartForm_def sample_upload_def sample_request_def within_limit_def
        and_then_def of_option_def parts name map_error_def parseContentType_def lookup_or_empty_def upload_passphrase_def
        ensure_def sample_new_id sample_server_now sample_up_md_def sample_md_def NoGuestLink_def)
qed

lemma sample_up_fresh: "\<forall>c \<in> set (entries_data sample_db2). cr_id c \<noteq> ''vwxyzABCDE''"
  by (auto simp: sample_db2_def sample_db_eq file_rows_def number_rows_def set_zip)

lemma sample_up_stored:
  "\<exists>d1. InsertEntry sample_env sample_db2 sample_src sample_up_md = (Inr (), d1)"
proof (rule InsertEntry_succeeds)
  show "\<forall>r \<in> set (entries_data sample_db2). cr_id r \<noteq> EntryID_value (um_ID sample_up_md)"
    using sample_up_fresh by (simp add: sample_up_md_def)
  show "EntryID_value (um_ID sample_up_md) \<notin> er_id ` set (entries sample_db2)"
    by (simp add: sample_db2_def sample_db_eq sample_up_md_def sample_entry_row)
  show "entry_ok sample_env sample_db2 (entry_row_of sample_db2 sample_up_md)"
    by (simp add: entry_ok_def entry_checks_def entry_row_of_def sample_up_md_def sample_md_def formatExpirationTime_def
        sample_check_time sample_now_secs NeverExpire_secs downloadPassphraseString_def DownloadPassphrase_Empty_def
        Passphrase_Empty_def NoDownloadPassphrase_def inserted_owner_def NoGuestLink_def owner_column_def UserID_Empty_def
        sample_db2_def sample_user_row_def)
qed simp_all

end
