(* ===== verification/StoreProperties.thy ===== *)
theory StoreProperties
  imports Samples StoreRefs
begin

text \<open>
  The properties of the store: what is written comes back, failures leave the tables as they
  were, purging deletes exactly what is due, and the invariant of every reachable database.
\<close>

section \<open>Files\<close>

text \<open>C5: An uploaded file comes back byte for byte. After a successful insertion under an ID without
  chunks, whatever pieces the source delivered the content in and whatever the chunk size, a reader
  opened on the entry and moved to any position returns, for a request of any number of bytes, the
  bytes of the content at that position, reports the end exactly when fewer are left, and does
  return.\<close>

theorem inserted_file_reads_back:
  assumes "InsertEntry E d src md = (Inr u, d1)" and "0 < st_chunkSize E"
    and "\<forall>r \<in> set (entries_data d). cr_id r \<noteq> EntryID_value (um_ID md)"
    and "concat (src_pieces src) = s" "s \<noteq> []" and "reads_ok E'" and "n \<le> length s"
  shows "\<exists>fr fr1. ReadEntryFile E' d1 (um_ID md) = Inr fr \<and>
    reader_Read E' d1 (snd (reader_Seek fr (int n) SeekStart)) k =
      Some (take k (drop n s), if length s - n < k then Some EOF else None, fr1)"
proof -
  have st: "stored d1 (EntryID_value (um_ID md)) (st_chunkSize E) s"
    using stored_inserted [OF assms(1,2,3)] assms(4,5) by simp
  obtain fr where fr: "NewReader E' d1 (EntryID_value (um_ID md)) = Inr fr"
    "rinv (EntryID_value (um_ID md)) (read_chunk (st_chunkSize E) s) s 0 fr"
    using NewReader_stored [OF st assms(6)] by blast
  have "rinv (EntryID_value (um_ID md)) (read_chunk (st_chunkSize E) s) s n
      (snd (reader_Seek fr (int n) SeekStart))"
    using reader_Seek_rinv(1) [OF fr(2) assms(7)] by blast
  from reader_Read_stored [OF st assms(6) this] fr(1) show ?thesis
    unfolding ReadEntryFile_def by blast
qed

theorem inserted_file_reads_back_witness:
  "\<exists>fr fr1. ReadEntryFile sample_env sample_db sample_id = Inr fr \<and>
     reader_Read sample_env sample_db (snd (reader_Seek fr (int 3) SeekStart)) 9 =
       Some (''lo'', Some EOF, fr1)"
  using inserted_file_reads_back [OF sample_inserted _ _ refl _ sample_env_simps(9), of 3 9]
  by simp

text \<open>C4: The store keeps what it promises about files. Seen as a map from the IDs of the files to
  their contents, every operation on a database that operations reach, however many rows it
  touches and wherever a statement fails, is a step of the specification: an insertion under a new
  ID that reports success has put the whole content under it, a deletion has removed that file, a
  purge has removed exactly the files that have expired, one that reports failure has changed no file
  but for a purge that fails late, and no other operation changes a file.\<close>

theorem store_refines_file_map:
  assumes "reachable_db d" and "fresh_call c d" and "0 < st_chunkSize E"
  shows "file_step (call_succeeded E d c) (file_op_of E d c) (files d) (files (run_call E c d))"
  using run_call_files [OF _ assms(2,3)] reachable_db_ok [OF assms(1)] by (simp add: db_ok_def)

theorem store_refines_file_map_witness:
  "file_step True (Put ''abcdefghij'' ''hello'') (files initial_db) (files sample_db)"
proof -
  have "fresh_call (CallInsertEntry sample_src sample_md) initial_db" "0 < st_chunkSize sample_env" by simp_all
  from store_refines_file_map [OF reachable_db.initial this] sample_inserted show ?thesis
    by (simp add: run_call_def)
qed

text \<open>C23: A failed insertion, wherever it fails (in the source, in a statement, in a constraint),
  changes no table but the chunks, only appends chunks of the new ID, and the next successful purge
  removes those when no entry has that ID.\<close>

theorem failed_insert_leaves_only_orphans:
  assumes "InsertEntry E d src md = (Inl e, d1)" and "EntryID_value (um_ID md) \<notin> er_id ` set (entries d)"
    and "Purge E' d1 = (Inr u, d2)"
  shows "(\<exists>rs. d1 = d\<lparr>entries_data := entries_data d @ rs\<rparr> \<and> (\<forall>c \<in> set rs. cr_id c = EntryID_value (um_ID md))) \<and>
    (\<forall>c \<in> set (entries_data d2). cr_id c \<noteq> EntryID_value (um_ID md))"
proof -
  obtain rs where rs: "d1 = d\<lparr>entries_data := entries_data d @ rs\<rparr>"
    "\<forall>r \<in> set rs. cr_id r = EntryID_value (um_ID md)"
    using InsertEntry_err [OF assms(1)] by blast
  obtain s where "d2 = purged E' s d1" using Purge_ok [OF assms(3)] .
  then have "\<forall>c \<in> set (entries_data d2). cr_id c \<in> er_id ` set (entries d)"
    by (auto simp: purged_def rs(1))
  then have "\<forall>c \<in> set (entries_data d2). cr_id c \<noteq> EntryID_value (um_ID md)" using assms(2) by metis
  with rs show ?thesis by blast
qed

theorem failed_insert_leaves_only_orphans_witness:
  "\<exists>e d1 d2. InsertEntry sample_env initial_db (sample_src\<lparr>src_fails := True\<rparr>) sample_md = (Inl e, d1) \<and>
     Purge sample_env d1 = (Inr (), d2) \<and> (\<forall>c \<in> set (entries_data d2). cr_id c \<noteq> ''abcdefghij'')"
proof -
  obtain res d1 where R: "InsertEntry sample_env initial_db (sample_src\<lparr>src_fails := True\<rparr>) sample_md = (res, d1)"
    by (metis surj_pair)
  then obtain e where e: "res = Inl e"
    using InsertEntry_ok(1) [of sample_env initial_db "sample_src\<lparr>src_fails := True\<rparr>" sample_md _ d1]
    by (cases res) auto
  have "settings_table d1 = settings_table initial_db"
    using InsertEntry_err [OF R [unfolded e]] by auto
  then obtain d2 where "Purge sample_env d1 = (Inr (), d2)" using sample_purge by blast
  with failed_insert_leaves_only_orphans [OF R [unfolded e] _ this] R e show ?thesis by auto
qed

text \<open>C24: Deleting an entry is atomic: it either fails in the driver and changes nothing, or the entry,
  its chunks and its download records are gone, looking it up finds nothing, and no other row of
  any table has changed.\<close>

theorem delete_entry_is_atomic:
  assumes "DeleteEntry E d i = (res, d1)"
  shows "(res = Inl DriverError \<and> d1 = d) \<or>
    (res = Inr () \<and>
     d1 = d\<lparr>downloads := filter (\<lambda>r. dl_entry_id r \<noteq> EntryID_value i) (downloads d),
            entries_data := filter (\<lambda>r. cr_id r \<noteq> EntryID_value i) (entries_data d),
            entries := filter (\<lambda>r. er_id r \<noteq> EntryID_value i) (entries d)\<rparr> \<and>
     (\<forall>E'. \<not> sq_fault E' OpGetEntryMetadata 0 \<longrightarrow> GetEntryMetadata E' d1 i = Inl (EntryNotFoundError i)))"
proof (cases res)
  case (Inl e)
  with assms have "DeleteEntry E d i = (Inl e, d1)" by simp
  from DeleteEntry_atomic [OF this] Inl show ?thesis by simp
next
  case (Inr u)
  with assms have ok: "DeleteEntry E d i = (Inr u, d1)" by simp
  show ?thesis
    by (intro disjI2 conjI)
      (use Inr DeleteEntry_ok [OF ok] GetEntryMetadata_deleted [OF ok] in auto)
qed

theorem delete_entry_is_atomic_witness:
  "\<exists>d1. DeleteEntry sample_env sample_db sample_id = (Inr (), d1) \<and>
     GetEntryMetadata sample_env d1 sample_id = Inl (EntryNotFoundError sample_id)"
proof -
  obtain res d1 where R: "DeleteEntry sample_env sample_db sample_id = (res, d1)" by (metis surj_pair)
  have "res \<noteq> Inl DriverError" using R by (auto simp: DeleteEntry_def Let_def)
  with delete_entry_is_atomic [OF R] R show ?thesis by auto
qed

section \<open>Purging\<close>

text \<open>C8: A successful purge deletes exactly what is due. Of the entries of a database with distinct
  IDs it keeps those whose expiration, in whole seconds, is not before now; it keeps the chunks of
  the entries that stay, and no other chunk; and it keeps a session exactly while it is live.\<close>

theorem purge_deletes_exactly_the_expired:
  assumes "Purge E d = (Inr u, d1)" and "keys_ok d" and "datetime_law E" "text_range (st_now E)"
    and "r \<in> set (entries d)" "er_expiration_time r = Some (formatTime et)" "text_range et"
    and "s \<in> set (sessions d)" "sr_expiration_time s = formatTime st" "text_range st"
  shows "(r \<in> set (entries d1) \<longleftrightarrow> unix_secs (st_now E) \<le> unix_secs et) \<and>
    (c \<in> set (entries_data d1) \<longleftrightarrow> c \<in> set (entries_data d) \<and> cr_id c \<in> er_id ` set (entries d1)) \<and>
    (s \<in> set (sessions d1) \<longleftrightarrow> unix_secs (st_now E) < unix_secs st)"
proof (intro conjI)
  obtain t where d1: "d1 = purged E t d" using Purge_ok [OF assms(1)] .
  have e: "entries d1 = filter (\<lambda>r. \<not> entry_expired E r) (entries d)" by (simp add: d1 purged_def)
  show "r \<in> set (entries d1) \<longleftrightarrow> unix_secs (st_now E) \<le> unix_secs et"
    using assms(5) entry_expired_iff [OF assms(4,7,6)] by (simp add: e not_less)
  have "distinct (map er_id (entries d))" using assms(2) by (simp add: keys_ok_def)
  note live = expired_ids_iff [OF this]
  show "c \<in> set (entries_data d1) \<longleftrightarrow> c \<in> set (entries_data d) \<and> cr_id c \<in> er_id ` set (entries d1)"
    using live by (auto simp: d1 purged_def)
  show "s \<in> set (sessions d1) \<longleftrightarrow> unix_secs (st_now E) < unix_secs st"
    using assms(8) session_live_iff(2) [OF assms(3,4,10,9)] by (simp add: d1 purged_def not_le)
qed

theorem purge_deletes_exactly_the_expired_witness:
  "\<exists>d1. Purge sample_env sample_db2 = (Inr (), d1) \<and> sample_row \<in> set (entries d1)"
proof -
  obtain d1 where P: "Purge sample_env sample_db2 = (Inr (), d1)"
    using sample_purge [OF sample_db2_rows(5)] by blast
  have now: "text_range (st_now sample_env)" by simp
  note purge_deletes_exactly_the_expired [OF P sample_db2_keys sample_datetime_law now sample_db2_rows(1,2)
      NeverExpire_range sample_db2_rows(3,4) NeverExpire_range]
  with P show ?thesis by (auto simp: sample_now_secs NeverExpire_secs)
qed

section \<open>Reachable databases\<close>

text \<open>C22: Nothing refers to what is not there. Whatever operations run, from the database the migrations
  leave, on connections that enforce foreign keys, and wherever statements fail: every owner of an
  entry or a guest link is a user, every session belongs to a user, and every row of the download
  history belongs to an entry.\<close>

theorem references_never_dangle:
  assumes "\<forall>(E, c) \<in> set calls. sq_fk E \<and> 0 < st_chunkSize E"
    and "d = foldl (\<lambda>d (E, c). run_call E c d) initial_db calls"
  shows "(\<forall>e \<in> set (entries d). \<forall>u. er_owner_user_id e = Some u \<longrightarrow> u \<in> ur_id ` set (users d)) \<and>
    (\<forall>g \<in> set (guest_links d). \<forall>u. glr_owner_user_id g = Some u \<longrightarrow> u \<in> ur_id ` set (users d)) \<and>
    (\<forall>s \<in> set (sessions d). sr_user_id s \<in> ur_id ` set (users d)) \<and>
    (\<forall>x \<in> set (downloads d). dl_entry_id x \<in> er_id ` set (entries d))"
proof -
  have "refs_ok (foldl (\<lambda>d (E, c). run_call E c d) d0 calls)" if "refs_ok d0" for d0
    using that assms(1) by (induction calls arbitrary: d0) (auto simp: run_call_refs)
  with refs_initial have "refs_ok d" by (simp add: assms(2))
  then show ?thesis by (auto simp: refs_ok_def owner_ok_def)
qed

definition sample_download_record :: download_record where
  "sample_download_record = \<lparr>dr_Time = sample_now, dr_ClientIP = ''192.0.2.1'', dr_UserAgent = []\<rparr>"

theorem references_never_dangle_witness:
  "\<exists>d x. d = run_call sample_env (CallInsertEntryDownload sample_id sample_download_record) sample_db \<and>
     x \<in> set (downloads d) \<and> dl_entry_id x \<in> er_id ` set (entries d)"
proof -
  let ?calls = "[(sample_env, CallInsertEntry sample_src sample_md),
      (sample_env, CallInsertEntryDownload sample_id sample_download_record)]"
  define d where "d = foldl (\<lambda>d (E, c). run_call E c d) initial_db ?calls"
  have d: "d = run_call sample_env (CallInsertEntryDownload sample_id sample_download_record) sample_db"
    by (simp add: d_def run_call_def sample_db_def)
  have "download_ok sample_env sample_db (download_row_of sample_id sample_download_record)"
    by (simp add: download_ok_def download_row_of_def sample_download_record_def sample_check_time sample_now_secs
        sample_db_eq sample_entry_row)
  then have "download_row_of sample_id sample_download_record \<in> set (downloads d)"
    by (simp add: d run_call_def InsertEntryDownload_def)
  with references_never_dangle [of ?calls d] d_def d show ?thesis by auto
qed

end
