(* ===== verification/RecordProperties.thy ===== *)
theory RecordProperties
  imports Samples
begin

text \<open>
  The properties of the records the store keeps: chunks, metadata, guest links, settings, users,
  and what the collector leaves behind.
\<close>

section \<open>Chunks\<close>

lemma number_rows_upt:
  "number_rows i 0 cs = map (\<lambda>j. \<lparr>cr_id = i, cr_chunk_index = int j, cr_chunk = cs ! j\<rparr>) [0..<length cs]"
  by (rule nth_equalityI) (simp_all add: number_rows_def)

lemma file_rows_slices:
  assumes "0 < L"
  shows "file_rows i L s =
    map (\<lambda>j. \<lparr>cr_id = i, cr_chunk_index = int j, cr_chunk = take L (drop (j * L) s)\<rparr>)
      [0..<(length s + L - 1) div L]"
proof -
  have "split_chunks L s ! j = take L (drop (j * L) s)" if "j < (length s + L - 1) div L" for j
  proof -
    have "j + 1 \<le> (length s + L - 1) div L" using that by simp
    then have "(j + 1) * L \<le> length s + L - 1" using assms by (simp add: less_eq_div_iff_mult_less_eq)
    then have "j * L < length s" using assms by simp
    then show ?thesis using nth_split_chunks [OF assms] by blast
  qed
  then show ?thesis
    using length_split_chunks [OF assms, of s] by (simp add: file_rows_def number_rows_upt)
qed

text \<open>C25: The chunk table is the file cut into slices. A successful insertion, however the source
  cuts the content, appends to the chunks exactly the consecutive slices of the chunk size (the last
  one the rest), numbered from 0 under the new ID, and one entry row, and changes nothing else.\<close>

theorem upload_is_cut_into_chunks:
  assumes "InsertEntry E d src md = (Inr u, d1)" and "0 < st_chunkSize E" and "concat (src_pieces src) = s"
  shows "d1 = d\<lparr>entries_data := entries_data d @
      map (\<lambda>j. \<lparr>cr_id = EntryID_value (um_ID md), cr_chunk_index = int j,
                cr_chunk = take (st_chunkSize E) (drop (j * st_chunkSize E) s)\<rparr>)
        [0..<(length s + st_chunkSize E - 1) div st_chunkSize E],
    entries := entries d @ [entry_row_of d md]\<rparr>"
  using InsertEntry_ok(2) [OF assms(1,2)] assms(3) by (simp add: file_rows_slices [OF assms(2)])

theorem upload_is_cut_into_chunks_witness:
  "map cr_chunk (entries_data sample_db) = [''hell'', ''o'']"
proof -
  have "0 < st_chunkSize sample_env" by simp
  note cut = upload_is_cut_into_chunks [OF sample_inserted this refl]
  show ?thesis unfolding cut by (simp add: upt_rec)
qed

section \<open>Metadata\<close>

text \<open>C26: Metadata comes back as it was stored. After an insertion, looking the entry up gives the
  metadata with its times cut to whole seconds, the number of bytes that were written as its size
  (not the one the client announced), no downloads, the guest link as it is now, and as its owner the
  owner of the guest link when it came through one.\<close>

theorem entry_metadata_round_trip:
  assumes "InsertEntry E d src md = (Inr u, d1)" and "0 < st_chunkSize E"
    and "\<forall>r \<in> set (entries_data d). cr_id r \<noteq> EntryID_value (um_ID md)"
    and "concat (src_pieces src) = s" "s \<noteq> []" "length s < 2 ^ 64" and "storable_entry md"
    and "\<not> sq_fault E' OpGetEntryMetadata 0"
    and "entry_guest_link E' d1 (entry_row_of d md) = Inr gl"
    and "ownerFromColumns (inserted_owner d md) (owner_username d (inserted_owner d md)) = Inr (owner, name)"
  shows "GetEntryMetadata E' d1 (um_ID md) =
    Inr (md\<lparr>um_OwnerID := owner, um_OwnerUsername := name, um_Uploaded := trunc_secs (um_Uploaded md),
            um_Expires := trunc_secs (um_Expires md), um_Size := FileSize (of_nat (length s)),
            um_GuestLink := gl, um_DownloadCount := 0\<rparr>)"
  using GetEntryMetadata_inserted [OF assms(1,2,3) _ _ assms(7,8,9,10)] assms(4,5,6)
  by (simp add: as_stored_entry_def)

theorem entry_metadata_round_trip_witness:
  "\<exists>md. GetEntryMetadata sample_env sample_db sample_id = Inr md \<and> um_Size md = FileSize 5 \<and>
     um_Filename md = ''hello.txt'' \<and> um_OwnerID md = NoOwner"
proof -
  have gl: "entry_guest_link sample_env sample_db (entry_row_of initial_db sample_md) = Inr NoGuestLink"
    by (simp add: sample_entry_row entry_guest_link_def)
  have own: "ownerFromColumns (inserted_owner initial_db sample_md)
      (owner_username initial_db (inserted_owner initial_db sample_md)) = Inr (NoOwner, Username [])"
    by (simp add: inserted_owner_def sample_md_def NoGuestLink_def owner_column_def UserID_Empty_def
        ownerFromColumns_def NoOwner_def)
  have "GetEntryMetadata sample_env sample_db (um_ID sample_md) =
      Inr (sample_md\<lparr>um_OwnerID := NoOwner, um_OwnerUsername := Username [],
        um_Uploaded := trunc_secs (um_Uploaded sample_md), um_Expires := trunc_secs (um_Expires sample_md),
        um_Size := FileSize (of_nat (length ''hello'')), um_GuestLink := NoGuestLink, um_DownloadCount := 0\<rparr>)"
    by (rule entry_metadata_round_trip [OF sample_inserted _ _ _ _ _ sample_storable _ gl own]) simp_all
  then show ?thesis by (simp add: sample_md_def)
qed

section \<open>Guest links\<close>

text \<open>C27: A stored guest link reads back with its limits, its owner and its switch as they were, its
  times in whole seconds, and the number of files that came through it counted from the entries; once
  deleted it is not found, the files that came through it stay and no longer refer to it.\<close>

theorem guest_link_round_trip:
  assumes "storable_guest_link gl" and "InsertGuestLink E d gl = (Inr u, d1)"
    and "\<not> sq_fault E' OpGetGuestLink 0" and "DeleteGuestLink E d1 (gl_ID gl) = (Inr v, d2)"
  shows "GetGuestLink E' d1 (gl_ID gl) =
      Inr (gl\<lparr>gl_Created := trunc_secs (gl_Created gl), gl_UrlExpires := trunc_secs (gl_UrlExpires gl),
              gl_FilesUploaded := entry_count d (gl_ID gl)\<rparr>) \<and>
    GetGuestLink E' d2 (gl_ID gl) = Inl (GuestLinkNotFoundError []) \<and>
    map er_id (entries d2) = map er_id (entries d1) \<and>
    (\<forall>r \<in> set (entries d2). er_guest_link_id r \<noteq> Some (gl_ID gl))"
  using GetGuestLink_inserted [OF assms(1-3)] GetGuestLink_deleted [OF assms(4,3)]
  by (auto simp: as_stored_guest_link_def)

definition sample_link :: guest_link where
  "sample_link = NoGuestLink\<lparr>gl_ID := ''abcdefghijkmnopq'',
     gl_Created := sample_now, gl_UrlExpires := NeverExpire, gl_MaxFileLifetime := NewFileLifetimeInDays 7,
     gl_MaxFileUploads := Some 1\<rparr>"

lemma sample_link_storable [simp]: "storable_guest_link sample_link"
  by (simp add: storable_guest_link_def sample_link_def NewFileLifetimeInDays_def duration_defs)

lemma sample_link_row:
  "guest_link_row_of sample_link =
     \<lparr>glr_id = ''abcdefghijkmnopq'', glr_label = [], glr_is_disabled = False, glr_max_file_bytes = None,
      glr_max_file_uploads = Some 1, glr_creation_time = formatTime sample_now,
      glr_url_expiration_time = Some (formatTime NeverExpire),
      glr_file_expiration_time = glr_file_expiration_time (guest_link_row_of sample_link),
      glr_owner_user_id = None\<rparr>"
  by (simp add: guest_link_row_of_def sample_link_def NoGuestLink_def formatExpirationTime_def owner_column_def
      UserID_Empty_def NoOwner_def)

lemma sample_link_ok: "guest_link_ok sample_env initial_db (guest_link_row_of sample_link)"
  unfolding guest_link_ok_def
  by (subst sample_link_row, simp add: sample_check_time sample_now_secs NeverExpire_secs rune_count_def)+

lemma sample_link_inserted: "\<exists>d1. InsertGuestLink sample_env initial_db sample_link = (Inr (), d1)"
  using sample_link_ok arg_cong [OF sample_link_row, of glr_max_file_bytes] by (simp add: InsertGuestLink_def Let_def)

theorem guest_link_round_trip_witness:
  "\<exists>d1 gl. InsertGuestLink sample_env initial_db sample_link = (Inr (), d1) \<and>
     GetGuestLink sample_env d1 ''abcdefghijkmnopq'' = Inr gl \<and> gl_MaxFileUploads gl = Some 1"
proof -
  obtain d1 where I: "InsertGuestLink sample_env initial_db sample_link = (Inr (), d1)"
    using sample_link_inserted by blast
  obtain res d2 where D: "DeleteGuestLink sample_env d1 (gl_ID sample_link) = (res, d2)" by (metis surj_pair)
  have "res = Inr ()" using D by (cases res) (auto simp: DeleteGuestLink_def Let_def)
  with guest_link_round_trip [OF sample_link_storable I _ D [unfolded this]] I show ?thesis
    by (simp add: sample_link_def)
qed

section \<open>Settings\<close>

text \<open>C32: Settings are read back as they were saved, for every value that the validating constructors
  produce: any default lifetime in days, any retention, any site language, and any cap up to 32767
  days or none. A cap above that, other than the infinite one, wraps around to a negative number in
  the column and is refused by the database, with nothing changed.\<close>

theorem settings_round_trip_and_cap:
  assumes "settings_table d \<noteq> None" and "\<not> sq_fault E OpUpdateSettings 0" and "\<not> sq_fault E' OpReadSettings 0"
  shows "(storable_settings st \<longrightarrow> (\<exists>d1. UpdateSettings E d st = (Inr (), d1) \<and> ReadSettings E' d1 = Inr st)) \<and>
    (set_MaxNonAdminFileLifetime st = NewFileLifetimeInDays n \<and> 32767 < n \<and> n \<noteq> 36500 \<longrightarrow>
       UpdateSettings E d st = (Inl ConstraintError, d))"
  using ReadSettings_updated [OF _ assms] UpdateSettings_cap_wraps [OF _ _ _ assms(1,2)] by blast

definition sample_settings :: settings where
  "sample_settings =
     \<lparr>set_DefaultFileLifetime = NewFileLifetimeInDays 7, set_DownloadHistoryRetention = Retention 30,
      set_DefaultLanguage = SiteDefaultLanguage ''zh-TW'', set_MaxNonAdminFileLifetime = NewFileLifetimeInDays 14\<rparr>"

lemma sample_settings_storable: "storable_settings sample_settings"
proof -
  have "NewDownloadHistoryRetentionInDays 30 = Inr (Retention 30)"
    by (simp add: NewDownloadHistoryRetentionInDays_def)
  moreover have "NewSiteDefaultLanguage ''zh-TW'' = Inr (SiteDefaultLanguage ''zh-TW'')"
    by (simp add: NewSiteDefaultLanguage_iff)
  moreover have "(1 :: u16) \<le> 14 \<and> (14 :: u16) \<le> 32767" by (simp add: word_le_def)
  ultimately show ?thesis unfolding storable_settings_def sample_settings_def by auto
qed

theorem settings_round_trip_and_cap_witness:
  "\<exists>d1. UpdateSettings sample_env initial_db sample_settings = (Inr (), d1) \<and>
     ReadSettings sample_env d1 = Inr sample_settings"
proof -
  have "settings_table initial_db \<noteq> None" by (simp add: initial_db_def)
  from settings_round_trip_and_cap [OF this, of sample_env sample_env sample_settings] sample_settings_storable
  show ?thesis by simp
qed

text \<open>Connecting an identity provider is done once. Saving settings that pass their validation
  makes them the ones every login reads, ends the need for a setup, and invalidates the setup token:
  no token is accepted any more.\<close>

lemma setup_is_done_once:
  assumes "UpdateOIDCSettings E d s = (Inr u, d1)" and "oidc_table d \<noteq> None" and "valid_oidc_settings E s"
    and "env_url_parse E' = env_url_parse E" and "no_faults E' OpReadOIDCSettings" "no_faults E' OpNeedsSetup"
    and "no_faults E' OpValidateSetupToken"
  shows "ReadOIDCSettings E' d1 = Inr s \<and> NeedsSetup E' d1 = Inr False \<and>
    ValidateSetupToken E' d1 token = Inr False"
proof -
  have "oidc_from_row E' (oidc_row_of s) = oidc_from_row E (oidc_row_of s)"
    unfolding oidc_from_row_def assms(4) by (rule refl)
  then have "ReadOIDCSettings E' d1 = Inr s"
    using UpdateOIDCSettings_ok [OF assms(1,2)] oidc_round_trip [OF assms(3)] assms(5)
    by (simp add: ReadOIDCSettings_def)
  with setup_once [OF assms(1,2), of E'] assms(6,7) show ?thesis by (simp add: no_faults_def)
qed

definition sample_oidc :: oidc_settings where
  "sample_oidc =
     \<lparr>os_IssuerURL = OIDCIssuerURL ''https://idp'', os_ExpectedIssuer = [], os_ClientID = OIDCClientID ''c'',
      os_ClientSecret = OIDCClientSecret ''s'', os_RedirectURL = OIDCRedirectURL ''https://p/oidc/callback'',
      os_CACertPEM = []\<rparr>"

lemma sample_oidc_valid: "valid_oidc_settings sample_env sample_oidc"
proof -
  have "NewOIDCIssuerURL (env_url_parse sample_env) ''https://idp'' = Inr (OIDCIssuerURL ''https://idp'')"
    by (simp add: NewOIDCIssuerURL_def newOIDCURL_def sample_env_def has_prefix_def)
  moreover have "NewOIDCRedirectURL (env_url_parse sample_env) ''https://p/oidc/callback'' =
      Inr (OIDCRedirectURL ''https://p/oidc/callback'')"
    by (simp add: NewOIDCRedirectURL_def newOIDCURL_def sample_env_def has_prefix_def has_suffix_def oidcCallbackPath_def)
  moreover have "NewOIDCClientID ''c'' = Inr (OIDCClientID ''c'')" "NewOIDCClientSecret ''s'' = Inr (OIDCClientSecret ''s'')"
    by (simp_all add: NewOIDCClientID_def NewOIDCClientSecret_def)
  ultimately show ?thesis unfolding valid_oidc_settings_def sample_oidc_def by auto
qed

section \<open>Users\<close>

text \<open>C19: Revoking administrator rights never takes the last ones away. When no statement fails and
  keys are distinct: an unknown user is reported, a user without the rights is left as is, the only
  administrator keeps them and an error says so, and any other administrator loses exactly that bit.\<close>

theorem revoke_admin_spec:
  assumes "keys_ok d" and "no_faults E OpRevokeAdmin"
  shows "RevokeAdmin E d (UserID i) =
    (if i \<notin> ur_id ` set (users d) then (Inl (UserNotFoundError (UserID i)), d)
     else if \<not> (\<exists>u \<in> set (users d). ur_id u = i \<and> ur_is_admin u) then (Inr (), d)
     else if \<forall>u \<in> set (users d). ur_is_admin u \<longrightarrow> ur_id u = i then (Inl LastAdminError, d)
     else (Inr (), d\<lparr>users := map (\<lambda>u. if ur_id u = i then u\<lparr>ur_is_admin := False\<rparr> else u) (users d)\<rparr>))"
proof -
  have nf: "\<not> sq_fault E OpRevokeAdmin k" for k using assms(2) by (simp add: no_faults_def)
  have dist: "distinct (map ur_id (users d))" using assms(1) by (simp add: keys_ok_def)
  show ?thesis
  proof (cases "\<exists>u \<in> set (users d). ur_id u = i \<and> ur_is_admin u")
    case False
    then show ?thesis
      using nf by (auto simp: RevokeAdmin_def list_ex_iff split: option.splits dest!: first_row_filterD)
        (auto simp: filter_empty_conv image_iff)
  next
    case True
    then obtain u where u: "u \<in> set (users d)" "ur_id u = i" "ur_is_admin u" by blast
    have rows: "filter (\<lambda>r. ur_id r = i) (users d) = [u]"
      using first_row_filter_distinct [OF dist u(1)] u(2) by simp
    have adm: "distinct (filter ur_is_admin (users d))" "set (filter ur_is_admin (users d)) \<subseteq> set (users d)"
      using dist by (auto simp: distinct_map)
    have cnt: "1 < admin_count d \<longleftrightarrow> \<not> (\<forall>v \<in> set (users d). ur_is_admin v \<longrightarrow> ur_id v = i)"
    proof
      assume c: "1 < admin_count d"
      show "\<not> (\<forall>v \<in> set (users d). ur_is_admin v \<longrightarrow> ur_id v = i)"
      proof
        assume "\<forall>v \<in> set (users d). ur_is_admin v \<longrightarrow> ur_id v = i"
        then have "set (filter ur_is_admin (users d)) \<subseteq> {u}"
          using dist u by (auto simp: distinct_map dest: inj_onD)
        then have "card (set (filter ur_is_admin (users d))) \<le> 1" by (metis card_mono card.empty card_insert_disjoint empty_iff finite.emptyI finite_insert One_nat_def)
        with c distinct_card [OF adm(1)] show False by (simp add: admin_count_def del: set_filter)
      qed
    next
      assume "\<not> (\<forall>v \<in> set (users d). ur_is_admin v \<longrightarrow> ur_id v = i)"
      then obtain v where v: "v \<in> set (users d)" "ur_is_admin v" "ur_id v \<noteq> i" by blast
      then have "u \<noteq> v" "{u, v} \<subseteq> set (filter ur_is_admin (users d))" using u by auto
      then have "card {u, v} = 2" "{u, v} \<subseteq> set (filter ur_is_admin (users d))" by simp_all
      then have "2 \<le> card (set (filter ur_is_admin (users d)))" by (metis List.finite_set card_mono)
      with distinct_card [OF adm(1)] show "1 < admin_count d" by (simp add: admin_count_def del: set_filter)
    qed
    have "i \<in> ur_id ` set (users d)" using u by blast
    moreover have "list_ex (\<lambda>r. ur_id r = i \<and> ur_is_admin r) (users d)" using u by (auto simp: list_ex_iff)
    ultimately show ?thesis
      using True u nf rows cnt by (auto simp: RevokeAdmin_def set_admin_def)
  qed
qed

theorem revoke_admin_spec_witness:
  "RevokeAdmin sample_env sample_db2 (UserID 1) = (Inl LastAdminError, sample_db2) \<and>
   RevokeAdmin sample_env sample_db2 (UserID 7) = (Inl (UserNotFoundError (UserID 7)), sample_db2)"
  using revoke_admin_spec [OF sample_db2_keys, of sample_env 1] revoke_admin_spec [OF sample_db2_keys, of sample_env 7]
  by (simp add: sample_db2_def sample_user_row_def)


definition sample_identity :: user_identity where
  "sample_identity = \<lparr>ui_Subject = OIDCSubject ''sub'', ui_Username = Username ''alice'', ui_Email = NoEmailAddress\<rparr>"

lemma sample_user_texts: "NewOIDCSubject ''sub'' = Inr (OIDCSubject ''sub'')" "NewUsername ''alice'' = Inr (Username ''alice'')"
  by (simp_all add: NewOIDCSubject_def NewUsername_def text_check_def rune_count_ascii runes_ascii valid_utf8_ascii ascii_def)

lemma sample_first_user:
  assumes "users d = []"
  shows "\<exists>u d1. RecordUserLogin sample_env d sample_identity = (Inr u, d1) \<and> usr_ID u = UserID 1 \<and>
     users d1 = [sample_user_row] \<and> sessions d1 = sessions d"
proof -
  have row: "new_user_row sample_env sample_identity 1 True = sample_user_row"
    by (simp add: new_user_row_def sample_identity_def sample_user_row_def NoEmailAddress_def emailToNullString_def
        EmailAddress_Empty_def)
  have ok: "user_ok sample_env sample_user_row"
    by (simp add: user_ok_def check_length_def sample_user_row_def sample_check_time sample_now_secs rune_count_ascii ascii_def)
  have "\<exists>d1. insert_user sample_env d sample_identity = Inr (1, d1) \<and> users d1 = [sample_user_row] \<and> sessions d1 = sessions d"
    using assms by (simp add: insert_user_def isFirstUser_def stmt_def next_user_id_def row ok claimOwnerlessRows_def Let_def)
  moreover have "\<exists>u. userFromRow sample_user_row = Inr u \<and> usr_ID u = UserID 1"
    by (simp add: userFromRow_def sample_user_row_def sample_user_texts)
  moreover have "ur_id sample_user_row = 1" by (simp add: sample_user_row_def)
  ultimately show ?thesis using assms by (auto simp: RecordUserLogin_def transaction_def stmt_def)
qed


section \<open>Formats\<close>

text \<open>C33: Times survive the database, and their text compares as they do. Any instant of the years 0 to
  9999, in whatever zone, is read back as the same second in UTC, and the byte order of two stored
  timestamps, which the queries compare by, is the order of the instants. A lifetime of at least a day
  is read back, to the nanosecond, from the duration text it is stored as, and counting its days, which
  the code does in floating point, is exact for every number of days that fits 16 bits.\<close>

theorem times_round_trip_in_order:
  assumes "text_range t" and "text_range u" and "24 * hour \<le> lifetime_d lt" "lifetime_d lt \<le> max_int64"
  shows "parseDatetime (formatTime t) = Inr (trunc_secs t) \<and> unix_secs (trunc_secs t) = unix_secs t \<and>
    (text_less (formatTime t) (formatTime u) \<longleftrightarrow> unix_secs t < unix_secs u) \<and>
    (formatTime t = formatTime u \<longleftrightarrow> unix_secs t = unix_secs u) \<and>
    parseFileLifetime (formatFileLifetime lt) = Inr lt \<and> FileLifetime_Days (NewFileLifetimeInDays n) = n"
proof -
  have secs: "unix_secs (trunc_secs t) = unix_secs t" by (simp add: trunc_secs_def unix_secs_def second_def)
  have "formatTime t = formatTime u \<Longrightarrow> trunc_secs t = trunc_secs u"
    using parseDatetime_formatTime assms(1,2) by (metis sum.inject(2))
  then have "formatTime t = formatTime u \<Longrightarrow> unix_secs t = unix_secs u"
    by (simp add: trunc_secs_def second_def)
  moreover have "formatTime t = formatTime u" if "unix_secs t = unix_secs u"
    using that by (simp add: formatTime_def format_rfc3339_def to_utc_def unix_secs_def)
  ultimately show ?thesis using assms secs text_less_formatTime by auto
qed

theorem times_round_trip_in_order_witness:
  "parseDatetime (formatTime sample_now) = Inr (trunc_secs sample_now) \<and>
   text_less (formatTime sample_now) (formatTime NeverExpire) \<and>
   parseFileLifetime (formatFileLifetime (FileLifetime (25 * hour + 1))) = Inr (FileLifetime (25 * hour + 1))"
  using times_round_trip_in_order [OF sample_now_range NeverExpire_range, of "FileLifetime (25 * hour + 1)" 3]
  by (simp add: sample_now_secs NeverExpire_secs duration_defs)

section \<open>Garbage collection\<close>

text \<open>C30: The garbage collector loses nothing that is still wanted. Through any number of runs of the
  scheduler, successful or not, an entry that is not expired at the time of any of them stays, the
  database keeps its invariant, and the collector reports the last run with the error it ended with.\<close>

theorem scheduled_collections_keep_live_entries:
  assumes "db_ok (snd cs)" and "r \<in> set (entries (snd cs))"
    and "er_expiration_time r = Some (formatTime et)" "text_range et"
    and "\<forall>E \<in> set (ticks @ [last_tick]). text_range (st_now E) \<and> unix_secs (st_now E) \<le> unix_secs et"
  shows "r \<in> set (entries (snd (scheduler_run Purge st_later (ticks @ [last_tick]) cs))) \<and>
    db_ok (snd (scheduler_run Purge st_later (ticks @ [last_tick]) cs)) \<and>
    LastRun (fst (scheduler_run Purge st_later (ticks @ [last_tick]) cs)) =
      \<lparr>col_Time = st_later last_tick,
       col_Err = (case fst (Purge last_tick (snd (scheduler_run Purge st_later ticks cs))) of
                    Inl e \<Rightarrow> Some e | Inr _ \<Rightarrow> None)\<rparr>"
proof -
  have "\<not> entry_expired E r" if "E \<in> set (ticks @ [last_tick])" for E
    using that assms(3-5) by (auto simp: entry_expired_def text_less_formatTime)
  with store_purger.run_keeps [OF assms(1,2)] store_purger.run_inv [OF assms(1)] store_purger.run_last
  show ?thesis by blast
qed

theorem scheduled_collections_keep_live_entries_witness:
  "sample_row \<in> set (entries (snd (scheduler_run Purge st_later [sample_env, sample_env] (NewCollector, sample_db))))"
proof -
  have "db_ok sample_db"
    using InsertEntry_db_ok [OF initial_db_ok, of sample_env sample_src sample_md] by (simp add: sample_db_def)
  moreover have "sample_row \<in> set (entries sample_db)" by (simp add: sample_db_eq sample_row_def)
  ultimately show ?thesis
    using scheduled_collections_keep_live_entries [of "(NewCollector, sample_db)" sample_row NeverExpire "[sample_env]" sample_env]
    by (simp add: sample_db2_rows sample_now_secs NeverExpire_secs)
qed

section \<open>Corners\<close>

text \<open>An address of one byte passes its constructor, and the database refuses the user it belongs to.\<close>

lemma short_email_cannot_log_in:
  "NewEmailAddress ''@'' = Inr (EmailAddress ''@'')"
  "fst (RecordUserLogin sample_env initial_db
     \<lparr>ui_Subject = OIDCSubject ''s'', ui_Username = Username ''u'', ui_Email = EmailAddress ''@''\<rparr>) = Inl ConstraintError"
proof -
  show "NewEmailAddress ''@'' = Inr (EmailAddress ''@'')" by code_simp
  have n: "rune_count ''@'' = 1" by code_simp
  let ?id = "\<lparr>ui_Subject = OIDCSubject ''s'', ui_Username = Username ''u'', ui_Email = EmailAddress ''@''\<rparr>"
  have refused: "\<not> user_ok sample_env (new_user_row sample_env ?id i b)" for i b
    by (simp add: user_ok_def new_user_row_def emailToNullString_def EmailAddress_Empty_def check_length_def n)
  show "fst (RecordUserLogin sample_env initial_db ?id) = Inl ConstraintError"
    by (simp add: RecordUserLogin_def transaction_def stmt_def and_then_def insert_user_def isFirstUser_def ensure_def
        Let_def refused)
qed

text \<open>Seeking from the end goes backwards for a positive offset, where \<open>io.Seeker\<close> goes forwards.\<close>

lemma seek_from_end_is_reversed:
  "n \<noteq> 0 \<Longrightarrow> fst (reader_Seek fr n SeekEnd) \<noteq> r_fileLength fr + n"
  by (simp add: reader_Seek_def Let_def)

end
