(* ===== verification/GuestCounts.thy ===== *)
theory GuestCounts
  imports Requests
begin

text \<open>
  How many files come through a guest link. The upload handler reads the link's count first and
  inserts the file later; between the two, other requests run. The handler is therefore cut into its
  two halves, and runs of the server hold the uploads that have passed the check and are not stored
  yet. With at most \<open>K\<close> requests in flight a link's limit is overstepped by at most \<open>K - 1\<close> files, so
  requests that run one after another never overstep it.
\<close>

section \<open>The two halves of an upload\<close>

text \<open>What the check hands on: the request with its limited body, the link and the expiration.\<close>

type_synonym checked_upload = "request \<times> guest_link_id \<times> time"

definition guest_check :: "web \<Rightarrow> response \<Rightarrow> request \<Rightarrow> db \<Rightarrow> response + checked_upload" where
  "guest_check W w r d =
     (case parseGuestLinkID (mux_Var r ''guestLinkID'') of
        Inl e \<Rightarrow> Inl (http_Error w ''Invalid guest link ID: '' (Some e) 400)
      | Inr guestLinkID \<Rightarrow>
          (case GetGuestLink (wb_env W) d guestLinkID of
             Inl e \<Rightarrow>
               Inl (if is_guest_link_not_found e then http_Error w ''Invalid guest link ID'' None 404
                    else http_Error w ''Failed to retrieve guest link'' None 500)
           | Inr gl \<Rightarrow>
               (if \<not> GuestLink_IsActive (wb_wall W) gl
                then Inl (http_Error w ''Guest link is no longer active'' None 401)
                else
                  (let r1 = (case gl_MaxFileBytes gl of None \<Rightarrow> r | Some n \<Rightarrow> MaxBytesReader r (sint n)) in
                   case parseGuestExpirationFromRequest W r1 gl of
                     Inl e \<Rightarrow> Inl (http_Error w ''Invalid expiration: '' (Some e) 400)
                   | Inr expiration \<Rightarrow> Inr (r1, guestLinkID, expiration)))))"

definition guest_store :: "web \<Rightarrow> response \<Rightarrow> checked_upload \<Rightarrow> db \<Rightarrow> response \<times> db" where
  "guest_store W w c d =
     (case c of (r1, guestLinkID, expiration) \<Rightarrow>
        (case insertFileFromRequest W r1 d expiration guestLinkID (UserID 0) of
           (Inl e, d1) \<Rightarrow> (upload_failed w e, d1)
         | (Inr i, d1) \<Rightarrow>
             (if clientAcceptsJson r1 then (respondJSON w (IDBody (EntryID_value i)), d1)
              else ((set_header ''Content-Type'' ''text/plain'' w)\<lparr>rs_body :=
                      TextBody (baseURLFromRequest W r1 @ ''/-'' @ EntryID_value i @
                                [char_of (13::nat), char_of (10::nat)])\<rparr>, d1))))"

lemma MaxBytesReader_answer [simp]:
  "clientAcceptsJson (MaxBytesReader r n) = clientAcceptsJson r"
  "baseURLFromRequest W (MaxBytesReader r n) = baseURLFromRequest W r"
  by (simp_all add: MaxBytesReader_def clientAcceptsJson_def baseURLFromRequest_def requestIsHTTPS_def header_Get_def)

text \<open>Without anything in between the halves are the handler.\<close>

lemma guestEntryPost_halves:
  "guestEntryPost W w r d =
     (case guest_check W w r d of Inl w1 \<Rightarrow> (w1, d) | Inr c \<Rightarrow> guest_store W w c d)"
  by (simp add: guestEntryPost_def guest_check_def guest_store_def Let_def split: sum.split option.split prod.split)

lemma guest_check_Inr:
  assumes "guest_check W w r d = Inr (r1, g, et)"
  shows "link_room d g" and "g \<noteq> []" and "g \<in> glr_id ` set (guest_links d)"
proof -
  have p: "parseGuestLinkID (mux_Var r ''guestLinkID'') = Inr g"
    using assms by (auto simp: guest_check_def Let_def split: sum.splits if_splits)
  obtain gl where gl: "GetGuestLink (wb_env W) d g = Inr gl" "GuestLink_IsActive (wb_wall W) gl"
    using assms p by (auto simp: guest_check_def Let_def split: sum.splits if_splits)
  show "link_room d g" by (rule active_link_room [OF gl])
  show "g \<noteq> []" using p by (auto simp: parseGuestLinkID_iff)
  show "g \<in> glr_id ` set (guest_links d)" by (rule GetGuestLink_Inr [OF gl(1)]) auto
qed

lemma guest_store_ok:
  assumes "guest_store W w (r, g, et) d = (w1, d1)" and "rs_status w1 = 200" and "0 < st_chunkSize (wb_env W)"
    and "g \<noteq> []"
  obtains src md where "upload_from_request W r et g (UserID 0) = Inr (src, md)"
    "InsertEntry (wb_env W) d src md = (Inr (), d1)" "er_guest_link_id (entry_row_of d md) = Some g"
    "entries d1 = entries d @ [entry_row_of d md]" "entry_count d1 g = entry_count d g + 1" "guest_links d1 = guest_links d"
proof -
  obtain res d2 where R: "insertFileFromRequest W r d et g (UserID 0) = (res, d2)" by (metis surj_pair)
  have "d2 = d1" using assms(1) by (auto simp: guest_store_def R split: sum.splits if_splits)
  moreover obtain i where "res = Inr i"
    using assms(1,2) upload_failed_not_200 by (cases res) (auto simp: guest_store_def R)
  ultimately have ins: "insertFileFromRequest W r d et g (UserID 0) = (Inr i, d1)" using R by simp
  obtain src md where u: "upload_from_request W r et g (UserID 0) = Inr (src, md)"
    "InsertEntry (wb_env W) d src md = (Inr (), d1)"
    by (rule insertFileFromRequest_ok [OF ins])
  have md: "gl_ID (um_GuestLink md) = g" by (rule upload_from_request_ok [OF u(1)])
  show ?thesis
    using that [OF u] InsertEntry_ok(2) [OF u(2) assms(3)] md assms(4)
    by (simp add: entry_count_def entry_row_of_def)
qed

section \<open>Counting files and the uploads that will be files\<close>

text \<open>All that matters of a database: the link of every entry, and the limit of every link.\<close>

definition entry_links :: "db \<Rightarrow> guest_link_id option list" where
  "entry_links d = map er_guest_link_id (entries d)"

definition link_limits :: "db \<Rightarrow> (guest_link_id \<times> int option) list" where
  "link_limits d = map (\<lambda>r. (glr_id r, glr_max_file_uploads r)) (guest_links d)"

lemma entry_count_links: "entry_count d i = int (length (filter (\<lambda>x. x = Some i) (entry_links d)))"
  by (simp add: entry_count_def entry_links_def filter_map comp_def)

lemma glr_id_limits: "glr_id ` set (guest_links d) = fst ` set (link_limits d)"
  by (force simp: link_limits_def)

text \<open>
  For every link, its files and the uploads in flight (counted by \<open>f\<close>) stay below the limit plus \<open>K\<close>;
  and no entry refers to one of the identifiers \<open>N\<close>, which new links may get, unless it is a link's.
\<close>

definition links_within :: "guest_link_id set \<Rightarrow> nat \<Rightarrow> (guest_link_id \<Rightarrow> int) \<Rightarrow> db \<Rightarrow> bool" where
  "links_within N K f d \<longleftrightarrow>
     (\<forall>i \<in> N. Some i \<in> set (entry_links d) \<longrightarrow> i \<in> fst ` set (link_limits d)) \<and>
     (\<forall>i n. (i, Some n) \<in> set (link_limits d) \<longrightarrow> entry_count d i + f i < n + int K)"

lemma links_within_same:
  "links_within N K f d \<Longrightarrow> entry_links d1 = entry_links d \<Longrightarrow> link_limits d1 = link_limits d \<Longrightarrow> links_within N K f d1"
  by (simp add: links_within_def entry_count_links)

lemma links_within_refs: "links_within N K f d \<Longrightarrow> i \<in> N \<Longrightarrow> Some i \<in> set (entry_links d) \<Longrightarrow> i \<in> fst ` set (link_limits d)"
  and links_within_limit: "links_within N K f d \<Longrightarrow> (i, Some n) \<in> set (link_limits d) \<Longrightarrow> entry_count d i + f i < n + int K"
  unfolding links_within_def by blast+

lemma links_withinD:
  assumes "links_within N K f d" and "r \<in> set (guest_links d)" and "glr_max_file_uploads r = Some n"
  shows "entry_count d (glr_id r) + f (glr_id r) < n + int K"
proof (rule links_within_limit [OF assms(1)])
  show "(glr_id r, Some n) \<in> set (link_limits d)"
    using imageI [OF assms(2), of "\<lambda>r. (glr_id r, glr_max_file_uploads r)"] assms(3)
    unfolding link_limits_def set_map by simp
qed

lemma links_within_le: "links_within N K f d \<Longrightarrow> (\<And>i. f' i \<le> f i) \<Longrightarrow> links_within N K f' d"
proof -
  assume ok: "links_within N K f d" and le: "\<And>i. f' i \<le> f i"
  have "entry_count d i + f' i < n + int K" if "(i, Some n) \<in> set (link_limits d)" for i n
  proof -
    from ok that have "entry_count d i + f i < n + int K" by (rule links_within_limit)
    with le [of i] show ?thesis by linarith
  qed
  with ok show ?thesis by (simp add: links_within_def)
qed

lemma filter_shorter: "(\<And>x. P x \<Longrightarrow> Q x) \<Longrightarrow> length (filter P xs) \<le> length (filter Q xs)"
  by (induction xs) auto

lemma links_within_shrinks: "shrinks d d1 \<Longrightarrow> links_within N K f d \<Longrightarrow> links_within N K f d1"
proof -
  assume s: "shrinks d d1" and ok: "links_within N K f d"
  obtain P where P: "entries d1 = filter P (entries d)" using s by (auto simp: shrinks_def keeps_some_def)
  have lim: "link_limits d1 = link_limits d" using s by (simp add: shrinks_def link_limits_def)
  have "entry_count d1 i \<le> entry_count d i" for i
    by (auto simp: entry_count_def P intro: filter_shorter)
  moreover have "set (entry_links d1) \<subseteq> set (entry_links d)" by (auto simp: entry_links_def P)
  ultimately show ?thesis using ok unfolding links_within_def lim by (meson add_right_mono le_less_trans subsetD)
qed

lemma links_within_initial: "links_within N (Suc K) (\<lambda>_. 0) initial_db"
  by (simp add: links_within_def entry_links_def link_limits_def initial_db_def)

section \<open>Every store call keeps the limits\<close>

text \<open>The calls that neither add nor remove an entry or a guest link.\<close>

lemma map_same_view:
  "(\<And>x. er_guest_link_id (f x) = er_guest_link_id x) \<Longrightarrow> entry_links (d\<lparr>entries := map f (entries d)\<rparr>) = entry_links d"
  by (simp add: entry_links_def)

lemma other_calls_view:
  assumes "\<nexists>src md. c = CallInsertEntry src md" "\<nexists>i. c = CallDeleteEntry i" "\<nexists>gl. c = CallInsertGuestLink gl"
    "\<nexists>i. c = CallDeleteGuestLink i" "c \<noteq> CallPurge"
  shows "entry_links (run_call E c d) = entry_links d \<and> link_limits (run_call E c d) = link_limits d"
proof (cases c)
  case (CallUpdateEntryMetadata i md)
  obtain r d1 where R: "UpdateEntryMetadata E d i md = (r, d1)" by (metis surj_pair)
  show ?thesis
    using UpdateEntryMetadata_cases [OF R]
    by (auto simp: CallUpdateEntryMetadata run_call_def R entry_links_def link_limits_def updated_entry_row_def)
next
  case (CallRecordUserLogin identity)
  obtain r d1 where R: "RecordUserLogin E d identity = (r, d1)" by (metis surj_pair)
  have "entry_links d1 = entry_links d \<and> link_limits d1 = link_limits d"
  proof (cases r)
    case (Inl e)
    with R RecordUserLogin_atomic [of E d identity e d1] show ?thesis by simp
  next
    case (Inr u)
    from RecordUserLogin_users [OF R [unfolded Inr]] show ?thesis
    proof (elim disjE exE conjE)
      fix i
      assume i: "insert_user E d identity = Inr (i, d1)"
      note ui = insert_user_ok [OF i]
      show ?thesis
      proof (cases "users d = []")
        case True
        show ?thesis
          by (auto simp: claimOwnerlessRows_ok [OF ui(4) [OF True]] entry_links_def link_limits_def)
      next
        case False
        then show ?thesis using ui(5) by (simp add: entry_links_def link_limits_def)
      qed
    qed (simp add: entry_links_def link_limits_def)
  qed
  then show ?thesis by (simp add: CallRecordUserLogin run_call_def R)
qed (use assms in \<open>auto simp: run_call_def entry_links_def link_limits_def DisableGuestLink_def EnableGuestLink_def
    set_disabled_def InsertEntryDownload_def GrantAdmin_def RevokeAdmin_def set_admin_def UpdateUserLanguage_def
    InsertSession_def DeleteSession_def UpdateSettings_def UpdateOIDCSettings_def ClearOIDCSettings_def
    GenerateSetupToken_def Let_def split: option.splits sum.splits\<close>)

lemma DeleteGuestLink_within:
  assumes "links_within N K f d" shows "links_within N K f (snd (DeleteGuestLink E d i))"
proof -
  obtain r d1 where R: "DeleteGuestLink E d i = (r, d1)" by (metis surj_pair)
  show ?thesis
  proof (cases r)
    case (Inl e)
    with R DeleteGuestLink_atomic [of E d i e d1] assms show ?thesis by simp
  next
    case (Inr u)
    have d1: "d1 = d\<lparr>entries := map (\<lambda>r. if er_guest_link_id r = Some i then r\<lparr>er_guest_link_id := None\<rparr> else r) (entries d),
        guest_links := filter (\<lambda>r. glr_id r \<noteq> i) (guest_links d)\<rparr>"
      using DeleteGuestLink_ok [OF R [unfolded Inr]] .
    have count: "entry_count d1 j \<le> entry_count d j" for j
      unfolding entry_count_def d1 by (simp add: filter_map comp_def) (rule filter_shorter, simp split: if_splits)
    have links: "Some j \<in> set (entry_links d1) \<Longrightarrow> Some j \<in> set (entry_links d) \<and> j \<noteq> i" for j
      by (auto simp: entry_links_def d1 split: if_splits)
    have "link_limits d1 = filter (\<lambda>x. fst x \<noteq> i) (link_limits d)"
      by (simp add: link_limits_def d1 filter_map comp_def)
    then have limits: "set (link_limits d1) = {x \<in> set (link_limits d). fst x \<noteq> i}" by simp
    show ?thesis
      unfolding R snd_conv links_within_def limits
    proof (intro conjI ballI allI impI)
      fix j assume "Some j \<in> set (entry_links d1)"
      then have j: "Some j \<in> set (entry_links d)" "j \<noteq> i" using links by simp_all
      moreover assume "j \<in> N"
      ultimately have "j \<in> fst ` set (link_limits d)" using links_within_refs [OF assms] by simp
      with j(2) show "j \<in> fst ` {x \<in> set (link_limits d). fst x \<noteq> i}" by auto
    next
      fix j n assume "(j, Some n) \<in> {x \<in> set (link_limits d). fst x \<noteq> i}"
      then have "entry_count d j + f j < n + int K" using assms by (simp add: links_within_def)
      with count [of j] show "entry_count d1 j + f j < n + int K" by linarith
    qed
  qed
qed

lemma InsertGuestLink_within:
  assumes "links_within N K f d" and "check_null (\<lambda>k. 0 < k) (gl_MaxFileUploads gl)"
    and "f (gl_ID gl) \<le> int K" and "gl_ID gl \<in> N"
  shows "links_within N K f (snd (InsertGuestLink E d gl))"
proof -
  obtain r d1 where R: "InsertGuestLink E d gl = (r, d1)" by (metis surj_pair)
  show ?thesis
  proof (cases r)
    case (Inl e)
    with R InsertGuestLink_err [of E d gl e d1] assms show ?thesis by simp
  next
    case (Inr u)
    note ins = InsertGuestLink_ok [OF R [unfolded Inr]]
    have "gl_ID gl \<notin> fst ` set (link_limits d)" using ins(2) by (simp add: glr_id_limits)
    with assms(1,4) have "Some (gl_ID gl) \<notin> set (entry_links d)" by (auto simp: links_within_def)
    then have "entry_count d (gl_ID gl) = 0" by (auto simp: entry_count_links filter_empty_conv)
    with assms show ?thesis
      by (cases "gl_MaxFileUploads gl")
        (auto simp: R ins(1) links_within_def entry_links_def link_limits_def guest_link_row_of_def)
  qed
qed

text \<open>An insertion adds one file to its link; \<open>f'\<close> counts what is in flight afterwards.\<close>

lemma entry_count_insert:
  "entry_count (d\<lparr>entries_data := x, entries := entries d @ [entry_row_of d md]\<rparr>) i =
     entry_count d i + (if i \<noteq> [] \<and> gl_ID (um_GuestLink md) = i then 1 else 0)"
  by (auto simp: entry_count_def entry_row_of_def)

lemma InsertEntry_within:
  assumes "links_within N K f d" and "0 < st_chunkSize E"
    and le: "\<And>i. f' i \<le> f i"
    and exists: "g = [] \<or> g \<notin> N \<or> g \<in> glr_id ` set (guest_links d)"
    and room: "g = [] \<or> f' g < f g \<or> (\<forall>n. (g, Some n) \<in> set (link_limits d) \<longrightarrow> entry_count d g + 1 + f' g < n + int K)"
    and "gl_ID (um_GuestLink md) = g"
  shows "links_within N K f' (snd (InsertEntry E d src md))"
proof -
  obtain r d1 where R: "InsertEntry E d src md = (r, d1)" by (metis surj_pair)
  show ?thesis
  proof (cases r)
    case (Inl e)
    then obtain rs where "d1 = d\<lparr>entries_data := entries_data d @ rs\<rparr>" using InsertEntry_err R by blast
    moreover have "links_within N K f' d" by (rule links_within_le [OF assms(1) le])
    ultimately show ?thesis by (auto simp: R entry_links_def link_limits_def intro: links_within_same)
  next
    case (Inr u)
    note ins = InsertEntry_ok [OF R [unfolded Inr] assms(2)]
    have "g = [] \<or> g \<notin> N \<or> g \<in> fst ` set (link_limits d)"
      using exists unfolding glr_id_limits .
    moreover have "entry_count d1 i + f' i < n + int K" if "(i, Some n) \<in> set (link_limits d)" for i n
    proof -
      have "entry_count d i + f i < n + int K" using assms(1) that by (simp add: links_within_def)
      with le [of i] room that show ?thesis by (auto simp: ins(2) entry_count_insert assms(6))
    qed
    ultimately show ?thesis
      using assms(1,6) by (auto simp: R ins(2) links_within_def entry_links_def link_limits_def entry_row_of_def)
  qed
qed

lemma link_room_limit:
  assumes "link_room d g" and "g \<noteq> []" and "keys_ok d"
  shows "g \<in> glr_id ` set (guest_links d)" and "(g, Some n) \<in> set (link_limits d) \<Longrightarrow> entry_count d g < n"
proof -
  obtain r where r: "r \<in> set (guest_links d)" "glr_id r = g"
    and room: "check_null (\<lambda>k. entry_count d g < k) (glr_max_file_uploads r)"
    using assms(1,2) by (auto simp: link_room_def list_ex_iff)
  from r show "g \<in> glr_id ` set (guest_links d)" by blast
  assume "(g, Some n) \<in> set (link_limits d)"
  then obtain r1 where r1: "r1 \<in> set (guest_links d)" "glr_id r1 = g" "glr_max_file_uploads r1 = Some n"
    by (auto simp: link_limits_def)
  have "r1 = r" using assms(3) r r1(1,2) by (auto simp: keys_ok_def distinct_map dest: inj_onD)
  with room r1(3) show "entry_count d g < n" by simp
qed

text \<open>A call by a request that is itself one of the \<open>K\<close> in flight, the others counted by \<open>f\<close>.\<close>

lemma run_call_within:
  assumes ok: "links_within N K f d" and keys: "keys_ok d" and E: "0 < st_chunkSize E" and guard: "link_guard N d c"
    and f: "\<And>i. 0 \<le> f i \<and> f i < int K"
  shows "links_within N K f (run_call E c d)"
proof (cases "\<exists>src md. c = CallInsertEntry src md")
  case True
  then obtain src md where c: "c = CallInsertEntry src md" by blast
  let ?g = "gl_ID (um_GuestLink md)"
  have room: "link_room d ?g" using guard by (simp add: c link_guard_def)
  have "?g = [] \<or> ?g \<in> glr_id ` set (guest_links d)" using link_room_limit(1) [OF room] keys by blast
  moreover have "entry_count d ?g + 1 + f ?g < n + int K" if "?g \<noteq> []" "(?g, Some n) \<in> set (link_limits d)" for n
    using link_room_limit(2) [OF room that(1) keys that(2)] f [of ?g] by linarith
  ultimately show ?thesis
    unfolding c run_call_def store_call.case
    by (intro InsertEntry_within [OF ok E, where g = ?g]) auto
next
  case False
  show ?thesis
  proof (cases "\<exists>gl. c = CallInsertGuestLink gl")
    case True
    then obtain gl where c: "c = CallInsertGuestLink gl" by blast
    have "f (gl_ID gl) \<le> int K" using f [of "gl_ID gl"] by simp
    with guard show ?thesis
      by (auto simp: c run_call_def link_guard_def intro!: InsertGuestLink_within [OF ok])
  next
    case noLink: False
    consider (shrink) "(\<exists>i. c = CallDeleteEntry i) \<or> c = CallPurge" | (unlink) i where "c = CallDeleteGuestLink i"
      | (other) "\<nexists>i. c = CallDeleteEntry i" "c \<noteq> CallPurge" "\<nexists>i. c = CallDeleteGuestLink i" by blast
    then show ?thesis
    proof cases
      case shrink
      then show ?thesis
        using links_within_shrinks [OF DeleteEntry_shrinks ok] links_within_shrinks [OF Purge_shrinks ok]
        by (auto simp: run_call_def)
    next
      case unlink
      show ?thesis by (simp add: unlink run_call_def DeleteGuestLink_within [OF ok])
    next
      case other
      from other_calls_view [OF False other(1) noLink other(3,2), of E d] show ?thesis
        by (intro links_within_same [OF ok]) simp_all
    qed
  qed
qed

lemma db_steps_within:
  assumes "db_steps N d d1" and "links_within N K f d" and "db_ok d" and "\<And>i. 0 \<le> f i \<and> f i < int K"
  shows "links_within N K f d1 \<and> db_ok d1"
  using assms(1)
proof induction
  case base
  show ?case using assms(2,3) ..
next
  case (step d1 d2)
  from step(2) show ?case
  proof cases
    case (call E c)
    have "keys_ok d1" using step(3) by (simp add: db_ok_def)
    with call step(3) show ?thesis by (simp add: run_call_db_ok run_call_within [OF _ _ _ _ assms(4)])
  qed
qed

section \<open>Runs with uploads in flight\<close>

definition in_flight :: "(response \<times> checked_upload) list \<Rightarrow> guest_link_id \<Rightarrow> int" where
  "in_flight ps i = int (length (filter (\<lambda>(w, r, g, et). g = i) ps))"

text \<open>
  At most \<open>K\<close> requests at a time. All but guest uploads run as one step; those may run as two, with
  anything in between. A collection runs beside the requests; a restart drops the uploads in flight.
  The identifier drawn for a new link is assumed not to be one that files still refer to.
\<close>

inductive overlapping_reach ::
  "nat \<Rightarrow> ('c, 'p) server_params \<Rightarrow> 'c \<Rightarrow> 'c server_state \<Rightarrow> (response \<times> checked_upload) list \<Rightarrow> bool" for K P c0 where
  first_start: "overlapping_reach K P c0 (start_state c0 initial_db) []"
| request: "overlapping_reach K P c0 s ps \<Longrightarrow> length ps < K \<Longrightarrow> 0 < st_chunkSize (wb_env W) \<Longrightarrow> registered W rt \<Longrightarrow>
     fresh_request r \<Longrightarrow> Some (generateGuestLinkID (wb_draw W)) \<notin> set (entry_links (sv_db s)) \<Longrightarrow>
     overlapping_reach K P c0 (snd (protectedRouter P rt W r s)) ps"
| check: "overlapping_reach K P c0 s ps \<Longrightarrow> length ps < K \<Longrightarrow> guest_check W w r (sv_db s) = Inr c \<Longrightarrow>
     overlapping_reach K P c0 s ((w, c) # ps)"
| store: "overlapping_reach K P c0 s ps \<Longrightarrow> (w, c) \<in> set ps \<Longrightarrow> 0 < st_chunkSize (wb_env W) \<Longrightarrow>
     overlapping_reach K P c0 (s\<lparr>sv_db := snd (guest_store W w c (sv_db s))\<rparr>) (remove1 (w, c) ps)"
| tick: "overlapping_reach K P c0 s ps \<Longrightarrow> 0 < st_chunkSize E \<Longrightarrow> overlapping_reach K P c0 (scheduler_tick E s) ps"
| restart: "overlapping_reach K P c0 s ps \<Longrightarrow> 0 < st_chunkSize E \<Longrightarrow>
     overlapping_reach K P c0 (start_state c0 (snd (ensureSetupToken E (sv_db s)))) []"
| reset: "overlapping_reach K P c0 s ps \<Longrightarrow> 0 < st_chunkSize E \<Longrightarrow>
     overlapping_reach K P c0 (start_state c0 (snd (runResetOIDC E (sv_db s)))) []"

lemma in_flight_bound: "0 \<le> in_flight ps i \<and> in_flight ps i \<le> int (length ps)"
  by (simp add: in_flight_def)

lemma in_flight_Cons: "in_flight ((w, r, g, et) # ps) i = (if g = i then 1 else 0) + in_flight ps i"
  by (simp add: in_flight_def)

lemma in_flight_remove:
  "(w, r, g, et) \<in> set ps \<Longrightarrow> in_flight ps i = (if g = i then 1 else 0) + in_flight (remove1 (w, r, g, et) ps) i"
  by (induction ps) (auto simp: in_flight_def)

lemma guest_store_within:
  assumes ok: "links_within {} K (in_flight ps) d" and mem: "(w, r, g, et) \<in> set ps" and E: "0 < st_chunkSize (wb_env W)"
  shows "links_within {} K (in_flight (remove1 (w, r, g, et) ps)) (snd (guest_store W w (r, g, et) d))"
proof -
  let ?f = "in_flight (remove1 (w, r, g, et) ps)"
  obtain res d1 where ins: "insertFileFromRequest W r d et g (UserID 0) = (res, d1)" by (metis surj_pair)
  have le: "?f i \<le> in_flight ps i" for i using in_flight_remove [OF mem, of i] by simp
  have "links_within {} K ?f d1"
  proof (cases "upload_from_request W r et g (UserID 0)")
    case (Inl e)
    with ins links_within_le [OF ok le] show ?thesis by (simp add: insertFileFromRequest_def)
  next
    case (Inr p)
    obtain src md where p: "p = (src, md)" by (cases p)
    have g: "gl_ID (um_GuestLink md) = g" by (rule upload_from_request_ok [OF Inr [unfolded p]])
    have d1: "d1 = snd (InsertEntry (wb_env W) d src md)"
      using ins Inr p by (auto simp: insertFileFromRequest_def split: sum.splits prod.splits)
    show ?thesis
      unfolding d1 by (rule InsertEntry_within [OF ok E le _ _ g]) (simp_all add: in_flight_remove [OF mem])
  qed
  moreover have "snd (guest_store W w (r, g, et) d) = d1"
    by (simp add: guest_store_def ins split: sum.split)
  ultimately show ?thesis by simp
qed

lemma guest_store_db_ok: "db_ok d \<Longrightarrow> db_ok (snd (guest_store W w c d))"
proof -
  assume ok: "db_ok d"
  have step: "db_ok d1" if "InsertEntry E d src md = (x, d1)" for E src md x d1
    using InsertEntry_db_ok [OF ok, of E src md] that by simp
  show ?thesis
    using ok by (cases c) (auto simp: guest_store_def insertFileFromRequest_def split: sum.splits prod.splits dest: step)
qed

lemma start_calls_within:
  assumes "links_within N K f d" and "db_ok d"
  shows "links_within N K f (snd (ensureSetupToken E d)) \<and> db_ok (snd (ensureSetupToken E d))"
    and "links_within N K f (snd (runResetOIDC E d)) \<and> db_ok (snd (runResetOIDC E d))"
proof -
  let ?ok = "\<lambda>d. links_within N K f d \<and> db_ok d"
  have token: "?ok (snd (GenerateSetupToken E d1))" if "?ok d1" for d1
    using that other_calls_view [of CallGenerateSetupToken E d1] other_calls_db_ok [of d1 E]
    by (auto simp: run_call_def intro: links_within_same)
  have clear: "?ok (snd (ClearOIDCSettings E d))"
    using assms other_calls_view [of CallClearOIDCSettings E d] other_calls_db_ok [of d E]
    by (auto simp: run_call_def intro: links_within_same)
  show "?ok (snd (ensureSetupToken E d))"
    using assms token [of d] by (auto simp: ensureSetupToken_def split: sum.splits prod.splits)
  show "?ok (snd (runResetOIDC E d))"
    using clear token by (cases "ClearOIDCSettings E d") (auto simp: runResetOIDC_def split: sum.splits)
qed

lemma overlapping_within:
  "overlapping_reach K P c0 s ps \<Longrightarrow>
     db_ok (sv_db s) \<and> links_within {} K (in_flight ps) (sv_db s) \<and> length ps \<le> K"
proof (induction rule: overlapping_reach.induct)
  case first_start
  show ?case
    using initial_db_ok by (simp add: start_state_def links_within_def entry_links_def link_limits_def initial_db_def)
next
  case (request s ps W rt r)
  let ?N = "new_link W"
  have flight: "0 \<le> in_flight ps i \<and> in_flight ps i < int K" for i
    using in_flight_bound [of ps i] request(2) by simp
  have "db_steps ?N (sv_db s) (sv_db (snd (protectedRouter P rt W r s)))"
    by (simp add: protectedRouter_def serve_calls [OF request(3,5)])
  moreover have "links_within ?N K (in_flight ps) (sv_db s)"
    using request(6,7) by (simp add: links_within_def)
  ultimately have "links_within ?N K (in_flight ps) (sv_db (snd (protectedRouter P rt W r s))) \<and>
      db_ok (sv_db (snd (protectedRouter P rt W r s)))"
    by (rule db_steps_within) (use request(7) flight in simp_all)
  then show ?case using request(7) by (simp add: links_within_def)
next
  case (check s ps W w r c)
  obtain r1 g et where c: "c = (r1, g, et)" by (cases c)
  note G = guest_check_Inr [OF check(3) [unfolded c]]
  have "entry_count (sv_db s) i + in_flight ((w, c) # ps) i < n + int K" if "(i, Some n) \<in> set (link_limits (sv_db s))" for i n
  proof (cases "g = i")
    case True
    have "entry_count (sv_db s) i < n"
      using link_room_limit(2) [OF G(1,2)] check(4) that True by (simp add: db_ok_def)
    then show ?thesis using in_flight_bound [of ps i] check(2) True by (simp add: c in_flight_Cons)
  next
    case False
    then show ?thesis using links_within_limit check(4) that by (fastforce simp: c in_flight_Cons)
  qed
  then show ?case using check(2,4) by (simp add: links_within_def)
next
  case (store s ps w c W)
  obtain r g et where c: "c = (r, g, et)" by (cases c)
  have "length (remove1 (w, c) ps) \<le> K" using store(4) by (simp add: length_remove1) linarith
  then show ?case
    using store(4) guest_store_within [of K ps "sv_db s" w r g et W] store(2,3) c
    by (simp add: guest_store_db_ok)
next
  case (tick s ps E)
  have "sv_db (scheduler_tick E s) = sv_db s \<or> sv_db (scheduler_tick E s) = snd (Purge E (sv_db s))"
    by (auto simp: scheduler_tick_def scheduler_collect_def Collect_def Let_def split: prod.splits)
  then show ?case
    using tick(3) links_within_shrinks [OF Purge_shrinks] shrinks_db_ok [OF Purge_shrinks] by metis
next
  case (restart s ps E)
  have "links_within {} K (in_flight []) (sv_db s)"
    by (rule links_within_le) (use restart(3) in_flight_bound in \<open>auto simp: in_flight_def\<close>)
  from start_calls_within(1) [OF this] restart(3) show ?case by (simp add: start_state_def)
next
  case (reset s ps E)
  have "links_within {} K (in_flight []) (sv_db s)"
    by (rule links_within_le) (use reset(3) in_flight_bound in \<open>auto simp: in_flight_def\<close>)
  from start_calls_within(2) [OF this] reset(3) show ?case by (simp add: start_state_def)
qed

text \<open>One request after another: \<open>K = 1\<close> with nothing in flight, and no assumption on the draws.\<close>

lemma server_within: "server_reach P c0 s \<Longrightarrow> links_within UNIV 1 (\<lambda>_. 0) (sv_db s)"
  using db_steps_within [OF server_reach_steps [of P c0 s], where f = "\<lambda>_. 0" and K = 1] links_within_initial [of UNIV 0]
  by (simp add: initial_db_ok)

end
