(* ===== verification/WebProperties.thy ===== *)
theory WebProperties
  imports WebSamples RecordProperties Safety GuestCounts Views "HOL-Library.Sublist"
begin

text \<open>
  The properties of the handlers: sessions, permissions, limits on uploads, pages, settings and
  the login with an identity provider.
\<close>

section \<open>Sessions\<close>

lemma GetSessionUser_expired:
  assumes "keys_ok d" and "s \<in> set (sessions d)" and "sr_token_hash s = SessionTokenHash_String h"
    and "\<not> session_live E s" and "\<not> sq_fault E OpGetSessionUser 0"
  shows "GetSessionUser E d h = Inl SessionNotFoundError"
proof (rule GetSessionUser_none [OF _ assms(5)])
  fix s' assume "s' \<in> set (sessions d)" "sr_token_hash s' = SessionTokenHash_String h"
  moreover have "distinct (map sr_token_hash (sessions d))" using assms(1) by (simp add: keys_ok_def)
  ultimately have "s' = s" using assms(2,3) by (metis distinct_map inj_onD)
  then show "\<not> session_live E s'" using assms(4) by simp
qed

text \<open>C15: A login opens exactly one session. A request that carries the cookie a successful login
  sets is a request of the user who logged in until thirty days have passed, and of nobody afterwards;
  once that session is logged out, the same cookie identifies nobody, whatever the time.\<close>

theorem login_session_lives_thirty_days:
  assumes L: "completeLogin W w r identity d = (None, w1, d1)" and "keys_ok d1"
    and cookie: "request_Cookie r' sessionCookieName = Some (SessionToken_String (NewSessionToken (wb_draw W)))"
    and law: "datetime_law E'" "text_range (st_now E')" "text_range (time_add (server_now W) (30 * 24 * hour))"
    and ok: "\<not> sq_fault E' OpGetSessionUser 0"
    and out: "authDelete W' w' r' d1 = (w2, d2)" "\<not> sq_fault (wb_env W') OpDeleteSession 0"
  shows "(\<exists>u d3. RecordUserLogin (wb_env W) d identity = (Inr u, d3) \<and>
      session_user E' r' d1 =
        (if unix_secs (st_now E') < unix_secs (time_add (server_now W) (30 * 24 * hour)) then Some u else None)) \<and>
    session_user E' r' d2 = None"
proof -
  note law3 = law(3) [folded sessionLifetime_def]
  obtain u x d3 where u: "RecordUserLogin (wb_env W) d identity = (Inr u, d3)"
    and "x \<in> set (users d1)" "userFromRow x = Inr u" "users d1 = users d3"
    and "w1 = setSessionCookie W w r (NewSessionToken (wb_draw W)) (time_add (server_now W) sessionLifetime)"
    and s: "\<lparr>sr_token_hash = SessionTokenHash_String (SessionToken_Hash (NewSessionToken (wb_draw W))),
      sr_user_id = ur_id x, sr_creation_time = formatTime (server_now W),
      sr_expiration_time = formatTime (time_add (server_now W) sessionLifetime)\<rparr> \<in> set (sessions d1)" (is "?s \<in> _")
    and "d1 = (revoke_request_session (wb_env W) r d3)\<lparr>sessions := sessions d1\<rparr>"
    by (rule completeLogin_ok [OF L])
  have dead: "session_user E' r' d1 = None" if "\<not> unix_secs (st_now E') < unix_secs (time_add (server_now W) sessionLifetime)"
  proof -
    have "\<not> session_live E' ?s" using that session_live_iff(1) [OF law(1,2) law3, of ?s] by simp
    from GetSessionUser_expired [OF assms(2) s _ this ok] show ?thesis
      by (simp add: session_user_def request_token_def cookie NewSessionToken_accepted)
  qed
  have "session_user E' r' d2 = None" by (rule authDelete_session [OF out refl])
  with u dead completeLogin_session [OF L assms(2) cookie law(1,2) law3 _ ok] show ?thesis
    unfolding sessionLifetime_def by (metis Pair_inject sum.inject(2))
qed

definition sample_first_login :: "store_error option \<times> response \<times> db" where
  "sample_first_login = completeLogin sample_web new_response sample_request sample_identity initial_db"

lemma sample_month_secs: "unix_secs (time_add sample_now (30 * 24 * hour)) = 1738281600"
proof -
  have "t_ns sample_now = 1735689600 * second"
    using sample_now_secs by (simp add: sample_now_def utc_date_def unix_secs_def second_def)
  then show ?thesis by (simp add: time_add_def unix_secs_def duration_defs)
qed

lemma ascii_hex: "ascii (hex_encode s)"
proof -
  have "hex_digit n \<in> set ''0123456789abcdef''" if "n < 16" for n
    unfolding hex_digit_def using that by (intro nth_mem) simp
  moreover have "byte_of c < 128" if "c \<in> set ''0123456789abcdef''" for c :: char using that by auto
  moreover have "byte_of c div 16 < 16" for c :: char
    by (rule less_mult_imp_div_less) (use byte_bound [of c] in simp)
  ultimately show ?thesis by (auto simp: ascii_def hex_encode_def list_all_iff)
qed

lemma sample_first_login_ok: "fst sample_first_login = None \<and> keys_ok (snd (snd sample_first_login))"
proof -
  obtain u d1 where u: "RecordUserLogin sample_env initial_db sample_identity = (Inr u, d1)" "usr_ID u = UserID 1"
    "users d1 = [sample_user_row]" "sessions d1 = []"
    using sample_first_user [of initial_db] by auto
  have "request_token sample_request = None" by (simp add: request_token_def request_Cookie_def sample_request_def)
  moreover have "sq_length sample_env (SessionTokenHash_String (SessionToken_Hash t)) = 64" for t
    by (simp add: SessionToken_Hash_def rune_count_ascii ascii_hex length_hex_encode)
  moreover have "check_time sample_env (formatTime (time_add sample_now (30 * 24 * hour)))"
    by (rule sample_check_time) (simp_all only: text_range_def sample_month_secs, simp_all)
  ultimately show ?thesis
    using RecordUserLogin_db_ok [OF initial_db_ok, of sample_env sample_identity] u
    by (simp add: sample_first_login_def completeLogin_def revoke_request_session_def sample_server_now sessionLifetime_def
        Let_def InsertSession_def session_row_of_def session_ok_def sample_check_time sample_now_secs
        sample_user_row_def keys_ok_def db_ok_def)
qed

theorem login_session_lives_thirty_days_witness:
  "\<exists>d1 u. sample_first_login = (None, fst (snd sample_first_login), d1) \<and>
     session_user sample_env (sample_request\<lparr>rq_cookies :=
       [(sessionCookieName, SessionToken_String (NewSessionToken (\<lambda>i. i + 20)))]\<rparr>) d1 = Some u"
proof -
  let ?r = "sample_request\<lparr>rq_cookies := [(sessionCookieName, SessionToken_String (NewSessionToken (\<lambda>i. i + 20)))]\<rparr>"
  obtain w1 d1 where L: "sample_first_login = (None, w1, d1)" and keys: "keys_ok d1"
    using sample_first_login_ok by (metis prod.collapse snd_conv)
  note L' = L [unfolded sample_first_login_def]
  have c: "request_Cookie ?r sessionCookieName = Some (SessionToken_String (NewSessionToken (wb_draw sample_web)))"
    by (simp add: request_Cookie_def)
  have t: "text_range (time_add (server_now sample_web) (30 * 24 * hour))"
    by (simp only: sample_server_now text_range_def sample_month_secs) simp
  have now: "unix_secs (st_now sample_env) < unix_secs (time_add (server_now sample_web) (30 * 24 * hour))"
    by (simp only: sample_server_now sample_month_secs sample_env_simps sample_now_secs)
  obtain w2 d2 where out: "authDelete sample_web new_response ?r d1 = (w2, d2)" by (metis surj_pair)
  have "datetime_law sample_env" "text_range (st_now sample_env)" "\<not> sq_fault sample_env OpGetSessionUser 0"
    "\<not> sq_fault (wb_env sample_web) OpDeleteSession 0" by simp_all
  from login_session_lives_thirty_days [OF L' keys c this(1,2) t this(3) out this(4)] now
  obtain u where "session_user sample_env ?r d1 = Some u" by auto
  then show ?thesis unfolding L by (intro exI [of _ d1] exI [of _ u]) simp
qed

section \<open>Permissions\<close>

text \<open>C21: An entry of someone else looks like no entry. Each route that works on one entry answers a
  user who may not manage it with the very response it gives when the entry does not exist, and
  changes nothing.\<close>

theorem foreign_entry_looks_missing:
  assumes "h \<in> {entryPut, entryDelete, fileEditGet, fileInfoGet, fileDownloadsGet, fileConfirmDeleteGet}"
    and "EntryIDFromString (mux_Var r ''id'') = Inr i"
    and "GetEntryMetadata (wb_env W) d i = Inl (EntryNotFoundError i) \<or>
      (\<exists>entry. GetEntryMetadata (wb_env W) d i = Inr entry \<and> \<not> User_CanManageEntry (fst (currentUser r)) entry)"
  shows "h W w r d = (http_Error w ''entry not found'' None 404, d)"
proof -
  have "manageableEntry W w r d i = Inl (http_Error w ''entry not found'' None 404)"
    using assms(3) manageableEntry_missing manageableEntry_foreign by blast
  then show ?thesis
    using assms(1,2)
    by (auto simp: entryPut_def entryDelete_def fileEditGet_def fileInfoGet_def fileDownloadsGet_def
        fileConfirmDeleteGet_def with_entry_def)
qed

lemma sample_metadata:
  "GetEntryMetadata sample_env sample_db sample_id =
     Inr (as_stored_entry initial_db sample_md 5 NoGuestLink (NoOwner, Username []))"
proof -
  have gl: "entry_guest_link sample_env sample_db (entry_row_of initial_db sample_md) = Inr NoGuestLink"
    by (simp add: sample_entry_row entry_guest_link_def)
  have own: "ownerFromColumns (inserted_owner initial_db sample_md)
      (owner_username initial_db (inserted_owner initial_db sample_md)) = Inr (NoOwner, Username [])"
    by (simp add: inserted_owner_def sample_md_def NoGuestLink_def owner_column_def UserID_Empty_def
        ownerFromColumns_def NoOwner_def)
  have len: "length (concat (src_pieces sample_src)) = 5" by simp
  have "GetEntryMetadata sample_env sample_db (um_ID sample_md) =
      Inr (as_stored_entry initial_db sample_md (length (concat (src_pieces sample_src))) NoGuestLink (NoOwner, Username []))"
    by (rule GetEntryMetadata_inserted [OF sample_inserted _ _ _ _ sample_storable _ gl own]) simp_all
  then show ?thesis unfolding len by (simp only: sample_simps)
qed

theorem foreign_entry_looks_missing_witness:
  "entryDelete sample_web new_response (sample_request\<lparr>rq_vars := [(''id'', ''abcdefghij'')]\<rparr>) sample_db =
     (http_Error new_response ''entry not found'' None 404, sample_db)"
proof (rule foreign_entry_looks_missing)
  let ?r = "sample_request\<lparr>rq_vars := [(''id'', ''abcdefghij'')]\<rparr>"
  show "EntryIDFromString (mux_Var ?r ''id'') = Inr sample_id"
    by (auto simp: EntryIDFromString_iff mux_Var_def lookup_or_empty_def sample_id_def entryIDCharacters_def)
  have "\<not> User_CanManageEntry (fst (currentUser ?r)) (as_stored_entry initial_db sample_md 5 NoGuestLink (NoOwner, Username []))"
    by (simp add: User_CanManageEntry_def currentUser_def sample_request_def zero_user_def as_stored_entry_def
        NoOwner_def UserID_Empty_def)
  then show "GetEntryMetadata (wb_env sample_web) sample_db sample_id = Inl (EntryNotFoundError sample_id) \<or>
      (\<exists>entry. GetEntryMetadata (wb_env sample_web) sample_db sample_id = Inr entry \<and>
         \<not> User_CanManageEntry (fst (currentUser ?r)) entry)"
    using sample_metadata by simp
qed simp

section \<open>Uploading\<close>

text \<open>C10: Uploads through a guest link stay within its limits. When a guest's upload is accepted, the
  link exists, is not disabled, not expired, and had fewer files than it may have; the new entry
  belongs to the link, expires no later than the link allows, has neither note nor passphrase, and its
  content is no longer than the link's limit.\<close>

theorem guest_upload_stays_within_limits:
  assumes "guestEntryPost W w r d = (w1, d1)" and "rs_status w1 = 200" and "form_fits r"
  shows "\<exists>g gl src md. GetGuestLink (wb_env W) d g = Inr gl \<and> InsertEntry (wb_env W) d src md = (Inr (), d1) \<and>
    \<not> gl_IsDisabled gl \<and> (gl_UrlExpires gl = NeverExpire \<or> \<not> time_after (wb_wall W) (gl_UrlExpires gl)) \<and>
    (\<forall>k. gl_MaxFileUploads gl = Some k \<longrightarrow> entry_count d g < k) \<and>
    gl_ID (um_GuestLink md) = g \<and> um_Note md = None \<and> um_DownloadPassphrase md = NoDownloadPassphrase \<and>
    \<not> time_after (um_Expires md) (FileLifetime_ExpirationFromTime (gl_MaxFileLifetime gl) (server_now W)) \<and>
    (\<forall>n. gl_MaxFileBytes gl = Some n \<longrightarrow> int (length (concat (src_pieces src))) \<le> max 0 (sint n))"
proof -
  obtain g gl src md r1 where gl: "parseGuestLinkID (mux_Var r ''guestLinkID'') = Inr g"
      "GetGuestLink (wb_env W) d g = Inr gl" "GuestLink_IsActive (wb_wall W) gl"
    and r1: "r1 = (case gl_MaxFileBytes gl of None \<Rightarrow> r | Some n \<Rightarrow> MaxBytesReader r (sint n))"
    and exp: "parseGuestExpirationFromRequest W r1 gl = Inr (um_Expires md)"
    and up: "upload_from_request W r1 (um_Expires md) g (UserID 0) = Inr (src, md)"
    and ins: "InsertEntry (wb_env W) d src md = (Inr (), d1)"
    by (rule guestEntryPost_stores [OF assms(1,2)])
  have g: "g \<noteq> []" using gl(1) by (auto simp: parseGuestLinkID_iff)
  have md: "gl_ID (um_GuestLink md) = g" "um_Note md = None" "um_DownloadPassphrase md = NoDownloadPassphrase"
    by (rule upload_from_request_ok [OF up], use g in \<open>simp add: upload_passphrase_def split: if_splits\<close>)+
  have size: "int (length (concat (src_pieces src))) \<le> max 0 (sint n)" if "gl_MaxFileBytes gl = Some n" for n
  proof -
    have "r1 = MaxBytesReader r (max 0 (sint n))" using r1 that by (simp add: MaxBytesReader_def)
    from upload_within_limit [OF up [unfolded this] assms(3)] show ?thesis by simp
  qed
  have count: "entry_count d g < k" if "gl_MaxFileUploads gl = Some k" for k
    using gl(3) that by (rule_tac GetGuestLink_Inr [OF gl(2)])
      (simp add: GuestLink_IsActive_def GuestLink_CanAcceptMoreFiles_def)
  from gl(2,3) md size count ins guest_expiration_limit [OF exp] show ?thesis
    by (intro exI [of _ g] exI [of _ gl] exI [of _ src] exI [of _ md])
      (auto simp: GuestLink_IsActive_def GuestLink_IsExpired_def split: if_splits)
qed

definition sample_guest_upload :: request where
  "sample_guest_upload = sample_request
     \<lparr>rq_vars := [(''guestLinkID'', ''abcdefghijkmnopq'')], rq_body_bytes := 9,
      rq_body := MultipartBody
        (Some \<lparr>fp_filename = ''hello.txt'', fp_content_type = ''text/plain'', fp_size = 5, fp_reader = sample_src\<rparr>) []\<rparr>"

definition sample_link_db :: db where
  "sample_link_db = snd (InsertGuestLink sample_env initial_db sample_link)"

definition sample_week :: time where "sample_week = time_add sample_now (24 * hour * 7)"

definition sample_guest_md :: upload_metadata where
  "sample_guest_md = sample_md\<lparr>um_ID := EntryID ''vwxyzABCDE'', um_OwnerID := UserID 0,
     um_Expires := sample_week, um_GuestLink := NoGuestLink\<lparr>gl_ID := ''abcdefghijkmnopq''\<rparr>\<rparr>"

lemma sample_link_db_rows: "guest_links sample_link_db = [guest_link_row_of sample_link]" "entries sample_link_db = []"
  "entries_data sample_link_db = []"
  using sample_link_ok arg_cong [OF sample_link_row, of glr_max_file_bytes]
  by (simp_all add: sample_link_db_def InsertGuestLink_def Let_def)

lemma sample_week_secs: "unix_secs (time_add sample_now (24 * hour * 7)) = 1736294400"
proof -
  have "t_ns sample_now = 1735689600 * second"
    using sample_now_secs by (simp add: sample_now_def utc_date_def unix_secs_def second_def)
  then show ?thesis by (simp add: time_add_def unix_secs_def duration_defs)
qed

text \<open>The upload passes the check of any server with the sample store, and is inserted under its draw.\<close>

lemma sample_link_got:
  "GetGuestLink sample_env sample_link_db ''abcdefghijkmnopq'' = Inr (as_stored_guest_link sample_link 0)"
proof -
  obtain d1 where "InsertGuestLink sample_env initial_db sample_link = (Inr (), d1)" "d1 = sample_link_db"
    using sample_link_inserted by (auto simp: sample_link_db_def)
  then show ?thesis
    using GetGuestLink_inserted [OF sample_link_storable, of sample_env initial_db _ _ sample_env]
    by (simp add: entry_count_def sample_link_def)
qed

lemma guest_upload_checked:
  assumes "wb_env W = sample_env" and "wb_wall W = sample_now"
    and gl: "GetGuestLink sample_env d ''abcdefghijkmnopq'' = Inr gl" and active: "GuestLink_IsActive sample_now gl"
    and link: "gl_MaxFileBytes gl = None" "gl_MaxFileLifetime gl = NewFileLifetimeInDays 7"
  shows "guest_check W w sample_guest_upload d = Inr (sample_guest_upload, ''abcdefghijkmnopq'', sample_week)"
proof -
  have week: "FileLifetime_ExpirationFromTime (NewFileLifetimeInDays 7) sample_now = sample_week"
    by (simp add: sample_week_def FileLifetime_ExpirationFromTime_def FileLifetime_Equal_def FileLifetimeInfinite_def
        NewFileLifetimeInDays_def NewFileLifetimeInYears_def duration_defs)
  have "parseGuestLinkID ''abcdefghijkmnopq'' = Inr ''abcdefghijkmnopq''"
    by (simp add: parseGuestLinkID_iff guestLinkIDCharacters_def)
  moreover have "mux_Var sample_guest_upload ''guestLinkID'' = ''abcdefghijkmnopq''"
    "query_Get sample_guest_upload ''expiration'' = []"
    by (simp_all add: sample_guest_upload_def sample_request_def mux_Var_def query_Get_def lookup_or_empty_def)
  ultimately show ?thesis
    using gl active
    by (simp add: guest_check_def Let_def link week parseGuestExpirationFromRequest_def server_now_def assms)
qed

lemma sample_guest_check:
  assumes "wb_env W = sample_env" and "wb_wall W = sample_now"
  shows "guest_check W w sample_guest_upload sample_link_db = Inr (sample_guest_upload, ''abcdefghijkmnopq'', sample_week)"
  by (rule guest_upload_checked [OF assms sample_link_got])
    (simp_all add: GuestLink_IsActive_def GuestLink_IsExpired_def GuestLink_CanAcceptMoreFiles_def as_stored_guest_link_def
      sample_link_def NoGuestLink_def trunc_NeverExpire)

lemma sample_guest_parts:
  assumes "wb_env W = sample_env"
  shows "upload_from_request W sample_guest_upload sample_week ''abcdefghijkmnopq'' (UserID 0) =
    Inr (sample_src, sample_guest_md\<lparr>um_ID := NewEntryID (wb_draw W)\<rparr>)"
proof -
  have parts: "FileSizeFromInt64 5 = Inr (FileSize 5)" "parse_FileNote [] = Inr None"
    by (simp_all add: FileSizeFromInt64_def FileSizeFromUint64_def parse_FileNote_iff)
  have name: "parse_Filename ''hello.txt'' = Inr ''hello.txt''" by code_simp
  show ?thesis
    by (simp add: upload_from_request_def ParseMultipartForm_def sample_guest_upload_def sample_request_def within_limit_def
        and_then_def of_option_def parts name map_error_def parseContentType_def lookup_or_empty_def upload_passphrase_def
        ensure_def server_now_def assms sample_guest_md_def sample_md_def NoGuestLink_def)
qed

lemma sample_guest_stored:
  assumes "\<forall>r \<in> set (entries_data d). cr_id r \<noteq> i" and "i \<notin> er_id ` set (entries d)"
    and "\<forall>r \<in> set (guest_links d). check_null (\<lambda>i. i \<in> ur_id ` set (users d)) (glr_owner_user_id r)"
  shows "\<exists>d1. InsertEntry sample_env d sample_src (sample_guest_md\<lparr>um_ID := EntryID i\<rparr>) = (Inr (), d1)"
proof (rule InsertEntry_succeeds)
  have "check_time sample_env (formatTime sample_week)"
    by (rule sample_check_time) (simp_all only: sample_week_def text_range_def sample_week_secs, simp_all)
  moreover have "check_null (\<lambda>u. u \<in> ur_id ` set (users d)) (inserted_owner d (sample_guest_md\<lparr>um_ID := EntryID i\<rparr>))"
    using assms(3) by (auto simp: inserted_owner_def sample_guest_md_def NoGuestLink_def split: option.split dest: first_row_filterD)
  ultimately show "entry_ok sample_env d (entry_row_of d (sample_guest_md\<lparr>um_ID := EntryID i\<rparr>))"
    by (simp add: entry_ok_def entry_checks_def entry_row_of_def sample_guest_md_def sample_md_def formatExpirationTime_def
        sample_check_time sample_now_secs downloadPassphraseString_def DownloadPassphrase_Empty_def
        Passphrase_Empty_def NoDownloadPassphrase_def NoGuestLink_def)
qed (use assms in simp_all)

lemma sample_guest_store:
  assumes "wb_env W = sample_env" and "NewEntryID (wb_draw W) = EntryID i"
    and "\<forall>r \<in> set (entries_data d). cr_id r \<noteq> i" and "i \<notin> er_id ` set (entries d)"
    and "\<forall>r \<in> set (guest_links d). check_null (\<lambda>i. i \<in> ur_id ` set (users d)) (glr_owner_user_id r)"
  obtains w1 d1 where "guest_store W new_response (sample_guest_upload, ''abcdefghijkmnopq'', sample_week) d = (w1, d1)"
    "rs_status w1 = 200" "InsertEntry sample_env d sample_src (sample_guest_md\<lparr>um_ID := EntryID i\<rparr>) = (Inr (), d1)"
proof -
  obtain d1 where I: "InsertEntry sample_env d sample_src (sample_guest_md\<lparr>um_ID := EntryID i\<rparr>) = (Inr (), d1)"
    using sample_guest_stored [OF assms(3-5)] by blast
  let ?S = "guest_store W new_response (sample_guest_upload, ''abcdefghijkmnopq'', sample_week) d"
  have "rs_status (fst ?S) = 200 \<and> snd ?S = d1"
    using I by (simp add: guest_store_def insertFileFromRequest_def sample_guest_parts [OF assms(1)] assms(1,2) new_response_def)
  then have "?S = (fst ?S, d1)" "rs_status (fst ?S) = 200" by (metis prod.collapse)+
  from that [OF this I] show ?thesis .
qed

lemma sample_link_row_owner:
  "\<forall>r \<in> set (guest_links sample_link_db). check_null (\<lambda>i. i \<in> ur_id ` set (users sample_link_db)) (glr_owner_user_id r)"
  unfolding sample_link_db_rows by (subst sample_link_row) simp

lemma sample_guest_accepted:
  "rs_status (fst (guestEntryPost sample_web new_response sample_guest_upload sample_link_db)) = 200"
proof -
  have W: "wb_env sample_web = sample_env" "wb_wall sample_web = sample_now" by (simp_all add: sample_web_def)
  have "NewEntryID (wb_draw sample_web) = EntryID ''vwxyzABCDE''" by (simp add: sample_new_id)
  then obtain w1 d1 where
    "guest_store sample_web new_response (sample_guest_upload, ''abcdefghijkmnopq'', sample_week) sample_link_db = (w1, d1)"
    "rs_status w1 = 200"
    by (rule sample_guest_store [OF W(1) _ _ _ sample_link_row_owner]) (simp_all add: sample_link_db_rows)
  then show ?thesis by (simp add: guestEntryPost_halves sample_guest_check [OF W])
qed

theorem guest_upload_stays_within_limits_witness:
  "\<exists>d1 src md. guestEntryPost sample_web new_response sample_guest_upload sample_link_db =
      (fst (guestEntryPost sample_web new_response sample_guest_upload sample_link_db), d1) \<and>
    InsertEntry sample_env sample_link_db src md = (Inr (), d1) \<and> um_Note md = None"
proof -
  obtain w1 d1 where P: "guestEntryPost sample_web new_response sample_guest_upload sample_link_db = (w1, d1)"
    by (metis surj_pair)
  have "rs_status w1 = 200" using sample_guest_accepted P by simp
  moreover have "form_fits sample_guest_upload" by (simp add: form_fits_def sample_guest_upload_def)
  ultimately show ?thesis
    using guest_upload_stays_within_limits [OF P] P by auto
qed

lemma entryPut_stores:
  assumes "entryPut W w r d = (w1, d1)" and "d1 \<noteq> d"
  shows "\<exists>i md. enforceMaxFileLifetimeForUser W d (fst (currentUser r)) (um_Expires md) = Inr () \<and>
    UpdateEntryMetadata (wb_env W) d i md = (Inr (), d1)"
proof -
  have err: "UpdateEntryMetadata E d i md = (Inl e, d2) \<Longrightarrow> d2 = d" for E i md e d2
    using UpdateEntryMetadata_cases by blast
  show ?thesis
    using assms by (auto simp: entryPut_def split: sum.splits prod.splits if_splits dest: err)
qed

text \<open>C9: The cap binds the own uploads of users who are not administrators. When a cap is set, an upload
  (\<open>entryPost\<close>) that is accepted from such a user, and a change of an entry (\<open>entryPut\<close>) that is carried
  out for one, sets an expiration that is not later than the cap allows from now, and never "never".
  Uploads through a guest link are bound by the lifetime of the link instead (C10); the cap is not meant
  for them.\<close>

theorem lifetime_cap_binds_users:
  assumes "\<not> usr_IsAdmin (fst (currentUser r))" and "ReadSettings (wb_env W) d = Inr st"
    and "set_MaxNonAdminFileLifetime st \<noteq> FileLifetimeInfinite"
    and "h W w r d = (w1, d1)" and "h = entryPost \<and> rs_status w1 = 200 \<or> h = entryPut \<and> d1 \<noteq> d"
  shows "\<exists>md. ((\<exists>src. InsertEntry (wb_env W) d src md = (Inr (), d1)) \<or>
      (\<exists>i. UpdateEntryMetadata (wb_env W) d i md = (Inr (), d1))) \<and> um_Expires md \<noteq> NeverExpire \<and>
    \<not> time_after (um_Expires md) (time_add (server_now W) (lifetime_d (set_MaxNonAdminFileLifetime st)))"
proof -
  obtain md where lim: "enforceMaxFileLifetimeForUser W d (fst (currentUser r)) (um_Expires md) = Inr ()"
    and st: "(\<exists>src. InsertEntry (wb_env W) d src md = (Inr (), d1)) \<or>
      (\<exists>i. UpdateEntryMetadata (wb_env W) d i md = (Inr (), d1))"
    using assms(5)
  proof (elim disjE conjE)
    assume h: "h = entryPost" "rs_status w1 = 200"
    show ?thesis by (rule entryPost_stores [OF assms(4) [unfolded h(1)] h(2)]) (rule that, auto)
  next
    assume h: "h = entryPut" "d1 \<noteq> d"
    show ?thesis using entryPut_stores [OF assms(4) [unfolded h(1)] h(2)] that by blast
  qed
  have "FileLifetime_ExpirationFromTime (set_MaxNonAdminFileLifetime st) (server_now W) =
      time_add (server_now W) (lifetime_d (set_MaxNonAdminFileLifetime st))"
    using assms(3) by (simp add: FileLifetime_ExpirationFromTime_def)
  with user_expiration_limit [OF lim assms(1-3)] st show ?thesis by auto
qed

text \<open>A database whose cap is seven days.\<close>

definition sample_capped_db :: db where
  "sample_capped_db = snd (UpdateSettings sample_env initial_db
     (sample_settings\<lparr>set_MaxNonAdminFileLifetime := NewFileLifetimeInDays 7\<rparr>))"

lemma sample_capped_settings:
  "ReadSettings sample_env sample_capped_db = Inr (sample_settings\<lparr>set_MaxNonAdminFileLifetime := NewFileLifetimeInDays 7\<rparr>)"
proof -
  have "storable_settings (sample_settings\<lparr>set_MaxNonAdminFileLifetime := NewFileLifetimeInDays 7\<rparr>)"
  proof -
    have "(1 :: u16) \<le> 7 \<and> (7 :: u16) \<le> 32767" by (simp add: word_le_def)
    then show ?thesis using sample_settings_storable unfolding storable_settings_def by auto
  qed
  from ReadSettings_updated [OF this, of initial_db sample_env sample_env] show ?thesis
    by (auto simp: sample_capped_db_def initial_db_def)
qed

lemma sample_week_simps: "text_range sample_week" "trunc_secs sample_week = sample_week"
  "hour \<le> time_sub sample_week sample_now" "sample_week \<noteq> NeverExpire"
proof -
  have ns: "t_ns sample_now = 1735689600 * second" "t_loc sample_now = UTC"
    using sample_now_secs by (simp_all add: sample_now_def utc_date_def unix_secs_def second_def)
  have secs: "unix_secs sample_week = 1736294400" using sample_week_secs by (simp only: sample_week_def)
  show "text_range sample_week" by (simp add: text_range_def secs)
  show "trunc_secs sample_week = sample_week"
    using ns by (simp add: trunc_secs_def secs) (simp add: sample_week_def time_add_def duration_defs)
  show "hour \<le> time_sub sample_week sample_now"
    using ns by (simp add: sample_week_def time_sub_def time_add_def duration_defs)
  show "sample_week \<noteq> NeverExpire" using secs NeverExpire_secs by auto
qed

definition sample_week_upload :: request where
  "sample_week_upload = sample_request
     \<lparr>rq_query := [(''expiration'', formatTime sample_week)],
      rq_body := MultipartBody
        (Some \<lparr>fp_filename = ''hello.txt'', fp_content_type = ''text/plain'', fp_size = 5, fp_reader = sample_src\<rparr>) []\<rparr>"

lemma sample_capped_db_rows: "entries sample_capped_db = []" "entries_data sample_capped_db = []"
  "guest_links sample_capped_db = []" "users sample_capped_db = []"
  by (simp_all add: sample_capped_db_def UpdateSettings_def initial_db_def)

lemma sample_week_expiration:
  "parseExpirationFromRequest sample_web (sample_week_upload\<lparr>rq_body := b\<rparr>) = Inr sample_week"
proof -
  have "parse_Expiration (formatTime sample_week) sample_now = Inr sample_week"
    using sample_week_simps by (simp add: parse_Expiration_iff formatTime_def parse_format_utc)
  then show ?thesis
    by (simp add: parseExpirationFromRequest_def query_Get_def lookup_or_empty_def sample_week_upload_def sample_server_now)
qed

lemma sample_week_limit: "enforceMaxFileLifetimeForUser sample_web sample_capped_db zero_user sample_week = Inr ()"
  using sample_week_simps(4)
  by (simp add: enforceMaxFileLifetimeForUser_def zero_user_def sample_capped_settings FileLifetime_ExpirationFromTime_def
      FileLifetimeInfinite_days sample_server_now)
    (simp add: NewFileLifetimeInDays_def sample_week_def time_after_def)

lemma sample_week_accepted:
  "rs_status (fst (entryPost sample_web new_response sample_week_upload sample_capped_db)) = 200"
proof -
  let ?r = "sample_week_upload"
  let ?md = "sample_md\<lparr>um_ID := EntryID ''vwxyzABCDE'', um_OwnerID := UserID 0, um_Expires := sample_week\<rparr>"
  have parts: "FileSizeFromInt64 5 = Inr (FileSize 5)" "parse_FileNote [] = Inr None"
    by (simp_all add: FileSizeFromInt64_def FileSizeFromUint64_def parse_FileNote_iff)
  have name: "parse_Filename ''hello.txt'' = Inr ''hello.txt''" by code_simp
  have user: "fst (currentUser ?r) = zero_user"
    by (simp add: currentUser_def sample_week_upload_def sample_request_def)
  have up: "upload_from_request sample_web ?r sample_week [] (UserID 0) = Inr (sample_src, ?md)"
    by (simp add: upload_from_request_def ParseMultipartForm_def sample_week_upload_def sample_request_def within_limit_def
        and_then_def of_option_def parts name map_error_def parseContentType_def lookup_or_empty_def upload_passphrase_def
        ensure_def sample_new_id sample_server_now sample_md_def NoGuestLink_def)
  have "check_time sample_env (formatTime sample_week)"
    by (rule sample_check_time) (use sample_week_simps(1) sample_week_secs in \<open>simp_all add: sample_week_def\<close>)
  then have "entry_ok sample_env sample_capped_db (entry_row_of sample_capped_db ?md)"
    by (simp add: entry_ok_def entry_checks_def entry_row_of_def sample_md_def formatExpirationTime_def
        sample_check_time sample_now_secs downloadPassphraseString_def DownloadPassphrase_Empty_def
        Passphrase_Empty_def NoDownloadPassphrase_def inserted_owner_def NoGuestLink_def owner_column_def UserID_Empty_def)
  then have "\<exists>d1. InsertEntry sample_env sample_capped_db sample_src ?md = (Inr (), d1)"
    by (intro InsertEntry_succeeds) (simp_all add: sample_capped_db_rows)
  then obtain d1 where ins: "InsertEntry sample_env sample_capped_db sample_src ?md = (Inr (), d1)" by blast
  have id0: "usr_ID zero_user = UserID 0" by (simp add: zero_user_def)
  have et: "parseExpirationFromRequest sample_web ?r = Inr sample_week"
    using sample_week_expiration [of "rq_body ?r"] by simp
  show ?thesis
    unfolding entryPost_def Let_def et user sum.case sample_week_limit insertFileFromRequest_def id0 up prod.case sample_web_simps ins
    by (simp add: new_response_def)
qed

theorem lifetime_cap_binds_users_witness:
  "\<exists>d1 (md :: upload_metadata). entryPost sample_web new_response sample_week_upload sample_capped_db =
       (fst (entryPost sample_web new_response sample_week_upload sample_capped_db), d1) \<and>
     um_Expires md \<noteq> NeverExpire \<and> \<not> time_after (um_Expires md) (time_add sample_now (24 * hour * 7))"
proof -
  obtain w1 d1 where P: "entryPost sample_web new_response sample_week_upload sample_capped_db = (w1, d1)"
    by (metis surj_pair)
  have "rs_status w1 = 200" using sample_week_accepted P by simp
  moreover have "\<not> usr_IsAdmin (fst (currentUser sample_week_upload))"
    by (simp add: currentUser_def sample_week_upload_def sample_request_def zero_user_def)
  moreover have "set_MaxNonAdminFileLifetime (sample_settings\<lparr>set_MaxNonAdminFileLifetime := NewFileLifetimeInDays 7\<rparr>)
      \<noteq> FileLifetimeInfinite"
    by (simp add: FileLifetimeInfinite_days)
  moreover have "ReadSettings (wb_env sample_web) sample_capped_db =
      Inr (sample_settings\<lparr>set_MaxNonAdminFileLifetime := NewFileLifetimeInDays 7\<rparr>)"
    using sample_capped_settings by simp
  moreover have "lifetime_d (NewFileLifetimeInDays 7) = 24 * hour * 7" by (simp add: NewFileLifetimeInDays_def)
  ultimately obtain md :: upload_metadata where "um_Expires md \<noteq> NeverExpire"
    "\<not> time_after (um_Expires md) (time_add sample_now (24 * hour * 7))"
    using lifetime_cap_binds_users [where h = entryPost, OF _ _ _ P] by (auto simp: sample_server_now)
  with P show ?thesis by (intro exI [of _ d1] exI [of _ md]) simp
qed

section \<open>The upload form\<close>

lemma Days_Infinite: "FileLifetime_Days FileLifetimeInfinite = 36500"
  by (simp add: FileLifetimeInfinite_days)

lemma dense_options_days:
  assumes "unat capDays < 2 ^ 16 - 1"
  shows "(lt, b) \<in> set (dense_options k d capDays) \<Longrightarrow> \<not> b \<and> (\<exists>n. lt = NewFileLifetimeInDays n \<and> n \<le> capDays)"
  by (induction k arbitrary: d) (auto split: if_splits)

lemma dense_options_all:
  "unat n < unat d + k \<Longrightarrow> unat n < 65535 \<Longrightarrow> dense_options k d n =
     map (\<lambda>i. (NewFileLifetimeInDays (of_nat i), False)) [unat d..<Suc (unat n)]"
proof (induction k arbitrary: d)
  case (Suc k)
  show ?case
  proof (cases "d \<le> n")
    case True
    then have le: "unat d \<le> unat n" by (simp add: word_le_nat_alt)
    with Suc.prems(2) have "unat d + 1 < 2 ^ LENGTH(16)" by simp
    then have succ: "unat (d + 1) = unat d + 1" using unat_add_lem [of d 1] by simp
    have "dense_options k (d + 1) n =
        map (\<lambda>i. (NewFileLifetimeInDays (of_nat i), False)) [Suc (unat d)..<Suc (unat n)]"
      using Suc.IH [of "d + 1"] Suc.prems succ by simp
    with True le show ?thesis by (simp add: upt_conv_Cons del: upt_Suc)
  next
    case False
    then show ?thesis by (simp add: word_le_nat_alt)
  qed
qed simp

text \<open>C38: The loop over the lifetimes of the upload form ends because of the threshold before it. Its
  counter has 16 bits. For every cap but the largest value of the counter's type, the model's bound
  on the number of turns does not matter once it reaches the cap: the loop has ended by itself and
  offers every day from 1 to the cap; for caps within the threshold this is what the form offers.
  For a cap of 65535 days the loop would not end: it uses up every bound.\<close>

theorem lifetime_option_loop_ends:
  assumes "unat n < 65535" and "unat n \<le> k"
  shows "dense_options k 1 n = map (\<lambda>i. (NewFileLifetimeInDays (of_nat i), False)) [1..<Suc (unat n)] \<and>
    (set_MaxNonAdminFileLifetime st = NewFileLifetimeInDays n \<and> n \<le> denseLifetimeCapThresholdDays \<longrightarrow>
       capped_options st = dense_options k 1 n) \<and>
    length (dense_options k 1 65535) = k"
proof -
  have "length (dense_options j d 65535) = j" for j d
  proof (induction j arbitrary: d)
    case (Suc j)
    have "d \<le> 65535" using uint_lt2p [of d] by (simp add: word_le_def)
    with Suc show ?case by simp
  qed simp
  moreover have "capped_options st = dense_options k 1 n"
    if "set_MaxNonAdminFileLifetime st = NewFileLifetimeInDays n" "n \<le> denseLifetimeCapThresholdDays"
    using that assms dense_options_all [of n 1 k] dense_options_all [of n 1 30]
    by (simp add: capped_options_def denseLifetimeCapThresholdDays_def Let_def word_le_nat_alt)
  ultimately show ?thesis using dense_options_all [of n 1 k] assms by simp
qed

theorem lifetime_option_loop_ends_witness:
  "map fst (dense_options 3 1 2) = [NewFileLifetimeInDays 1, NewFileLifetimeInDays 2]"
  using lifetime_option_loop_ends [of 2 3] by (simp add: upt_conv_Cons)

lemma built_in_days:
  "(lt, b) \<in> set built_in_lifetimes \<Longrightarrow> \<not> b \<and> (\<exists>n. lt = NewFileLifetimeInDays n)"
  by (auto simp: built_in_lifetimes_def NewFileLifetimeInYears_def FileLifetimeInfinite_days)

lemma capped_options_days:
  assumes "set_MaxNonAdminFileLifetime st = NewFileLifetimeInDays n" and "(lt, b) \<in> set (capped_options st)"
  shows "\<not> b \<and> (\<exists>m. lt = NewFileLifetimeInDays m \<and> m \<le> n)"
proof (cases "n \<le> 30")
  case True
  then have "unat n < 2 ^ 16 - 1" by (simp add: word_le_nat_alt)
  with True assms dense_options_days [of n] show ?thesis
    by (auto simp: capped_options_def denseLifetimeCapThresholdDays_def Let_def)
next
  case False
  with assms built_in_days show ?thesis
    by (fastforce simp: capped_options_def denseLifetimeCapThresholdDays_def Let_def split: if_splits)
qed

text \<open>C36: The upload form offers what the handlers accept. For a user under a cap, every lifetime it
  offers is at most the cap; for everyone, exactly the option of the default lifetime (cut to the cap)
  is selected, and it is always there.\<close>

theorem upload_form_offers_permitted_lifetimes:
  assumes "set_MaxNonAdminFileLifetime st = NewFileLifetimeInDays n" and "set_DefaultFileLifetime st = NewFileLifetimeInDays m"
  shows "(\<forall>(lt, selected) \<in> set (upload_options u st).
      (selected \<longleftrightarrow> lt = default_lifetime u st) \<and> (hasLifetimeCap u st \<longrightarrow> FileLifetime_Days lt \<le> n)) \<and>
    (default_lifetime u st, True) \<in> set (upload_options u st) \<and>
    default_lifetime u st = NewFileLifetimeInDays (if hasLifetimeCap u st then min m n else m)"
proof -
  define opts where "opts = (if hasLifetimeCap u st then capped_options st else built_in_lifetimes)"
  define dflt where "dflt = default_lifetime u st"
  have opts: "\<not> b \<and> (\<exists>k. lt = NewFileLifetimeInDays k \<and> (hasLifetimeCap u st \<longrightarrow> k \<le> n))"
    if "(lt, b) \<in> set opts" for lt b
    using that capped_options_days [OF assms(1)] built_in_days by (auto simp: opts_def split: if_splits)
  have d: "dflt = NewFileLifetimeInDays (if hasLifetimeCap u st then min m n else m)"
    using assms by (auto simp: dflt_def default_lifetime_def min_def)
  have members: "x \<in> set (upload_options u st) \<longleftrightarrow>
      (\<exists>lt b. (lt, b) \<in> set opts \<and> x = (lt, lt = dflt)) \<or> (x = (dflt, True) \<and> dflt \<notin> fst ` set opts)" for x
  proof (cases "dflt \<in> fst ` set opts")
    case True
    then have "upload_options u st = mark_default dflt opts"
      by (auto simp: upload_options_def opts_def [symmetric] dflt_def [symmetric] Let_def list_ex_iff)
    moreover have "mark_default dflt opts = map (\<lambda>(lt, b). (lt, lt = dflt)) opts"
      unfolding mark_default_def by (rule map_cong [OF refl]) (auto dest: opts)
    ultimately have "x \<in> set (upload_options u st) \<longleftrightarrow> (\<exists>y \<in> set opts. x = (fst y, fst y = dflt))"
      by force
    with True show ?thesis by (metis fst_conv surj_pair)
  next
    case False
    then have "set (upload_options u st) = insert (dflt, True) (set opts)"
      by (force simp: upload_options_def opts_def [symmetric] dflt_def [symmetric] Let_def list_ex_iff)
    moreover have sel: "b = (lt = dflt)" if "(lt, b) \<in> set opts" for lt b
      using that opts False by (metis fst_conv image_eqI)
    ultimately show ?thesis using False by (cases x) (auto dest: sel)
  qed
  have days: "FileLifetime_Days lt \<le> n" if "hasLifetimeCap u st" "(lt, b) \<in> set opts \<or> lt = dflt" for lt b
    using that d by (auto dest!: opts)
  have "(dflt, True) \<in> set (upload_options u st)"
  proof (cases "dflt \<in> fst ` set opts")
    case True
    then show ?thesis using members [of "(dflt, True)"] by auto
  next
    case False
    then show ?thesis using members [of "(dflt, True)"] by simp
  qed
  moreover have "(selected \<longleftrightarrow> lt = dflt) \<and> (hasLifetimeCap u st \<longrightarrow> FileLifetime_Days lt \<le> n)"
    if "(lt, selected) \<in> set (upload_options u st)" for lt selected
    using members [of "(lt, selected)"] that days by auto
  ultimately show ?thesis using d unfolding dflt_def [symmetric] by blast
qed

theorem upload_form_offers_permitted_lifetimes_witness:
  "(NewFileLifetimeInDays 7, True) \<in> set (upload_options zero_user sample_settings)"
proof -
  have "set_MaxNonAdminFileLifetime sample_settings = NewFileLifetimeInDays 14"
    "set_DefaultFileLifetime sample_settings = NewFileLifetimeInDays 7"
    by (simp_all add: sample_settings_def)
  from upload_form_offers_permitted_lifetimes [OF this, of zero_user] show ?thesis by (auto simp: min_def split: if_splits)
qed

text \<open>The upload form does not sort its options. The comparison it sorts with, \<open>LessThan\<close>, is equality,
  so an administrator whose default is 14 days is offered 1 day, 7 days, 30 days, 1 year, never, and
  14 days last.\<close>

lemma upload_options_are_not_sorted:
  "(FileLifetime_LessThan a b \<longleftrightarrow> a = b) \<and>
   map fst (upload_options (zero_user\<lparr>usr_IsAdmin := True\<rparr>)
       (sample_settings\<lparr>set_DefaultFileLifetime := NewFileLifetimeInDays 14\<rparr>)) =
     map NewFileLifetimeInDays [1, 7, 30, 365, 36500, 14]"
proof -
  have "FileLifetime_LessThan a b \<longleftrightarrow> a = b" by (cases a; cases b) (simp add: FileLifetime_LessThan_def)
  moreover have "map fst (upload_options (zero_user\<lparr>usr_IsAdmin := True\<rparr>)
       (sample_settings\<lparr>set_DefaultFileLifetime := NewFileLifetimeInDays 14\<rparr>)) =
     map NewFileLifetimeInDays [1, 7, 30, 365, 36500, 14]"
    by code_simp
  ultimately show ?thesis by blast
qed

section \<open>Pages\<close>

lemma newest_first_stable:
  "sorted_wrt (\<lambda>a b. \<not> time_after (um_Uploaded b) (um_Uploaded a))
     (SliceStable (\<lambda>a b. time_after (um_Uploaded a) (um_Uploaded b)) es)"
proof -
  have "SliceStable (\<lambda>a b. time_after (um_Uploaded a) (um_Uploaded b)) es = sort_key (\<lambda>e. - t_ns (um_Uploaded e)) es"
    by (rule SliceStable_sort_key) (simp add: time_after_def)
  moreover have "sorted_wrt (\<lambda>a b. - t_ns (um_Uploaded a) \<le> - t_ns (um_Uploaded b)) (sort_key (\<lambda>e. - t_ns (um_Uploaded e)) es)"
    using sorted_sort_key [of "\<lambda>e. - t_ns (um_Uploaded e)" es] by (simp add: sorted_map)
  ultimately show ?thesis by (simp add: time_after_def not_less)
qed

lemma newest_first:
  "sorted_wrt (\<lambda>a b. \<not> time_after (um_Uploaded b) (um_Uploaded a))
     (sort_Slice ties (\<lambda>a b. time_after (um_Uploaded a) (um_Uploaded b)) es)"
  unfolding sort_Slice_def by (rule newest_first_stable)

lemma entry_list_item_id:
  assumes "entry_list_item d x = Inr m"
  shows "er_id x = EntryID_value (um_ID m)"
proof -
  obtain i where i: "EntryIDFromString (er_id x) = Inr i"
    using assms by (cases "EntryIDFromString (er_id x)")
      (auto simp: entry_list_item_def wrap_domain_def and_then_def split: option.splits)
  then have "um_ID m = i"
    using assms by (cases "er_expiration_time x")
      (simp_all add: entry_list_item_def wrap_domain_def and_then_eq_Inr_iff, elim exE conjE, auto)
  with i show ?thesis by (simp add: EntryIDFromString_iff)
qed

text \<open>C31: The file index is a user's own files, newest first. The page lists exactly the stored
  entries that have content and belong to the requester, each once, in the order of their upload
  times, the newest first, and shows no owners.\<close>

theorem file_index_lists_own_files:
  assumes "rs_body (fst (fileIndexGet W w r d)) = PageBody (FilesPage es showOwner) props"
    and "rq_user r = Some u" and "\<not> UserID_Empty (usr_ID u)" and "no_faults (wb_env W) OpGetEntriesMetadata"
  shows "mset (map (EntryID_value \<circ> um_ID) es) =
      mset (map er_id (filter (\<lambda>x. has_chunks d (er_id x) \<and>
        er_owner_user_id x = Some (UserID_Int64 (usr_ID u))) (entries d))) \<and>
    sorted_wrt (\<lambda>a b. \<not> time_after (um_Uploaded b) (um_Uploaded a)) es \<and> \<not> showOwner"
proof -
  obtain em where em: "GetEntriesMetadata (wb_env W) d [usr_ID u] = Inr em"
    and es: "es = sort_Slice (wb_ties W) (\<lambda>a b. time_after (um_Uploaded a) (um_Uploaded b)) em" "\<not> showOwner"
    using assms(1) renderPage_body
    by (auto simp: fileIndexGet_def fileIndexGetWithOptions_def assms(2) renderPage_def currentUser_def
        split: sum.splits option.splits)
  let ?rows = "filter (\<lambda>x. has_chunks d (er_id x) \<and> er_owner_user_id x = Some (UserID_Int64 (usr_ID u))) (entries d)"
  have "list_all2 (\<lambda>x m. entry_list_item d x = Inr m) ?rows em"
    using em assms(3,4) by (simp add: GetEntriesMetadata_def and_then_eq_Inr_iff Let_def map_result_Inr_iff
        ResolveReadEntriesOptions_def)
  then have "list_all2 (\<lambda>x m. er_id x = EntryID_value (um_ID m)) ?rows em"
    by (rule list_all2_mono) (rule entry_list_item_id)
  then have "map (EntryID_value \<circ> um_ID) em = map er_id ?rows"
    by (induction rule: list_all2_induct) simp_all
  moreover have "mset (map (EntryID_value \<circ> um_ID) es) = mset (map (EntryID_value \<circ> um_ID) em)"
    unfolding es by (simp only: mset_map mset_sort_Slice)
  ultimately have "mset (map (EntryID_value \<circ> um_ID) es) = mset (map er_id ?rows)" by simp
  with es newest_first show ?thesis by simp
qed

definition sample_own_db :: db where
  "sample_own_db = snd (InsertEntry sample_env sample_db2 sample_src sample_up_md)"

lemma sample_own_db_eq:
  "sample_own_db = sample_db2\<lparr>entries_data := entries_data sample_db2 @ file_rows ''vwxyzABCDE'' 4 ''hello'',
     entries := entries sample_db2 @ [entry_row_of sample_db2 sample_up_md]\<rparr>"
proof -
  obtain d1 where "InsertEntry sample_env sample_db2 sample_src sample_up_md = (Inr (), d1)" "d1 = sample_own_db"
    using sample_up_stored by (auto simp: sample_own_db_def)
  from InsertEntry_ok(2) [OF this(1)] this(2) show ?thesis by (simp add: sample_up_md_def)
qed

lemma sample_own_item: "\<exists>m. entry_list_item sample_own_db (entry_row_of sample_db2 sample_up_md) = Inr m"
proof -
  have "EntryIDFromString ''vwxyzABCDE'' = Inr (EntryID ''vwxyzABCDE'')"
    by (auto simp: EntryIDFromString_iff entryIDCharacters_def)
  moreover have "file_bytes sample_own_db ''vwxyzABCDE'' = 5"
    by (simp add: sample_own_db_eq sample_db2_def sample_db_eq file_bytes_def file_rows_slices upt_rec)
  moreover have "users sample_own_db = [sample_user_row]" by (simp add: sample_own_db_eq sample_db2_def)
  moreover note sample_user_texts(2)
  ultimately show ?thesis
    by (simp add: entry_list_item_def entry_row_of_def sample_up_md_def sample_md_def formatExpirationTime_def
        inserted_owner_def NoGuestLink_def owner_column_def UserID_Empty_def wrap_domain_def
        FileSizeFromUint64_def owner_username_def ownerFromColumns_def sample_user_row_def)
qed

theorem file_index_lists_own_files_witness:
  "\<exists>es props. rs_body (fst (fileIndexGet sample_web new_response
       (sample_request\<lparr>rq_user := Some sample_user, rq_nonce := Some []\<rparr>) sample_own_db)) =
     PageBody (FilesPage es False) props \<and> map (EntryID_value \<circ> um_ID) es = [''vwxyzABCDE'']"
proof -
  let ?r = "sample_request\<lparr>rq_user := Some sample_user, rq_nonce := Some []\<rparr>"
  obtain m where m: "entry_list_item sample_own_db (entry_row_of sample_db2 sample_up_md) = Inr m"
    using sample_own_item by blast
  have own: "er_owner_user_id sample_row = None" "er_owner_user_id (entry_row_of sample_db2 sample_up_md) = Some 1"
    "er_id (entry_row_of sample_db2 sample_up_md) = ''vwxyzABCDE''"
    by (simp_all add: sample_row_def sample_entry_row)
      (simp_all add: entry_row_of_def inserted_owner_def sample_up_md_def sample_md_def NoGuestLink_def
        owner_column_def UserID_Empty_def)
  have rows: "filter (\<lambda>x. has_chunks sample_own_db (er_id x) \<and> er_owner_user_id x = Some 1) (entries sample_own_db) =
      [entry_row_of sample_db2 sample_up_md]"
    using own by (simp add: sample_own_db_eq sample_db2_def sample_db_eq sample_row_def has_chunks_def file_rows_slices upt_rec)
  have "GetEntriesMetadata sample_env sample_own_db [UserID 1] = Inr [m]"
    using rows m by (simp add: GetEntriesMetadata_def stmt_def ResolveReadEntriesOptions_def UserID_Empty_def)
  then obtain es props where b: "rs_body (fst (fileIndexGet sample_web new_response ?r sample_own_db)) =
      PageBody (FilesPage es False) props"
    by (simp add: fileIndexGet_def fileIndexGetWithOptions_def currentUser_def sample_user_def renderPage_def
        makeCommonProps_def Let_def cspNonce_def)
  have "mset (map (EntryID_value \<circ> um_ID) es) = {#''vwxyzABCDE''#}"
    using file_index_lists_own_files [OF b, of sample_user] rows own
    by (simp add: sample_user_def UserID_Empty_def)
  then have "map (EntryID_value \<circ> um_ID) es = [''vwxyzABCDE'']" by (simp only: mset_single_iff)
  with b show ?thesis by (intro exI [of _ es] exI [of _ props] conjI)
qed

text \<open>Asked for unique downloads only, the page shows the first download of every address. The
  filter keeps the order, keeps exactly one download for each client address that occurs, and that is
  the first one in the list.\<close>

theorem unique_downloads_keep_the_first:
  "subseq (unique_downloads {} ds) ds \<and> distinct (map dr_ClientIP (unique_downloads {} ds)) \<and>
   dr_ClientIP ` set (unique_downloads {} ds) = dr_ClientIP ` set ds \<and>
   set (unique_downloads {} ds) = {x. find (\<lambda>y. dr_ClientIP y = dr_ClientIP x) ds = Some x}"
proof -
  have "subseq (unique_downloads S ds) ds \<and> distinct (map dr_ClientIP (unique_downloads S ds)) \<and>
    dr_ClientIP ` set (unique_downloads S ds) = dr_ClientIP ` set ds - S \<and>
    set (unique_downloads S ds) = {x. dr_ClientIP x \<notin> S \<and> find (\<lambda>y. dr_ClientIP y = dr_ClientIP x) ds = Some x}" for S
  proof (induction ds arbitrary: S)
    case (Cons a ds)
    show ?case
    proof (cases "dr_ClientIP a \<in> S")
      case True
      with Cons [of S] show ?thesis by (auto intro: subseq_Cons')
    next
      case False
      with Cons [of "insert (dr_ClientIP a) S"] show ?thesis by (auto split: if_splits)
    qed
  qed simp
  from this [of "{}", unfolded empty_iff not_False_eq_True simp_thms Diff_empty] show ?thesis .
qed

end
