(* ===== verification/SampleRun.thy ===== *)
theory SampleRun
  imports WebProperties Safety
begin

text \<open>
  A run of a whole server for the witnesses: the first login makes its user an administrator, who
  makes a guest link for one file, through which a guest uploads one. Then a second user logs in, who is
  no administrator.
\<close>

section \<open>Requests that reach their handlers\<close>

text \<open>A public page reaches its handler unless a proxy says the request came by plain HTTP.\<close>

lemma public_view_handled:
  assumes "fresh_request r" and "fst (registration rt) = PublicViews" and "header_Get r ''X-Forwarded-Proto'' \<noteq> ''http''"
  shows "\<exists>w0 l n. serve P rt W r s = handler_of P rt W w0
    (r\<lparr>rq_user := session_user (wb_env W) r (sv_db s), rq_localizer := l, rq_nonce := n\<rparr>) s"
  using assms
  by (simp add: serve_def middleware_def fresh_request_def loadSession_user upgradeToHttps_def header_Get_def
      resolveLanguage_def enforceContentSecurityPolicy_def Let_def) blast

lemma root_handled:
  assumes "fresh_request r" and "fst (registration rt) \<in> {Root, PublicApis}"
  shows "serve P rt W r s =
    handler_of P rt W new_response (r\<lparr>rq_user := session_user (wb_env W) r (sv_db s)\<rparr>) s"
  using assms by (auto simp: serve_def middleware_def fresh_request_def loadSession_user)

lemma signed_in_handled:
  assumes "fresh_request r" and "fst (registration rt) = AuthenticatedApis" and "session_user (wb_env W) r (sv_db s) = Some u"
  shows "serve P rt W r s = handler_of P rt W new_response (r\<lparr>rq_user := Some u\<rparr>) s"
  using assms by (simp add: serve_def middleware_def fresh_request_def loadSession_user requireAuthentication_def isAuthenticated_def)

lemma no_origin_allowed: "header_Get r ''Sec-Fetch-Site'' = [] \<Longrightarrow> header_Get r ''Origin'' = [] \<Longrightarrow> cross_origin_allowed W m r"
  by (simp add: cross_origin_allowed_def)

lemma start_fields: "sv_db (start_state c d) = d" "sv_client (start_state c d) = c"
  by (simp_all add: start_state_def)

section \<open>The first login\<close>

text \<open>The provider of this run knows two people by their codes.\<close>

definition run_second_identity :: user_identity where
  "run_second_identity = \<lparr>ui_Subject = OIDCSubject ''sub2'', ui_Username = Username ''bob'', ui_Email = NoEmailAddress\<rparr>"

definition run_identity :: "request \<Rightarrow> user_identity" where
  "run_identity r = (if query_Get r ''code'' = ''bob'' then run_second_identity else sample_identity)"

definition run_params :: "(unit, unit) server_params" where
  "run_params = sample_params\<lparr>sp_IdentityProvider :=
     \<lparr>idp_Redirect = (\<lambda>W w r cd. (w, ())), idp_Callback = (\<lambda>W w r cd. (Inr (run_identity r), w, ()))\<rparr>\<rparr>"

lemma run_callback: "idp_Callback (sp_IdentityProvider run_params) = (\<lambda>W w r cd. (Inr (run_identity r), w, ()))"
  by (simp add: run_params_def)

definition run_login :: "unit server_state" where
  "run_login = snd (protectedRouter run_params OidcCallbackGet sample_web sample_request (start_state () initial_db))"

definition run_cookies :: "(string \<times> string) list" where
  "run_cookies = [(sessionCookieName, SessionToken_String (NewSessionToken (\<lambda>i. i + 20)))]"

lemma sample_login:
  assumes "request_token r = None"
  shows "\<exists>w1 d1. completeLogin sample_web w r sample_identity initial_db = (None, w1, d1) \<and> keys_ok d1 \<and>
    users d1 = [sample_user_row] \<and> entries d1 = [] \<and> entries_data d1 = [] \<and> guest_links d1 = [] \<and>
    list_all (\<lambda>x. sr_token_hash x = SessionTokenHash_String (SessionToken_Hash (NewSessionToken (\<lambda>i. i + 20)))) (sessions d1)"
proof -
  obtain u d1 where u: "RecordUserLogin sample_env initial_db sample_identity = (Inr u, d1)" "usr_ID u = UserID 1"
    "users d1 = [sample_user_row]" "sessions d1 = []"
    using sample_first_user [of initial_db] by auto
  have rows: "entries d1 = [] \<and> entries_data d1 = [] \<and> guest_links d1 = []"
    using RecordUserLogin_users [OF u(1)] insert_user_ok(4) [of sample_env initial_db sample_identity _ d1]
    by (auto dest!: claimOwnerlessRows_ok)
  have "sq_length sample_env (SessionTokenHash_String (SessionToken_Hash t)) = 64" for t
    by (simp add: SessionToken_Hash_def rune_count_ascii ascii_hex length_hex_encode)
  moreover have "check_time sample_env (formatTime (time_add sample_now (30 * 24 * hour)))"
    by (rule sample_check_time) (simp_all only: text_range_def sample_month_secs, simp_all)
  ultimately show ?thesis
    using RecordUserLogin_db_ok [OF initial_db_ok, of sample_env sample_identity] u rows assms
    by (simp add: completeLogin_def revoke_request_session_def sample_server_now sessionLifetime_def
        Let_def InsertSession_def session_row_of_def session_ok_def sample_check_time sample_now_secs
        sample_user_row_def keys_ok_def db_ok_def)
qed

lemma run_login_db:
  "keys_ok (sv_db run_login) \<and> users (sv_db run_login) = [sample_user_row] \<and> entries (sv_db run_login) = [] \<and>
   entries_data (sv_db run_login) = [] \<and> guest_links (sv_db run_login) = [] \<and>
   list_all (\<lambda>x. sr_token_hash x = SessionTokenHash_String (SessionToken_Hash (NewSessionToken (\<lambda>i. i + 20))))
     (sessions (sv_db run_login)) \<and>
   (\<forall>r. rq_cookies r = run_cookies \<longrightarrow> (\<exists>u. session_user sample_env r (sv_db run_login) = Some u \<and> usr_ID u = UserID 1))"
proof -
  have site: "header_Get sample_request h = []" for h by (simp add: header_Get_def sample_request_def lookup_or_empty_def)
  obtain w0 l n where S: "serve run_params OidcCallbackGet sample_web sample_request (start_state () initial_db) =
      handler_of run_params OidcCallbackGet sample_web w0
        (sample_request\<lparr>rq_user := None, rq_localizer := l, rq_nonce := n\<rparr>) (start_state () initial_db)"
    using public_view_handled [of sample_request OidcCallbackGet run_params sample_web "start_state () initial_db"]
    by (auto simp: site)
  let ?r = "sample_request\<lparr>rq_user := None, rq_localizer := l, rq_nonce := n\<rparr>"
  have tok: "request_token ?r = None" by (simp add: request_token_def request_Cookie_def sample_request_def)
  obtain w1 d1 where L: "completeLogin sample_web w0 ?r sample_identity initial_db = (None, w1, d1)" and d1: "keys_ok d1"
    "users d1 = [sample_user_row]" "entries d1 = []" "entries_data d1 = []" "guest_links d1 = []"
    "list_all (\<lambda>x. sr_token_hash x = SessionTokenHash_String (SessionToken_Hash (NewSessionToken (\<lambda>i. i + 20)))) (sessions d1)"
    using sample_login [OF tok, of w0] by blast
  have identity: "run_identity ?r = sample_identity"
    by (simp add: run_identity_def query_Get_def lookup_or_empty_def sample_request_def)
  have "sv_db run_login = d1"
    using L by (simp add: run_login_def protectedRouter_def no_origin_allowed site S on_client_def oidcCallbackGet_def
        run_callback identity start_fields)
  moreover have "\<exists>u. session_user sample_env r d1 = Some u \<and> usr_ID u = UserID 1" if "rq_cookies r = run_cookies" for r
  proof -
    have c: "request_Cookie r sessionCookieName = Some (SessionToken_String (NewSessionToken (wb_draw sample_web)))"
      using that by (simp add: request_Cookie_def run_cookies_def)
    have t: "text_range (time_add (server_now sample_web) sessionLifetime)"
      unfolding sessionLifetime_def by (simp only: sample_server_now text_range_def sample_month_secs) simp
    have now: "unix_secs (st_now sample_env) < unix_secs (time_add (server_now sample_web) sessionLifetime)"
      unfolding sessionLifetime_def by (simp only: sample_server_now sample_month_secs sample_env_simps sample_now_secs)
    have "datetime_law sample_env" "text_range (st_now sample_env)" "\<not> sq_fault sample_env OpGetSessionUser 0" by simp_all
    from completeLogin_session [OF L d1(1) c this(1,2) t now this(3)] sample_first_user [of initial_db]
    show ?thesis by auto
  qed
  ultimately show ?thesis using d1 by simp
qed

section \<open>A guest link for one file\<close>

definition run_link_form :: "(string \<times> json) list" where
  "run_link_form =
     [(''label'', JString []), (''urlExpirationTime'', JString (formatTime NeverExpire)),
      (''fileLifetime'', JString (FileLifetime_String (NewFileLifetimeInDays 7))), (''maxFileUploads'', JInt 1)]"

definition run_link_request :: request where
  "run_link_request = sample_request\<lparr>rq_cookies := run_cookies, rq_body := JsonBody (JObject run_link_form)\<rparr>"

definition run_link :: guest_link where
  "run_link = NoGuestLink\<lparr>gl_ID := ''abcdefghijkmnopq'', gl_OwnerID := UserID 1,
     gl_Created := sample_now, gl_UrlExpires := NeverExpire, gl_MaxFileLifetime := NewFileLifetimeInDays 7,
     gl_MaxFileUploads := Some 1\<rparr>"

text \<open>A server like the sample one, with other random draws.\<close>

definition other_web :: web where
  "other_web = sample_web\<lparr>wb_draw := (\<lambda>i. i)\<rparr>"

lemma other_web_simps [simp]: "wb_env other_web = sample_env" "wb_wall other_web = sample_now" "wb_draw other_web = (\<lambda>i. i)"
  by (simp_all add: other_web_def sample_web_def)

definition run_linked :: "unit server_state" where
  "run_linked = snd (protectedRouter run_params GuestLinksPost other_web run_link_request run_login)"

lemma lower_link_names:
  "map to_lower ''label'' = ''label''" "map to_lower ''urlExpirationTime'' = ''urlexpirationtime''"
  "map to_lower ''fileLifetime'' = ''filelifetime''" "map to_lower ''maxFileUploads'' = ''maxfileuploads''"
  "map to_lower ''maxFileBytes'' = ''maxfilebytes''"
  by (code_simp, code_simp, code_simp, code_simp, code_simp)

lemma run_link_values:
  "string_field ''label'' run_link_form = Some []"
  "string_field ''urlExpirationTime'' run_link_form = Some (formatTime NeverExpire)"
  "string_field ''fileLifetime'' run_link_form = Some (FileLifetime_String (NewFileLifetimeInDays 7))"
  "u64_ptr_field ''maxFileBytes'' run_link_form = Some None"
  "int_ptr_field ''maxFileUploads'' run_link_form = Some (Some 1)"
  unfolding field_values_def run_link_form_def filter.simps case_prod_conv lower_link_names
  by (simp_all add: json_string_def json_int_ptr_def)

lemma run_link_parsed:
  "guestLinkFromRequest other_web (run_link_request\<lparr>rq_user := u\<rparr>) =
     Inr (run_link\<lparr>gl_ID := [], gl_OwnerID := NoOwner, gl_Created := zero_time\<rparr>)"
proof -
  have json: "decode_json (run_link_request\<lparr>rq_user := u\<rparr>) = Some run_link_form"
    by (simp add: decode_json_def run_link_request_def sample_request_def within_limit_def json_fields_def)
  have life: "parse_FileLifetimeFromString (FileLifetime_String (NewFileLifetimeInDays 7)) = Inr (NewFileLifetimeInDays 7)"
    by (simp add: parse_FileLifetimeFromString_iff FileLifetime_String_def NewFileLifetimeInDays_def
        parse_duration_string duration_defs)
  have now: "server_now other_web = sample_now" by (simp add: server_now_def)
  show ?thesis
    by (simp add: guestLinkFromRequest_def and_then_def of_option_def map_error_def json run_link_values life now
        parse_GuestLinkLabel_def sample_parse_expiration parseMaxFileBytes_def parseUploadCountLimit_def run_link_def
        NoGuestLink_def)
qed

lemma run_link_id: "generateGuestLinkID (\<lambda>i. i) = ''abcdefghijkmnopq''"
  by (simp add: generateGuestLinkID_def random_String_def GuestLinkIDLength_def guestLinkIDCharacters_def upt_rec)

lemma run_link_row:
  "guest_link_row_of run_link =
     \<lparr>glr_id = ''abcdefghijkmnopq'', glr_label = [], glr_is_disabled = False, glr_max_file_bytes = None,
      glr_max_file_uploads = Some 1, glr_creation_time = formatTime sample_now,
      glr_url_expiration_time = Some (formatTime NeverExpire),
      glr_file_expiration_time = glr_file_expiration_time (guest_link_row_of run_link),
      glr_owner_user_id = Some 1\<rparr>"
  by (simp add: guest_link_row_of_def run_link_def NoGuestLink_def formatExpirationTime_def owner_column_def
      UserID_Empty_def)

lemma run_link_ok: "users d = [sample_user_row] \<Longrightarrow> guest_link_ok sample_env d (guest_link_row_of run_link)"
  unfolding guest_link_ok_def
  by (subst run_link_row, simp add: sample_check_time sample_now_secs NeverExpire_secs rune_count_def sample_user_row_def)+

lemma run_linked_db:
  "sv_db run_linked = (sv_db run_login)\<lparr>guest_links := [guest_link_row_of run_link]\<rparr>"
proof -
  let ?d = "sv_db run_login"
  have site: "header_Get run_link_request h = []" for h
    by (simp add: header_Get_def run_link_request_def sample_request_def lookup_or_empty_def)
  have fresh: "fresh_request run_link_request" by (simp add: fresh_request_def run_link_request_def sample_request_def)
  have "rq_cookies run_link_request = run_cookies" by (simp add: run_link_request_def)
  then obtain u where u: "session_user sample_env run_link_request ?d = Some u" "usr_ID u = UserID 1"
    using run_login_db by blast
  have "InsertGuestLink sample_env ?d run_link = (Inr (), ?d\<lparr>guest_links := [guest_link_row_of run_link]\<rparr>)"
    using run_link_ok [of ?d] run_login_db arg_cong [OF run_link_row, of glr_max_file_bytes]
    by (simp add: InsertGuestLink_def Let_def)
  moreover have "run_link\<lparr>gl_ID := [], gl_OwnerID := NoOwner, gl_Created := zero_time,
      gl_ID := ''abcdefghijkmnopq'', gl_OwnerID := UserID 1, gl_Created := sample_now\<rparr> = run_link"
    by (simp add: run_link_def)
  ultimately show ?thesis
    using signed_in_handled [OF fresh, of GuestLinksPost other_web run_login u run_params] u(1)
    by (simp add: run_linked_def protectedRouter_def no_origin_allowed site on_db_def guestLinksPost_def run_link_parsed
        run_link_id u(2) Let_def server_now_def split: prod.split)
qed

section \<open>An upload through it\<close>

lemma run_link_fields:
  "glr_id (guest_link_row_of run_link) = ''abcdefghijkmnopq''" "glr_owner_user_id (guest_link_row_of run_link) = Some 1"
  "glr_max_file_uploads (guest_link_row_of run_link) = Some 1"
  by (subst run_link_row, simp)+

lemma run_linked_rows:
  "guest_links (sv_db run_linked) = [guest_link_row_of run_link]" "entries (sv_db run_linked) = []"
  "entries_data (sv_db run_linked) = []" "users (sv_db run_linked) = [sample_user_row]"
  "sessions (sv_db run_linked) = sessions (sv_db run_login)"
  using run_login_db by (simp_all add: run_linked_db)

lemma run_link_owner:
  "\<forall>r \<in> set (guest_links (sv_db run_linked)). check_null (\<lambda>i. i \<in> ur_id ` set (users (sv_db run_linked))) (glr_owner_user_id r)"
  by (simp add: run_linked_rows run_link_fields sample_user_row_def)

text \<open>Any server with the sample store lets the upload pass the check.\<close>

lemma run_upload_checked:
  assumes "wb_env W = sample_env" and "wb_wall W = sample_now"
  shows "guest_check W w sample_guest_upload (sv_db run_linked) =
    Inr (sample_guest_upload, ''abcdefghijkmnopq'', sample_week)"
proof (rule guest_upload_checked [OF assms])
  let ?gl = "as_stored_guest_link run_link 0"
  have "storable_guest_link run_link"
    by (simp add: storable_guest_link_def run_link_def NewFileLifetimeInDays_def duration_defs)
  moreover have "gl_ID run_link = ''abcdefghijkmnopq''"
    by (simp add: run_link_def)
  ultimately show "GetGuestLink sample_env (sv_db run_linked) ''abcdefghijkmnopq'' = Inr ?gl"
    by (simp add: GetGuestLink_def stmt_def run_linked_rows run_link_fields entry_count_def guestLinkFromRow_of)
  show "GuestLink_IsActive sample_now ?gl" "gl_MaxFileBytes ?gl = None" "gl_MaxFileLifetime ?gl = NewFileLifetimeInDays 7"
    by (simp_all add: GuestLink_IsActive_def GuestLink_IsExpired_def GuestLink_CanAcceptMoreFiles_def
        as_stored_guest_link_def run_link_def NoGuestLink_def trunc_NeverExpire)
qed

definition run_uploaded :: "unit server_state" where
  "run_uploaded = snd (protectedRouter run_params GuestEntryPost sample_web sample_guest_upload run_linked)"

lemma run_new_ids: "NewEntryID (wb_draw sample_web) = EntryID ''vwxyzABCDE''" "NewEntryID (wb_draw other_web) = EntryID ''abcdefghij''"
  by (simp_all add: sample_new_id NewEntryID_def random_String_def EntryIDLength_def entryIDCharacters_def upt_rec)

lemma sample_web_wall [simp]: "wb_wall sample_web = sample_now"
  by (simp add: sample_web_def)

definition run_entry :: entry_row where
  "run_entry = entry_row_of (sv_db run_linked) (sample_guest_md\<lparr>um_ID := EntryID ''vwxyzABCDE''\<rparr>)"

lemma run_entry_id [simp]: "er_id run_entry = ''vwxyzABCDE''"
  by (simp add: run_entry_def entry_row_of_def)

lemma run_entry_owner: "er_owner_user_id run_entry = Some 1"
proof -
  have "inserted_owner (sv_db run_linked) (sample_guest_md\<lparr>um_ID := EntryID ''vwxyzABCDE''\<rparr>) = Some 1"
    unfolding inserted_owner_def sample_guest_md_def run_linked_rows
    by (simp add: NoGuestLink_def run_link_fields del: guest_link_row_of_id)
  then show ?thesis by (simp add: run_entry_def entry_row_of_def)
qed

lemma run_first_upload:
  obtains a d1 where "guest_store sample_web new_response (sample_guest_upload, ''abcdefghijkmnopq'', sample_week) (sv_db run_linked) = (a, d1)"
    "rs_status a = 200" "guest_links d1 = [guest_link_row_of run_link]" "users d1 = [sample_user_row]"
    "entries_data d1 = file_rows ''vwxyzABCDE'' 4 ''hello''" "er_id ` set (entries d1) = {''vwxyzABCDE''}"
    "entry_count d1 ''abcdefghijkmnopq'' = 1" "entries d1 = [run_entry]" "sessions d1 = sessions (sv_db run_linked)"
proof -
  obtain a d1 where st: "guest_store sample_web new_response (sample_guest_upload, ''abcdefghijkmnopq'', sample_week)
        (sv_db run_linked) = (a, d1)" "rs_status a = 200"
    and I: "InsertEntry sample_env (sv_db run_linked) sample_src (sample_guest_md\<lparr>um_ID := EntryID ''vwxyzABCDE''\<rparr>) = (Inr (), d1)"
    by (rule sample_guest_store [OF _ run_new_ids(1) _ _ run_link_owner]) (simp_all add: run_linked_rows)
  have d1: "d1 = (sv_db run_linked)\<lparr>entries_data := file_rows ''vwxyzABCDE'' 4 ''hello'',
      entries := [entry_row_of (sv_db run_linked) (sample_guest_md\<lparr>um_ID := EntryID ''vwxyzABCDE''\<rparr>)]\<rparr>"
    using InsertEntry_ok(2) [OF I] by (simp add: run_linked_rows)
  have "entry_count d1 ''abcdefghijkmnopq'' = entry_count (sv_db run_linked) ''abcdefghijkmnopq'' + 1"
    by (rule guest_store_ok [OF st]) simp_all
  with that [OF st] show ?thesis by (simp add: d1 run_linked_rows entry_count_def run_entry_def)
qed

lemma run_uploaded_db:
  "guest_links (sv_db run_uploaded) = [guest_link_row_of run_link] \<and> entry_count (sv_db run_uploaded) ''abcdefghijkmnopq'' = 1 \<and>
   entries (sv_db run_uploaded) = [run_entry] \<and> users (sv_db run_uploaded) = [sample_user_row] \<and>
   sessions (sv_db run_uploaded) = sessions (sv_db run_login)"
proof -
  have site: "header_Get sample_guest_upload h = []" for h
    by (simp add: header_Get_def sample_guest_upload_def sample_request_def lookup_or_empty_def)
  have fresh: "fresh_request sample_guest_upload" by (simp add: fresh_request_def sample_guest_upload_def sample_request_def)
  have user: "session_user E sample_guest_upload d = None" for E d
    by (rule no_cookie_no_user) (simp add: request_Cookie_def sample_guest_upload_def sample_request_def)
  have same: "sample_guest_upload\<lparr>rq_user := None\<rparr> = sample_guest_upload"
    by (simp add: sample_guest_upload_def sample_request_def)
  show ?thesis
    by (rule run_first_upload)
      (simp add: run_uploaded_def protectedRouter_def no_origin_allowed site root_handled [OF fresh] user same on_db_def
        guestEntryPost_halves run_upload_checked run_linked_rows split: prod.split)
qed

lemma run_registered: "registered W OidcCallbackGet" "registered W GuestLinksPost" "registered W GuestEntryPost"
  by (simp_all add: registered_def)

lemma run_fresh: "fresh_request run_link_request" "fresh_request sample_guest_upload"
  by (simp_all add: fresh_request_def run_link_request_def sample_guest_upload_def sample_request_def)

lemma run_uploaded_reached: "server_reach run_params () run_uploaded"
  unfolding run_uploaded_def run_linked_def run_login_def
  by (intro server_reach.request server_reach.first_start) (simp_all add: run_registered run_fresh)

section \<open>The second login\<close>

definition run_login_request :: request where
  "run_login_request = sample_request\<lparr>rq_cookies := run_cookies, rq_query := [(''code'', ''bob'')]\<rparr>"

definition run_second_login :: "unit server_state" where
  "run_second_login = snd (protectedRouter run_params OidcCallbackGet other_web run_login_request run_uploaded)"

definition run_second_row :: user_row where
  "run_second_row =
     \<lparr>ur_id = 2, ur_oidc_subject = ''sub2'', ur_username = ''bob'', ur_email = None, ur_is_admin = False,
      ur_preferred_language = None, ur_creation_time = formatTime sample_now,
      ur_last_login_time = formatTime sample_now\<rparr>"

lemma run_second_user:
  assumes "users d = [sample_user_row]"
  shows "\<exists>u. RecordUserLogin sample_env d run_second_identity = (Inr u, d\<lparr>users := [sample_user_row, run_second_row]\<rparr>) \<and>
     usr_ID u = UserID 2 \<and> \<not> usr_IsAdmin u"
proof -
  have row: "new_user_row sample_env run_second_identity 2 False = run_second_row"
    by (simp add: new_user_row_def run_second_identity_def run_second_row_def NoEmailAddress_def emailToNullString_def
        EmailAddress_Empty_def)
  have ok: "user_ok sample_env run_second_row"
    by (simp add: user_ok_def check_length_def run_second_row_def sample_check_time sample_now_secs rune_count_ascii ascii_def)
  have other: "OIDCSubject_String (ui_Subject run_second_identity) = ''sub2''" "ur_oidc_subject run_second_row = ''sub2''"
    "ur_oidc_subject sample_user_row = ''sub''" "ur_id sample_user_row = 1" "ur_id run_second_row = 2"
    by (simp_all add: run_second_identity_def run_second_row_def sample_user_row_def)
  have "insert_user sample_env d run_second_identity = Inr (2, d\<lparr>users := [sample_user_row, run_second_row]\<rparr>)"
    using assms by (simp add: insert_user_def isFirstUser_def stmt_def next_user_id_def other row ok Let_def)
  moreover have "NewOIDCSubject ''sub2'' = Inr (OIDCSubject ''sub2'')" "NewUsername ''bob'' = Inr (Username ''bob'')"
    by (simp_all add: NewOIDCSubject_def NewUsername_def text_check_def rune_count_ascii runes_ascii valid_utf8_ascii ascii_def)
  then have "\<exists>u. userFromRow run_second_row = Inr u \<and> usr_ID u = UserID 2 \<and> \<not> usr_IsAdmin u"
    by (simp add: userFromRow_def run_second_row_def wrap_domain_def)
  ultimately show ?thesis using assms by (auto simp: RecordUserLogin_def transaction_def stmt_def other)
qed

text \<open>The browser of the first user: its session ends, and the second user's begins.\<close>

lemma run_second_session:
  "\<exists>w1 d1. completeLogin other_web w run_login_request run_second_identity (sv_db run_uploaded) = (None, w1, d1) \<and>
     entries d1 = [run_entry] \<and> guest_links d1 = [guest_link_row_of run_link]"
proof -
  let ?d = "sv_db run_uploaded" and ?t = "NewSessionToken (\<lambda>i. i + 20)"
  let ?d1 = "?d\<lparr>users := [sample_user_row, run_second_row]\<rparr>"
  obtain u where u: "RecordUserLogin sample_env ?d run_second_identity = (Inr u, ?d1)" "usr_ID u = UserID 2"
    using run_second_user [of ?d] run_uploaded_db by blast
  have tok: "request_token run_login_request = Some ?t"
    using NewSessionToken_accepted [of "\<lambda>i. i + 20"]
    by (simp add: request_token_def request_Cookie_def run_login_request_def run_cookies_def)
  have "filter (\<lambda>x. sr_token_hash x \<noteq> SessionTokenHash_String (SessionToken_Hash ?t)) (sessions ?d) = []"
    using run_login_db run_uploaded_db by (simp add: list_all_iff filter_empty_conv)
  then have rev: "revoke_request_session sample_env run_login_request ?d1 = ?d1\<lparr>sessions := []\<rparr>"
    by (simp add: revoke_request_session_def tok DeleteSession_def)
  have "sq_length sample_env (SessionTokenHash_String (SessionToken_Hash t)) = 64" for t
    by (simp add: SessionToken_Hash_def rune_count_ascii ascii_hex length_hex_encode)
  moreover have "check_time sample_env (formatTime (time_add sample_now (30 * 24 * hour)))"
    by (rule sample_check_time) (simp_all only: text_range_def sample_month_secs, simp_all)
  moreover have "server_now other_web = sample_now" by (simp add: server_now_def)
  moreover have "ur_id run_second_row = 2" by (simp add: run_second_row_def)
  ultimately show ?thesis
    using u run_uploaded_db
    by (simp add: completeLogin_def rev sessionLifetime_def Let_def InsertSession_def session_row_of_def session_ok_def
        sample_check_time sample_now_secs)
qed

lemma run_second_login_reached: "server_reach run_params () run_second_login"
  unfolding run_second_login_def
  by (rule server_reach.request [OF run_uploaded_reached])
    (simp_all add: run_registered fresh_request_def run_login_request_def sample_request_def)

lemma run_second_login_db:
  "entries (sv_db run_second_login) = [run_entry] \<and> guest_links (sv_db run_second_login) = [guest_link_row_of run_link] \<and>
   (\<forall>r. request_Cookie r sessionCookieName = Some (SessionToken_String (NewSessionToken (\<lambda>i. i))) \<longrightarrow>
     (\<exists>u. session_user sample_env r (sv_db run_second_login) = Some u \<and> usr_ID u = UserID 2 \<and> \<not> usr_IsAdmin u))"
proof -
  have site: "header_Get run_login_request h = []" for h
    by (simp add: header_Get_def run_login_request_def sample_request_def lookup_or_empty_def)
  have fresh: "fresh_request run_login_request" by (simp add: fresh_request_def run_login_request_def sample_request_def)
  obtain w0 l n where S: "serve run_params OidcCallbackGet other_web run_login_request run_uploaded =
      handler_of run_params OidcCallbackGet other_web w0
        (run_login_request\<lparr>rq_user := session_user sample_env run_login_request (sv_db run_uploaded),
          rq_localizer := l, rq_nonce := n\<rparr>) run_uploaded" (is "_ = handler_of _ _ _ _ ?r _")
    using public_view_handled [OF fresh, of OidcCallbackGet run_params other_web run_uploaded] by (auto simp: site)
  have identity: "run_identity ?r = run_second_identity"
    by (simp add: run_identity_def query_Get_def lookup_or_empty_def run_login_request_def)
  obtain w1 d1 where L: "completeLogin other_web w0 run_login_request run_second_identity (sv_db run_uploaded) = (None, w1, d1)"
    and d1: "entries d1 = [run_entry]" "guest_links d1 = [guest_link_row_of run_link]"
    using run_second_session [of w0] by blast
  have db: "sv_db run_second_login = d1"
    using L by (simp add: run_second_login_def protectedRouter_def no_origin_allowed site S on_client_def
        oidcCallbackGet_def run_callback identity completeLogin_context)
  have keys: "keys_ok d1"
    using reachable_db_ok [OF server_reach_db [OF run_second_login_reached]] by (simp add: db_ok_def db)
  have now: "server_now other_web = sample_now" by (simp add: server_now_def)
  have t: "text_range (time_add (server_now other_web) sessionLifetime)"
    unfolding sessionLifetime_def by (simp only: now text_range_def sample_month_secs) simp
  have live: "unix_secs (st_now sample_env) < unix_secs (time_add (server_now other_web) sessionLifetime)"
    unfolding sessionLifetime_def by (simp only: now sample_month_secs sample_env_simps sample_now_secs)
  have "\<exists>u. session_user sample_env r d1 = Some u \<and> usr_ID u = UserID 2 \<and> \<not> usr_IsAdmin u"
    if c: "request_Cookie r sessionCookieName = Some (SessionToken_String (NewSessionToken (\<lambda>i. i)))" for r
  proof -
    have "request_Cookie r sessionCookieName = Some (SessionToken_String (NewSessionToken (wb_draw other_web)))"
      using c by simp
    from completeLogin_session [OF L keys this _ _ t live] run_second_user [of "sv_db run_uploaded"] run_uploaded_db
    show ?thesis by auto
  qed
  with d1 show ?thesis by (simp add: db)
qed

text \<open>The same run with two uploads that overlap.\<close>

lemma run_overlapping:
  obtains s where "overlapping_reach 2 run_params () s []" "guest_links (sv_db s) = [guest_link_row_of run_link]"
    "entry_count (sv_db s) ''abcdefghijkmnopq'' = 2"
proof -
  let ?c = "(sample_guest_upload, ''abcdefghijkmnopq'', sample_week)"
  let ?p = "(new_response, ?c)"
  have linked: "overlapping_reach 2 run_params () run_linked []"
    unfolding run_linked_def run_login_def
    by (intro overlapping_reach.request overlapping_reach.first_start)
      (use run_login_db in \<open>simp_all add: run_registered run_fresh run_login_def entry_links_def start_fields\<close>)
  have one: "overlapping_reach 2 run_params () run_linked [?p]"
    by (rule overlapping_reach.check [OF linked _ run_upload_checked [of sample_web]]) simp_all
  have two: "overlapping_reach 2 run_params () run_linked [?p, ?p]"
    by (rule overlapping_reach.check [OF one _ run_upload_checked [of other_web]]) simp_all
  obtain a d1 where st: "guest_store sample_web new_response ?c (sv_db run_linked) = (a, d1)"
    and d1: "guest_links d1 = [guest_link_row_of run_link]" "users d1 = [sample_user_row]"
      "entries_data d1 = file_rows ''vwxyzABCDE'' 4 ''hello''" "er_id ` set (entries d1) = {''vwxyzABCDE''}"
      "entry_count d1 ''abcdefghijkmnopq'' = 1" "entries d1 = [run_entry]" "sessions d1 = sessions (sv_db run_linked)"
    by (rule run_first_upload)
  obtain b d2 where st2: "guest_store other_web new_response ?c d1 = (b, d2)" "rs_status b = 200"
    by (rule sample_guest_store [OF _ run_new_ids(2), of d1])
      (simp_all add: d1 run_link_fields sample_user_row_def file_rows_def number_rows_def set_zip)
  have d2: "entry_count d2 ''abcdefghijkmnopq'' = entry_count d1 ''abcdefghijkmnopq'' + 1" "guest_links d2 = guest_links d1"
    by (rule guest_store_ok [OF st2], simp_all)+
  have "overlapping_reach 2 run_params () (run_linked\<lparr>sv_db := d1\<rparr>) [?p]"
    using overlapping_reach.store [OF two, of new_response ?c sample_web] by (simp add: st)
  then have "overlapping_reach 2 run_params () (run_linked\<lparr>sv_db := d2\<rparr>) []"
    using overlapping_reach.store [of 2 run_params "()" "run_linked\<lparr>sv_db := d1\<rparr>" "[?p]" new_response ?c other_web]
    by (simp add: st2)
  from that [OF this] show ?thesis by (simp add: d1 d2)
qed

end
