(* ===== verification/SiteProperties.thy ===== *)
theory SiteProperties
  imports SampleRun LanguageHandlers Space
begin

text \<open>
  The properties of the site's administration and of the parts the handlers are built from:
  settings and setup, the login with an identity provider, languages, sizes and identifiers.
\<close>

section \<open>Settings and setup\<close>

text \<open>The settings form is what the server reads. A form that the handler accepts is saved as it
  was parsed, and reading the settings afterwards gives exactly that; no form passes validation that
  the database would refuse or change.\<close>

theorem settings_form_is_what_is_read:
  assumes "settingsFromRequest r = Inr st" and "settings_table d \<noteq> None"
    and "\<not> sq_fault (wb_env W) OpUpdateSettings 0" and "\<not> sq_fault E' OpReadSettings 0"
  shows "\<exists>d1. settingsPut W w r d = (w, d1) \<and> ReadSettings E' d1 = Inr st"
  using ReadSettings_updated [OF settingsFromRequest_storable [OF assms(1)] assms(2-4)] assms(1)
  by (auto simp: settingsPut_def)

definition sample_settings_form :: request where
  "sample_settings_form = sample_request\<lparr>rq_body := JsonBody (JObject
     [(''defaultExpirationDays'', JInt 7), (''downloadHistoryRetentionDays'', JInt 30),
      (''defaultLanguage'', JString ''zh-TW''), (''maxNonAdminFileLifetimeDays'', JInt 14)])\<rparr>"

lemma lower_names:
  "map to_lower ''defaultExpirationDays'' = ''defaultexpirationdays''" "map to_lower ''defaultNeverExpire'' = ''defaultneverexpire''"
  "map to_lower ''downloadHistoryRetentionDays'' = ''downloadhistoryretentiondays''"
  "map to_lower ''keepDownloadHistoryForever'' = ''keepdownloadhistoryforever''"
  "map to_lower ''defaultLanguage'' = ''defaultlanguage''"
  "map to_lower ''maxNonAdminFileLifetimeDays'' = ''maxnonadminfilelifetimedays''"
  "map to_lower ''noMaxNonAdminFileLifetime'' = ''nomaxnonadminfilelifetime''"
  by (code_simp, code_simp, code_simp, code_simp, code_simp, code_simp, code_simp)

theorem settings_form_is_what_is_read_witness:
  "\<exists>d1. settingsPut sample_web new_response sample_settings_form initial_db = (new_response, d1) \<and>
     ReadSettings sample_env d1 = Inr sample_settings"
proof -
  let ?fs = "[(''defaultExpirationDays'', JInt 7), (''downloadHistoryRetentionDays'', JInt 30),
      (''defaultLanguage'', JString ''zh-TW''), (''maxNonAdminFileLifetimeDays'', JInt 14)]"
  have lookups: "field_values ''defaultExpirationDays'' ?fs = [JInt 7]" "field_values ''defaultNeverExpire'' ?fs = []"
    "field_values ''downloadHistoryRetentionDays'' ?fs = [JInt 30]" "field_values ''keepDownloadHistoryForever'' ?fs = []"
    "field_values ''defaultLanguage'' ?fs = [JString ''zh-TW'']" "field_values ''maxNonAdminFileLifetimeDays'' ?fs = [JInt 14]"
    "field_values ''noMaxNonAdminFileLifetime'' ?fs = []"
    unfolding field_values_def filter.simps case_prod_conv lower_names by simp_all
  have fields: "u16_field ''defaultExpirationDays'' ?fs = Some 7" "bool_field ''defaultNeverExpire'' ?fs = Some False"
    "u16_field ''downloadHistoryRetentionDays'' ?fs = Some 30" "bool_field ''keepDownloadHistoryForever'' ?fs = Some False"
    "string_field ''defaultLanguage'' ?fs = Some ''zh-TW''" "u16_field ''maxNonAdminFileLifetimeDays'' ?fs = Some 14"
    "bool_field ''noMaxNonAdminFileLifetime'' ?fs = Some False"
    by (simp_all only: lookups decode_field.simps, simp_all add: json_u16_def json_bool_def json_string_def)
  have parsed: "parse_FileLifetime 7 = Inr (NewFileLifetimeInDays 7)" "parse_FileLifetime 14 = Inr (NewFileLifetimeInDays 14)"
    "NewDownloadHistoryRetentionInDays 30 = Inr (Retention 30)" "NewSiteDefaultLanguage ''zh-TW'' = Inr (SiteDefaultLanguage ''zh-TW'')"
    by (simp_all add: parse_FileLifetime_def NewDownloadHistoryRetentionInDays_def NewSiteDefaultLanguage_iff)
  have "decode_json sample_settings_form = Some ?fs"
    by (simp add: decode_json_def sample_settings_form_def sample_request_def within_limit_def json_fields_def)
  then have "settingsFromRequest sample_settings_form = Inr sample_settings"
    unfolding settingsFromRequest_def by (simp only: fields parsed of_option_def and_then_def map_error_def
        option.case sum.case if_False if_True not_False_eq_True sample_settings_def) simp
  from settings_form_is_what_is_read [OF this, of initial_db sample_web sample_env new_response]
  show ?thesis by (simp add: initial_db_def)
qed

text \<open>C18: Setting up takes the token, and takes it away. When the setup form changes anything, it carried
  a token whose hash is the stored one, what it saved are the valid settings it carried, and from then
  on no token is accepted.\<close>

theorem setup_spends_its_token:
  assumes "setupPost W w r d = (w1, d1)" and "d1 \<noteq> d" and "\<not> sq_fault E' OpValidateSetupToken 0"
  shows "\<exists>q x. parseOIDCSettingsRequest (env_url_parse (wb_env W)) r (ValidateSetupToken (wb_env W) d) = Inr q \<and>
    oidc_table d = Some x \<and> or_setup_token_hash x = Some (SetupToken_Hash (osr_SetupToken q)) \<and>
    valid_oidc_settings (wb_env W) (oidcSettingsFromRequest q) \<and>
    d1 = d\<lparr>oidc_table := Some (oidc_row_of (oidcSettingsFromRequest q))\<rparr> \<and>
    ValidateSetupToken E' d1 token = Inr False"
proof -
  obtain q x where q: "parseOIDCSettingsRequest (env_url_parse (wb_env W)) r (ValidateSetupToken (wb_env W) d) = Inr q"
    and x: "oidc_table d = Some x" "or_setup_token_hash x = Some (SetupToken_Hash (osr_SetupToken q))"
    and d1: "d1 = d\<lparr>oidc_table := Some (oidc_row_of (oidcSettingsFromRequest q))\<rparr>" and "w1 = w"
    by (rule setupPost_changes [OF assms(1,2)])
  have "ValidateSetupToken E' d1 token = Inr False"
    by (simp add: ValidateSetupToken_def d1 assms(3) stmt_def oidc_row_of_def)
  with q x d1 parsed_valid [OF q] show ?thesis by (auto simp: valid_for_env)
qed

definition sample_setup_db :: db where
  "sample_setup_db = snd (GenerateSetupToken sample_env initial_db)"

definition sample_setup_form :: "(string \<times> json) list" where
  "sample_setup_form =
     [(''setupToken'', JString (SetupToken_String (NewSetupToken (\<lambda>i. i)))), (''issuerUrl'', JString ''https://idp''),
      (''clientId'', JString ''c''), (''clientSecret'', JString ''s''), (''redirectUrl'', JString ''https://p/oidc/callback'')]"

lemma lower_setup_names:
  "map to_lower ''setupToken'' = ''setuptoken''" "map to_lower ''issuerUrl'' = ''issuerurl''"
  "map to_lower ''expectedIssuer'' = ''expectedissuer''" "map to_lower ''clientId'' = ''clientid''"
  "map to_lower ''clientSecret'' = ''clientsecret''" "map to_lower ''redirectUrl'' = ''redirecturl''"
  "map to_lower ''caCertPem'' = ''cacertpem''"
  by (code_simp, code_simp, code_simp, code_simp, code_simp, code_simp, code_simp)

lemma sample_setup_values:
  "string_field ''setupToken'' sample_setup_form = Some (SetupToken_String (NewSetupToken (\<lambda>i. i)))"
  "string_field ''issuerUrl'' sample_setup_form = Some ''https://idp''"
  "string_field ''expectedIssuer'' sample_setup_form = Some []" "string_field ''clientId'' sample_setup_form = Some ''c''"
  "string_field ''clientSecret'' sample_setup_form = Some ''s''"
  "string_field ''redirectUrl'' sample_setup_form = Some ''https://p/oidc/callback''"
  "string_field ''caCertPem'' sample_setup_form = Some []"
  unfolding field_values_def sample_setup_form_def filter.simps case_prod_conv lower_setup_names
  by (simp_all add: json_string_def)

lemma sample_setup_db_row: "\<exists>x. oidc_table sample_setup_db = Some x \<and> or_issuer_url x = None \<and>
    or_setup_token_hash x = Some (SetupToken_Hash (NewSetupToken (\<lambda>i. i)))"
  by (simp add: sample_setup_db_def GenerateSetupToken_def initial_db_def oidc_ok_def Let_def SetupToken_Hash_def
      rune_count_ascii ascii_hex length_hex_encode check_null_def empty_oidc_row_def)

abbreviation sample_setup_request :: request where
  "sample_setup_request \<equiv> sample_request\<lparr>rq_body := JsonBody (JObject sample_setup_form)\<rparr>"

lemma sample_setup_posted:
  "setupPost sample_web w sample_setup_request sample_setup_db = (w, sample_setup_db\<lparr>oidc_table := Some (oidc_row_of sample_oidc)\<rparr>)"
proof -
  let ?t = "NewSetupToken (\<lambda>i. i)"
  obtain x where x: "oidc_table sample_setup_db = Some x" "or_issuer_url x = None"
    "or_setup_token_hash x = Some (SetupToken_Hash ?t)"
    using sample_setup_db_row by blast
  have valid: "ValidateSetupToken sample_env sample_setup_db ?t = Inr True"
    by (simp add: ValidateSetupToken_def stmt_def x)
  have json: "decode_json sample_setup_request = Some sample_setup_form"
    by (simp add: decode_json_def within_limit_def json_fields_def sample_request_def)
  have "length (b64_encode (random_Bytes (\<lambda>i. i) 32)) = 43" by (simp add: length_b64_encode)
  then have "SetupToken_String ?t \<noteq> []" by (auto simp: NewSetupToken_def)
  then have tok: "SetupTokenFromString (SetupToken_String ?t) = Inr ?t"
    by (simp add: SetupTokenFromString_def)
  have urls: "NewOIDCIssuerURL (env_url_parse sample_env) ''https://idp'' = Inr (OIDCIssuerURL ''https://idp'')"
    "NewOIDCRedirectURL (env_url_parse sample_env) ''https://p/oidc/callback'' = Inr (OIDCRedirectURL ''https://p/oidc/callback'')"
    by (simp_all add: NewOIDCIssuerURL_def NewOIDCRedirectURL_def newOIDCURL_def sample_env_def has_prefix_def has_suffix_def
        oidcCallbackPath_def)
  have ids: "NewOIDCClientID ''c'' = Inr (OIDCClientID ''c'')" "NewOIDCClientSecret ''s'' = Inr (OIDCClientSecret ''s'')"
    by (simp_all add: NewOIDCClientID_def NewOIDCClientSecret_def)
  obtain q where q: "parseOIDCSettingsRequest (env_url_parse sample_env) sample_setup_request
      (ValidateSetupToken sample_env sample_setup_db) = Inr q" "oidcSettingsFromRequest q = sample_oidc"
    by (simp add: parseOIDCSettingsRequest_def json sample_setup_values tok valid urls ids of_option_def and_then_def
        map_error_def ensure_def oidcSettingsFromRequest_def sample_oidc_def)
  show ?thesis by (simp add: setupPost_def q UpdateOIDCSettings_def x oidc_ok_def oidc_row_of_def check_null_def)
qed

theorem setup_spends_its_token_witness:
  "\<exists>d1. setupPost sample_web new_response sample_setup_request sample_setup_db = (new_response, d1) \<and>
     ValidateSetupToken sample_env d1 (NewSetupToken (\<lambda>i. i)) = Inr False"
proof -
  let ?d = "sample_setup_db\<lparr>oidc_table := Some (oidc_row_of sample_oidc)\<rparr>"
  have "oidc_table ?d \<noteq> oidc_table sample_setup_db" using sample_setup_db_row by (auto simp: oidc_row_of_def)
  then have "?d \<noteq> sample_setup_db" by (metis (no_types))
  with setup_spends_its_token [OF sample_setup_posted [of new_response] this, of sample_env "NewSetupToken (\<lambda>i. i)"]
  show ?thesis using sample_setup_posted by auto
qed

text \<open>The client secret is never shown: what the server answers when the identity provider's
  settings are asked for is the same for all settings that differ in nothing but the secret.\<close>

lemma client_secret_is_not_shown:
  assumes "ReadOIDCSettings (wb_env W) d = Inr s" and "ReadOIDCSettings (wb_env W') d' = Inr (s\<lparr>os_ClientSecret := c\<rparr>)"
  shows "adminOIDCSettingsGet W w r d =
    (fst (adminOIDCSettingsGet W' w r' d'), d)"
  using assms by (simp add: adminOIDCSettingsGet_def)

section \<open>Logging in with an identity provider\<close>

text \<open>The login attempt survives the cookie. Whatever bytes the state, the nonce and the verifier are
  made of, a browser that sends back the cookie it was given sends back exactly these.\<close>

theorem attempt_cookie_round_trip:
  "readAttemptCookie (r\<lparr>rq_cookies := map (\<lambda>c. (ck_name c, ck_value c))
     (rs_cookies (setAttemptCookie new_response secure attempt))\<rparr>) = Some attempt"
  by (rule readAttemptCookie_value)
    (simp add: request_Cookie_def setAttemptCookie_def SetCookie_def new_response_def)

text \<open>C14: A login is the answer to an attempt of the same browser. When the callback accepts, the request
  carried the attempt's cookie and its state, its code was exchanged with the attempt's verifier, the
  ID token that came back was verified for the client ID in use and has the attempt's nonce, and the
  identity is the token's subject and username, neither of them empty.\<close>

theorem callback_accepts_only_its_own_attempts:
  assumes "oidc_Callback L W w r cd = (Inr identity, w1, c1)"
  shows "\<exists>attempt cp raw sub claims. readAttemptCookie r = Some attempt \<and> c1 = Some cp \<and>
    query_Get r ''error'' = [] \<and> query_Get r ''state'' = at_State attempt \<and> query_Get r ''code'' \<noteq> [] \<and>
    lib_Exchange L (cp_provider cp) (cp_settings cp) (query_Get r ''code'') (at_Verifier attempt) = Some (Some raw) \<and>
    lib_Verify L (cp_provider cp) (OIDCClientID_String (os_ClientID (cp_settings cp))) (server_now W) raw =
      Some (sub, Some claims) \<and>
    cl_Nonce claims = at_Nonce attempt \<and> ui_Subject identity = OIDCSubject sub \<and>
    ui_Username identity = Username (cl_Username claims) \<and> sub \<noteq> [] \<and> cl_Username claims \<noteq> []"
proof -
  obtain cp where cp: "ensureProvider L (wb_env W) (snd cd) (fst cd) = (Inr cp, c1)"
    and chk: "check_callback L W r (readAttemptCookie r) cp = Inr identity"
    using assms by (auto simp: oidc_Callback_def Let_def split: prod.splits sum.splits)
  have "c1 = Some cp" by (rule ensureProvider_settings [OF cp])
  obtain attempt raw sub claims where c: "readAttemptCookie r = Some attempt" "query_Get r ''error'' = []"
    "query_Get r ''state'' = at_State attempt" "query_Get r ''code'' \<noteq> []"
    "lib_Exchange L (cp_provider cp) (cp_settings cp) (query_Get r ''code'') (at_Verifier attempt) = Some (Some raw)"
    "lib_Verify L (cp_provider cp) (OIDCClientID_String (os_ClientID (cp_settings cp))) (server_now W) raw =
       Some (sub, Some claims)"
    "cl_Nonce claims = at_Nonce attempt" "identity_from_claims sub claims = Inr identity"
    by (rule check_callback_Inr [OF chk])
  with identity_from_claims_Inr [OF c(8)] \<open>c1 = Some cp\<close> show ?thesis
    by (intro exI [of _ attempt] exI [of _ cp] exI [of _ raw] exI [of _ sub] exI [of _ claims]) simp
qed

definition sample_lib :: "unit oidc_lib" where
  "sample_lib =
     \<lparr>lib_pem_ok = (\<lambda>_. True), lib_NewProvider = (\<lambda>_ _ _. Some ()), lib_AuthCodeURL = (\<lambda>_ _ _ _ _. []),
      lib_Exchange = (\<lambda>_ _ code verifier. if code = ''code'' \<and> verifier = ''v'' then Some (Some ''token'') else None),
      lib_Verify = (\<lambda>_ client now raw. if client = ''c'' \<and> raw = ''token''
         then Some (''sub'', Some \<lparr>cl_Nonce = ''n'', cl_Username = ''alice'', cl_Email = []\<rparr>) else None),
      lib_GenerateVerifier = ''v''\<rparr>"

definition sample_attempt :: attempt_cookie where
  "sample_attempt = \<lparr>at_State = ''s'', at_Nonce = ''n'', at_Verifier = ''v''\<rparr>"

definition sample_callback :: request where
  "sample_callback = sample_request\<lparr>rq_query := [(''state'', ''s''), (''code'', ''code'')],
     rq_cookies := [(attemptCookieName, attempt_value sample_attempt)]\<rparr>"

definition sample_oidc_db :: db where
  "sample_oidc_db = initial_db\<lparr>oidc_table := Some (oidc_row_of sample_oidc)\<rparr>"

lemma sample_oidc_read: "ReadOIDCSettings sample_env sample_oidc_db = Inr sample_oidc"
  using oidc_round_trip [OF sample_oidc_valid] by (simp add: ReadOIDCSettings_def stmt_def sample_oidc_db_def)

abbreviation sample_cached :: "oidc_settings \<Rightarrow> unit cached_provider" where
  "sample_cached s \<equiv> \<lparr>cp_fingerprint = settingsFingerprint s, cp_settings = s, cp_provider = ()\<rparr>"

lemma sample_provider_of:
  assumes "ReadOIDCSettings E d = Inr s" and "OIDCSettings_IsConfigured s"
  shows "ensureProvider sample_lib E d None = (Inr (sample_cached s), Some (sample_cached s))"
proof -
  have "discover_with sample_lib s = Inr ()"
    by (simp add: discover_with_def httpClientFor_def sample_lib_def of_option_def and_then_def)
  then show ?thesis by (simp add: ensureProvider_def assms Let_def)
qed

lemma sample_oidc_configured: "OIDCSettings_IsConfigured sample_oidc"
  by (simp add: OIDCSettings_IsConfigured_def sample_oidc_def)

lemmas sample_provider = sample_provider_of [OF sample_oidc_read sample_oidc_configured]

theorem callback_accepts_only_its_own_attempts_witness:
  "\<exists>identity w1 c1. oidc_Callback sample_lib sample_web new_response sample_callback (None, sample_oidc_db) =
       (Inr identity, w1, c1) \<and> ui_Username identity = Username ''alice''"
proof -
  have cookie: "readAttemptCookie sample_callback = Some sample_attempt"
    by (rule readAttemptCookie_value) (simp add: request_Cookie_def sample_callback_def)
  have ident: "identity_from_claims ''sub'' \<lparr>cl_Nonce = ''n'', cl_Username = ''alice'', cl_Email = []\<rparr> = Inr sample_identity"
    by (simp add: identity_from_claims_def sample_user_texts claimed_email_def sample_identity_def)
  have q: "query_Get sample_callback ''error'' = []" "query_Get sample_callback ''state'' = ''s''"
    "query_Get sample_callback ''code'' = ''code''"
    by (simp_all add: query_Get_def lookup_or_empty_def sample_callback_def)
  have "check_callback sample_lib sample_web sample_callback (Some sample_attempt)
      \<lparr>cp_fingerprint = settingsFingerprint sample_oidc, cp_settings = sample_oidc, cp_provider = ()\<rparr> = Inr sample_identity"
    by (simp add: check_callback_def q sample_attempt_def sample_lib_def sample_oidc_def of_option_def and_then_def
        ensure_def ident)
  then obtain w1 c1 where cb: "oidc_Callback sample_lib sample_web new_response sample_callback (None, sample_oidc_db) =
      (Inr sample_identity, w1, c1)"
    by (simp add: oidc_Callback_def cookie sample_provider Let_def)
  from callback_accepts_only_its_own_attempts [OF cb] cb show ?thesis by (auto simp: sample_identity_def)
qed

text \<open>What the client keeps carries the fingerprint of its own settings, whatever requests are answered.\<close>

definition cache_ok :: "'p oidc_client \<Rightarrow> bool" where
  "cache_ok c \<longleftrightarrow> (\<forall>cp. c = Some cp \<longrightarrow> cp_fingerprint cp = settingsFingerprint (cp_settings cp))"

lemma ensureProvider_cache: "cache_ok c \<Longrightarrow> cache_ok (snd (ensureProvider L E d c))"
  by (auto simp: cache_ok_def ensureProvider_def Let_def split: sum.split option.split)

lemma oidc_Redirect_cache: "cache_ok (fst cd) \<Longrightarrow> cache_ok (snd (oidc_Redirect L W w r cd))"
  using ensureProvider_cache [of "fst cd" L "wb_env W" "snd cd"]
  by (auto simp: oidc_Redirect_def Let_def split: prod.split sum.split)

lemma oidc_Callback_cache: "cache_ok (fst cd) \<Longrightarrow> cache_ok (snd (snd (oidc_Callback L W w r cd)))"
  using ensureProvider_cache [of "fst cd" L "wb_env W" "snd cd"]
  by (auto simp: oidc_Callback_def Let_def split: prod.split sum.split)

lemma handler_cache:
  assumes "sp_IdentityProvider P = oidc_identity_provider L" and "cache_ok (sv_client s)"
  shows "cache_ok (sv_client (snd (handler_of P rt W w r s)))"
proof -
  have db: "sv_client (snd (on_db h W w r s)) = sv_client s" for h
    by (simp add: on_db_def split: prod.split)
  have co: "sv_client (snd (on_collector h W w r s)) = sv_client s" for h
    by (simp add: on_collector_def split: prod.split)
  have cl: "sv_client (snd (on_client h W w r s)) = fst (snd (h W w r (sv_client s, sv_db s)))" for h
    by (simp add: on_client_def split: prod.split)
  have "cache_ok (fst (snd (oidcLoginGet (oidc_identity_provider L) W w r (sv_client s, sv_db s))))"
    using oidc_Redirect_cache [of "(sv_client s, sv_db s)" L W w r] assms(2)
    by (auto simp: oidcLoginGet_def oidc_identity_provider_def split: prod.split)
  moreover have "cache_ok (fst (snd (oidcCallbackGet (oidc_identity_provider L) W w r (sv_client s, sv_db s))))"
    using oidc_Callback_cache [of "(sv_client s, sv_db s)" L W w r] assms(2)
    by (auto simp: oidcCallbackGet_def oidc_identity_provider_def split: prod.split sum.split option.split)
  ultimately show ?thesis using assms by (cases rt) (simp_all add: db co cl)
qed

lemma server_cache:
  assumes "server_reach P None s" and "sp_IdentityProvider P = oidc_identity_provider L"
  shows "cache_ok (sv_client s)"
  using assms(1)
proof (induction rule: server_reach.induct)
  case (request s W rt r)
  have "cache_ok (sv_client (snd (serve P rt W r s)))"
    by (rule serve_cases [OF request(4), of P rt W s]) (simp_all add: handler_cache [OF assms(2) request(5)] request(5))
  then show ?case using request(5) by (simp add: protectedRouter_def)
qed (auto simp: start_state_def scheduler_tick_def cache_ok_def split: prod.split)

text \<open>Settings with the fingerprint of settings without the separator have no separator either.\<close>

definition bars :: "string \<Rightarrow> nat" where
  "bars t = length (filter (\<lambda>c. c = CHR ''|'') t)"

lemma bars_simps [simp]: "bars [] = 0" "bars (c # t) = (if c = CHR ''|'' then 1 else 0) + bars t" "bars (s @ t) = bars s + bars t"
  by (simp_all add: bars_def)

lemma bars_0: "bars t = 0 \<longleftrightarrow> CHR ''|'' \<notin> set t"
  by (auto simp: bars_def filter_empty_conv)

lemma no_bar_fingerprint: "no_bar s \<longleftrightarrow> bars (settingsFingerprint s) = 5"
  by (auto simp: no_bar_def settingsFingerprint_def bars_0 [symmetric])

text \<open>C34: A new identity provider is used at once. In every state the server reaches, the provider that a
  login uses was made for settings with the fingerprint of the current ones; and if none of the current
  settings contains the separator of the fingerprint, it was made for exactly the current ones.\<close>

theorem provider_follows_the_settings:
  assumes "server_reach P None s" and "sp_IdentityProvider P = oidc_identity_provider L"
    and "ensureProvider L E (sv_db s) (sv_client s) = (Inr cp, c1)"
  shows "\<exists>t. ReadOIDCSettings E (sv_db s) = Inr t \<and> c1 = Some cp \<and>
    settingsFingerprint (cp_settings cp) = settingsFingerprint t \<and> (no_bar t \<longrightarrow> cp_settings cp = t)"
proof -
  obtain t where t: "ReadOIDCSettings E (sv_db s) = Inr t" and c1: "c1 = Some cp"
    and fp: "cp_fingerprint cp = settingsFingerprint t" and old: "cp_settings cp = t \<or> sv_client s = Some cp"
    by (rule ensureProvider_settings [OF assms(3)])
  have same: "settingsFingerprint (cp_settings cp) = settingsFingerprint t"
    using old server_cache [OF assms(1,2)] fp by (auto simp: cache_ok_def)
  then have "no_bar t \<longrightarrow> cp_settings cp = t"
    using settingsFingerprint_inj [of "cp_settings cp" t] by (auto simp: no_bar_fingerprint)
  with t c1 same show ?thesis by blast
qed

text \<open>A server with this client, which has read the sample settings once for a login.\<close>

definition oidc_params :: "(unit oidc_client, unit) server_params" where
  "oidc_params =
     \<lparr>sp_IdentityProvider = oidc_identity_provider sample_lib, sp_lib = sample_lib,
      sp_CheckSpace = (\<lambda>_ _. Inl ErrSizeOverflow), sp_pragma = (\<lambda>_. None), sp_build = None,
      sp_static_seed = [], sp_file_server = (\<lambda>w r. w)\<rparr>"

definition oidc_started :: "unit oidc_client server_state" where
  "oidc_started = start_state None (snd (ensureSetupToken sample_env initial_db))"

definition oidc_set_up :: "unit oidc_client server_state" where
  "oidc_set_up = snd (protectedRouter oidc_params SetupPost sample_web sample_setup_request oidc_started)"

definition oidc_logging_in :: "unit oidc_client server_state" where
  "oidc_logging_in = snd (protectedRouter oidc_params OidcLoginGet sample_web sample_request oidc_set_up)"

lemma oidc_logging_in_reached: "server_reach oidc_params None oidc_logging_in"
proof -
  have "server_reach oidc_params None (start_state None initial_db)" by (rule server_reach.first_start)
  then have "server_reach oidc_params None (start_state None (snd (ensureSetupToken sample_env (sv_db (start_state (None :: unit oidc_client) initial_db)))))"
    by (rule server_reach.restart) simp
  then have "server_reach oidc_params None oidc_started" by (simp add: oidc_started_def start_state_def)
  then show ?thesis
    unfolding oidc_logging_in_def oidc_set_up_def
    by (intro server_reach.request) (simp_all add: registered_def fresh_request_def sample_request_def)
qed

lemma oidc_started_state: "oidc_started = start_state None sample_setup_db"
proof -
  have "NeedsSetup sample_env initial_db = Inr True"
    by (simp add: NeedsSetup_def stmt_def initial_db_def empty_oidc_row_def)
  then have "snd (ensureSetupToken sample_env initial_db) = sample_setup_db"
    by (simp add: ensureSetupToken_def sample_setup_db_def split: prod.split sum.split)
  then show ?thesis by (simp add: oidc_started_def)
qed

lemma no_context [simp]: "sample_request\<lparr>rq_body := b, rq_user := None\<rparr> = sample_request\<lparr>rq_body := b\<rparr>"
  "sample_request\<lparr>rq_user := None\<rparr> = sample_request"
  by (simp_all add: sample_request_def)

lemma oidc_logging_in_state:
  "ReadOIDCSettings sample_env (sv_db oidc_logging_in) = Inr sample_oidc"
  "sv_client oidc_logging_in = Some (sample_cached sample_oidc)"
proof -
  have head: "header_Get (sample_request\<lparr>rq_body := b\<rparr>) h = []" "header_Get sample_request h = []" for b h
    by (simp_all add: header_Get_def sample_request_def lookup_or_empty_def)
  have fresh: "fresh_request (sample_request\<lparr>rq_body := b\<rparr>)" for b by (simp add: fresh_request_def sample_request_def)
  have user: "session_user E (sample_request\<lparr>rq_body := b\<rparr>) d = None" "session_user E sample_request d = None" for E b d
    by (rule no_cookie_no_user, simp add: request_Cookie_def sample_request_def)+
  have set_up: "oidc_set_up = oidc_started\<lparr>sv_db := sample_setup_db\<lparr>oidc_table := Some (oidc_row_of sample_oidc)\<rparr>\<rparr>"
    by (simp add: oidc_set_up_def protectedRouter_def no_origin_allowed head root_handled [OF fresh] user on_db_def
        sample_setup_posted oidc_started_state start_state_def)
  have read: "ReadOIDCSettings sample_env (sv_db oidc_set_up) = Inr sample_oidc"
    using oidc_round_trip [OF sample_oidc_valid] by (simp add: ReadOIDCSettings_def stmt_def set_up)
  have idp: "idp_Redirect (sp_IdentityProvider oidc_params) = oidc_Redirect sample_lib"
    by (simp add: oidc_params_def oidc_identity_provider_def)
  have "sv_client oidc_set_up = None" by (simp add: set_up oidc_started_state start_state_def)
  then have "ensureProvider sample_lib sample_env (sv_db oidc_set_up) (sv_client oidc_set_up) =
      (Inr (sample_cached sample_oidc), Some (sample_cached sample_oidc))"
    using sample_provider_of [OF read sample_oidc_configured] by simp
  then have "sv_db oidc_logging_in = sv_db oidc_set_up \<and> sv_client oidc_logging_in = Some (sample_cached sample_oidc)"
    by (simp add: oidc_logging_in_def protectedRouter_def no_origin_allowed head root_handled user on_client_def
        oidcLoginGet_def idp oidc_Redirect_def Let_def)
  with read show "ReadOIDCSettings sample_env (sv_db oidc_logging_in) = Inr sample_oidc"
    "sv_client oidc_logging_in = Some (sample_cached sample_oidc)" by simp_all
qed

theorem provider_follows_the_settings_witness:
  "\<exists>cp c1. ensureProvider sample_lib sample_env (sv_db oidc_logging_in) (sv_client oidc_logging_in) = (Inr cp, c1) \<and>
     sv_client oidc_logging_in = Some cp \<and> cp_settings cp = sample_oidc"
proof -
  let ?cp = "sample_cached sample_oidc"
  have "ensureProvider sample_lib sample_env (sv_db oidc_logging_in) (sv_client oidc_logging_in) = (Inr ?cp, Some ?cp)"
    by (simp add: ensureProvider_def oidc_logging_in_state sample_oidc_configured Let_def)
  moreover have "sp_IdentityProvider oidc_params = oidc_identity_provider sample_lib" by (simp add: oidc_params_def)
  moreover have "no_bar sample_oidc" by (simp add: no_bar_def sample_oidc_def)
  ultimately show ?thesis
    using provider_follows_the_settings [OF oidc_logging_in_reached] oidc_logging_in_state by fastforce
qed

text \<open>Settings that are read and configured are valid, so others that differ in a client ID and a
  secret that are not empty can be saved and read back.\<close>

lemma read_settings_valid:
  assumes "ReadOIDCSettings E d = Inr s" and "OIDCSettings_IsConfigured s"
  shows "valid_oidc_settings E s" and "oidc_table d \<noteq> None"
proof -
  obtain r where r: "oidc_table d = Some r" "oidc_from_row E r = Inr s"
    using assms by (auto simp: ReadOIDCSettings_def and_then_eq_Inr_iff OIDCSettings_IsConfigured_def NoOIDCSettings_def
        split: option.splits)
  then show "oidc_table d \<noteq> None" by simp
  show "valid_oidc_settings E s"
    using r(2) assms(2)
    by (auto simp: oidc_from_row_def and_then_eq_Inr_iff valid_oidc_settings_def wrap_domain_def
        OIDCSettings_IsConfigured_def NoOIDCSettings_def split: option.splits sum.splits)
qed

text \<open>C40: The separator matters. Take any settings that a login has used, with the separator in the client
  ID, and save settings with the part after it moved to the front of the client secret. The new
  settings are different, and are what the database then holds; but they have the same fingerprint, so
  the next login still uses the provider and the settings of before.\<close>

theorem fingerprints_collide:
  assumes "ReadOIDCSettings E d = Inr s" and "ensureProvider L E d None = (Inr cp, c1)"
    and "os_ClientID s = OIDCClientID (a @ ''|'' @ b)" and "os_ClientSecret s = OIDCClientSecret c" and "a \<noteq> []"
    and "t = s\<lparr>os_ClientID := OIDCClientID a, os_ClientSecret := OIDCClientSecret (b @ ''|'' @ c)\<rparr>"
    and "UpdateOIDCSettings E d t = (Inr (), d1)"
  shows "t \<noteq> s \<and> ReadOIDCSettings E d1 = Inr t \<and> ensureProvider L E d1 c1 = (Inr cp, c1) \<and> cp_settings cp = s"
proof -
  obtain s' where s': "ReadOIDCSettings E d = Inr s'" and conf: "OIDCSettings_IsConfigured s'" and c1: "c1 = Some cp"
    and fp: "cp_fingerprint cp = settingsFingerprint s'" and cp: "cp_settings cp = s' \<or> None = Some cp"
    by (rule ensureProvider_settings [OF assms(2)])
  have "s' = s" using s' assms(1) by simp
  note conf = conf [unfolded this] and fp = fp [unfolded this] and cp = cp [unfolded this]
  note valid = read_settings_valid [OF assms(1) conf]
  have ne: "t \<noteq> s"
  proof
    assume "t = s"
    then have "os_ClientID t = os_ClientID s" by simp
    then show False by (simp add: assms(3,6))
  qed
  have "valid_oidc_settings E t"
    using valid(1) assms(5) by (simp add: valid_oidc_settings_def assms(6) NewOIDCClientID_def NewOIDCClientSecret_def) blast
  moreover have "stmt E OpReadOIDCSettings 0 = Inr ()"
    using assms(1) by (auto simp: ReadOIDCSettings_def and_then_eq_Inr_iff)
  ultimately have read: "ReadOIDCSettings E d1 = Inr t"
    using UpdateOIDCSettings_ok [OF assms(7) valid(2)] oidc_round_trip by (simp add: ReadOIDCSettings_def)
  have "settingsFingerprint t = settingsFingerprint s"
    by (simp add: settingsFingerprint_def assms(3,4,6))
  moreover have "OIDCSettings_IsConfigured t" using conf by (simp add: OIDCSettings_IsConfigured_def assms(6))
  ultimately have "ensureProvider L E d1 c1 = (Inr cp, c1)"
    by (simp add: ensureProvider_def read c1 fp Let_def)
  with ne read cp show ?thesis by simp
qed

theorem fingerprints_collide_witness:
  "\<exists>s t d1 cp. os_ClientID s = OIDCClientID ''a|b'' \<and> os_ClientID t = OIDCClientID ''a'' \<and>
     ReadOIDCSettings sample_env d1 = Inr t \<and> fst (ensureProvider sample_lib sample_env d1 (Some cp)) = Inr cp \<and>
     cp_settings cp = s"
proof -
  let ?s = "sample_oidc\<lparr>os_ClientID := OIDCClientID (''a'' @ ''|'' @ ''b''), os_ClientSecret := OIDCClientSecret ''c''\<rparr>"
  let ?t = "?s\<lparr>os_ClientID := OIDCClientID ''a'', os_ClientSecret := OIDCClientSecret (''b'' @ ''|'' @ ''c'')\<rparr>"
  let ?d = "initial_db\<lparr>oidc_table := Some (oidc_row_of ?s)\<rparr>"
  have "valid_oidc_settings sample_env ?s"
    using sample_oidc_valid
    by (simp add: valid_oidc_settings_def NewOIDCClientID_def NewOIDCClientSecret_def)
      (blast intro: list.distinct)
  then have read: "ReadOIDCSettings sample_env ?d = Inr ?s"
    using oidc_round_trip by (simp add: ReadOIDCSettings_def stmt_def)
  have conf: "OIDCSettings_IsConfigured ?s" by (simp add: OIDCSettings_IsConfigured_def sample_oidc_def)
  obtain d1 where up: "UpdateOIDCSettings sample_env ?d ?t = (Inr (), d1)"
    by (simp add: UpdateOIDCSettings_def)
  have "?t \<noteq> ?s \<and> ReadOIDCSettings sample_env d1 = Inr ?t \<and>
    ensureProvider sample_lib sample_env d1 (Some (sample_cached ?s)) = (Inr (sample_cached ?s), Some (sample_cached ?s)) \<and>
    cp_settings (sample_cached ?s) = ?s"
    by (rule fingerprints_collide [OF read sample_provider_of [OF read conf] _ _ _ refl up]) simp_all
  then show ?thesis by (intro exI [of _ ?s] exI [of _ ?t] exI [of _ d1] exI [of _ "sample_cached ?s"]) simp
qed

section \<open>Languages\<close>

text \<open>C35: The Accept-Language header picks the supported language with the highest weight. For every header
  whose weights are numbers, the answer is that of the reference: of the entries that name English or
  Chinese, the first one that no other such entry outweighs, and English when there is none.\<close>

theorem accept_language_picks_the_heaviest:
  assumes "\<forall>c \<in> set (candidates_of header). cd_q c \<noteq> FNaN"
  shows "languageFromAcceptLanguage header =
    (case find (\<lambda>c. \<forall>c' \<in> set (filter (\<lambda>c. tag_language (cd_tag c) \<noteq> None) (candidates_of header)).
             \<not> fval_greater (cd_q c') (cd_q c))
           (filter (\<lambda>c. tag_language (cd_tag c) \<noteq> None) (candidates_of header)) of
       None \<Rightarrow> LanguageEnglish | Some c \<Rightarrow> the (tag_language (cd_tag c)))"
  using languageFromAcceptLanguage_reference [OF assms] by (simp add: preferred_candidate_def Let_def)

theorem accept_language_picks_the_heaviest_witness:
  "languageFromAcceptLanguage ''de'' = LanguageEnglish"
proof -
  have "candidates_of ''de'' = [\<lparr>cd_tag = ''de'', cd_q = fval_one\<rparr>]" by code_simp
  moreover have "tag_language ''de'' = None" by code_simp
  ultimately show ?thesis
    using accept_language_picks_the_heaviest [of "''de''"] by (simp add: fval_one_def)
qed

section \<open>Sizes\<close>

text \<open>Disk space is added up exactly or not at all. The total of the stored files is their exact sum
  when it fits a signed 64-bit integer and an error otherwise, never a wrapped number; and it is 0
  only when there are no files.\<close>

theorem total_size_is_exact:
  "TotalSize (Inr es) =
     (if sum_list (map (\<lambda>e. uint (FileSize_UInt64 (um_Size e))) es) \<le> max_int64
      then Inr (of_int (sum_list (map (\<lambda>e. uint (FileSize_UInt64 (um_Size e))) es))) else Inl ErrSizeOverflow) \<and>
   (TotalSize (GetEntriesMetadata E d opts) = Inr 0 \<longleftrightarrow> GetEntriesMetadata E d opts = Inr [])"
  using TotalSize_exact [of es] no_bytes_no_files [of E d opts] by simp

text \<open>Sizes are written with the largest unit that leaves at least 1. For every 64-bit number of bytes
  there is a text (the unit letters never run out): the number itself below 1024, and otherwise the
  quotient by a power of 1024 that is between 1 and 1024, with the letter of that power.\<close>

theorem sizes_are_written_with_the_right_unit:
  "if b < 1024 then humanReadableDiskUsage b = Some (show_nat (unat b) @ '' B'')
   else \<exists>k. k < 6 \<and> 1024 ^ (k + 1) \<le> unat b \<and> unat b < 1024 ^ (k + 2) \<and>
     humanReadableDiskUsage b =
       Some (fixed_text 2 (f64_div (f64_of_nat (unat b)) (f64_of_nat (1024 ^ (k + 1)))) @ '' '' @ [''kMGTPE'' ! k] @ ''B'')"
proof (cases "b < 1024")
  case False
  obtain dv k where u: "unit_loop (unat b div 1024) 1024 0 = (dv, k)" by (metis surj_pair)
  have bound: "k < 6" "dv = 1024 ^ (k + 1)" "unat b div dv < 1024" using unit_loop_u64 [OF u] by auto
  have "1024 ^ (k + 1) \<le> unat b"
  proof (cases k)
    case 0
    then show ?thesis using False by (simp add: word_less_nat_alt not_less)
  next
    case (Suc j)
    then have "1024 ^ k \<le> unat b div 1024" using unit_loop_spec [OF u] by simp
    then have "1024 ^ k * 1024 \<le> unat b" by (simp add: less_eq_div_iff_mult_less_eq)
    then show ?thesis by (simp add: mult.commute)
  qed
  moreover have "unat b < 1024 ^ (k + 2)"
    using bound(2,3) by (simp add: div_less_iff_less_mult mult.commute)
  ultimately show ?thesis
    using False bound u by (auto simp: humanReadableDiskUsage_def unit_letter_def intro!: exI [of _ k])
qed (simp add: humanReadableDiskUsage_def)

text \<open>A negative number, which no size is, would pass the conversion as its absolute value.\<close>

lemma negative_size_converts: "bigIntToUint64 (- 1) = Inr 1"
  by (simp add: bigIntToUint64_def big_Uint64_def)

section \<open>Identifiers and validators\<close>

lemma NewEntryID_accepted: "EntryIDFromString (EntryID_value (NewEntryID draw)) = Inr (NewEntryID draw)"
  by (simp add: EntryIDFromString_iff NewEntryID_def EntryIDLength_def)
    (rule random_String_subset, simp add: entryIDCharacters_def)

text \<open>What the server generates it accepts. For every outcome of the random source, a new entry ID, a
  new guest link ID and a new session token are accepted, unchanged, by the function that parses them
  from a later request.\<close>

lemma generated_ids_are_accepted:
  "EntryIDFromString (EntryID_value (NewEntryID draw)) = Inr (NewEntryID draw) \<and>
   parseGuestLinkID (generateGuestLinkID draw) = Inr (generateGuestLinkID draw) \<and>
   SessionTokenFromString (SessionToken_String (NewSessionToken draw)) = Inr (NewSessionToken draw) \<and>
   length (SessionTokenHash_String (SessionToken_Hash (NewSessionToken draw))) = 64"
  using NewSessionToken_accepted parseGuestLinkID_generated NewEntryID_accepted by simp

text \<open>C37: A note is accepted exactly when it is harmless. No note is given for an empty text; any other
  text is accepted, as it is, exactly when it has at most 500 bytes, is not one of JavaScript's two
  nothings, and contains nowhere an opening or closing \<open>script\<close> or \<open>iframe\<close> tag, with white space where
  the pattern of the code allows it.\<close>

theorem note_is_accepted_iff_harmless:
  "parse_FileNote s = Inr n \<longleftrightarrow>
     (if s = [] then n = None
      else n = Some s \<and> length s \<le> 500 \<and> s \<noteq> ''null'' \<and> s \<noteq> ''undefined'' \<and>
        (\<nexists>a t b. illegal_tag t \<and> s = a @ t @ b))"
  using has_illegal_tag_iff [of s] by (auto simp: parse_FileNote_iff)

text \<open>The same server when the last statement of an insertion, that of the entry itself, fails in SQLite.\<close>

definition fail_insert :: "env \<Rightarrow> env" where
  "fail_insert E = E\<lparr>sq_fault := \<lambda>op k. op = OpInsertEntry \<and> k = 0 \<or> sq_fault E op k\<rparr>"

definition fails_inserting :: "web \<Rightarrow> web" where
  "fails_inserting W = W\<lparr>wb_env := fail_insert (wb_env W)\<rparr>"

lemma fail_insert_simps [simp]:
  "exec_chunk (fail_insert E) = exec_chunk E" "st_chunkSize (fail_insert E) = st_chunkSize E" "st_now (fail_insert E) = st_now E"
  "ReadSettings (fail_insert E) d = ReadSettings E d" "GetGuestLink (fail_insert E) d g = GetGuestLink E d g"
  by (simp_all add: fail_insert_def exec_chunk_def accepts_chunk_def fun_eq_iff ReadSettings_def GetGuestLink_def stmt_def)

lemma fails_inserting_fields [simp]:
  "wb_wall (fails_inserting W) = wb_wall W" "wb_env (fails_inserting W) = fail_insert (wb_env W)"
  "wb_draw (fails_inserting W) = wb_draw W"
  by (simp_all add: fails_inserting_def)

lemma fails_inserting_now [simp]: "server_now (fails_inserting W) = server_now W"
  by (simp add: fails_inserting_def server_now_def)

lemma fails_inserting_upload [simp]: "upload_from_request (fails_inserting W) = upload_from_request W"
  unfolding upload_from_request_def fails_inserting_now fails_inserting_fields by (rule refl)

lemma fails_inserting_expiration [simp]:
  "parseExpirationFromRequest (fails_inserting W) = parseExpirationFromRequest W"
  unfolding parseExpirationFromRequest_def fails_inserting_now by (rule refl)

lemma fails_inserting_guest_expiration [simp]:
  "parseGuestExpirationFromRequest (fails_inserting W) = parseGuestExpirationFromRequest W"
  unfolding parseGuestExpirationFromRequest_def fails_inserting_now by (rule refl)

lemma fails_inserting_cap [simp]:
  "enforceMaxFileLifetimeForUser (fails_inserting W) = enforceMaxFileLifetimeForUser W"
  unfolding enforceMaxFileLifetimeForUser_def fails_inserting_now fails_inserting_fields fail_insert_simps by (rule refl)

lemma fails_inserting_check [simp]: "guest_check (fails_inserting W) = guest_check W"
  unfolding guest_check_def fails_inserting_guest_expiration fails_inserting_fields fail_insert_simps by (rule refl)

lemma InsertEntry_fail_insert:
  assumes "InsertEntry E d src md = (Inr u, d1)"
  shows "\<exists>d2. InsertEntry (fail_insert E) d src md = (Inl DriverError, d2)"
  using assms
  by (auto simp: InsertEntry_def Let_def insert_entry_row_def split: prod.splits option.splits if_splits)
    (simp_all add: fail_insert_def)

lemma insertFile_fails:
  assumes "insertFileFromRequest W r d et g owner = (Inr i, d1)"
  shows "\<exists>d2. insertFileFromRequest (fails_inserting W) r d et g owner = (Inl (WebDbError DriverError), d2) \<and>
    entries d2 = entries d"
proof -
  obtain src md where u: "upload_from_request W r et g owner = Inr (src, md)"
    and I: "InsertEntry (wb_env W) d src md = (Inr (), d1)"
    by (rule insertFileFromRequest_ok [OF assms])
  obtain d2 where F: "InsertEntry (fail_insert (wb_env W)) d src md = (Inl DriverError, d2)"
    using InsertEntry_fail_insert [OF I] by blast
  have "entries d2 = entries d" using InsertEntry_err [OF F] by auto
  with u F show ?thesis by (simp add: insertFileFromRequest_def)
qed

text \<open>C39: A failure of the database while an upload is stored is blamed on the client. Take an upload, by
  a user or through a guest link, that would be accepted; when the database fails to insert the entry,
  the answer is 400 and "invalid request", and no entry is stored. The handlers mean to answer 500, but
  the type they look for in the error is not the type it was wrapped in.\<close>

theorem database_failure_is_answered_400:
  assumes "h = entryPost \<or> h = guestEntryPost" and "rs_status (fst (h W w r d)) = 200"
  shows "\<exists>d1. h (fails_inserting W) w r d = (http_Error w ''invalid request: '' (Some (WebDbError DriverError)) 400, d1) \<and>
    entries d1 = entries d"
  using assms(1)
proof
  assume h: "h = entryPost"
  let ?u = "fst (currentUser r)"
  obtain et where et: "parseExpirationFromRequest W r = Inr et" "enforceMaxFileLifetimeForUser W d ?u et = Inr ()"
    using assms(2) h by (auto simp: entryPost_def Let_def split: sum.splits)
  obtain i d1 where "insertFileFromRequest W r d et [] (usr_ID ?u) = (Inr i, d1)"
    using assms(2) h et upload_failed_not_200
    by (cases "insertFileFromRequest W r d et [] (usr_ID ?u)") (auto simp: entryPost_def Let_def split: sum.splits)
  from insertFile_fails [OF this] et show ?thesis
    by (auto simp: h entryPost_def Let_def upload_failed_status)
next
  assume h: "h = guestEntryPost"
  obtain q g et where c: "guest_check W w r d = Inr (q, g, et)"
    using assms(2) h by (cases "guest_check W w r d") (auto simp: guestEntryPost_halves guest_check_def Let_def split: sum.splits if_splits)
  then have c': "guest_check (fails_inserting W) w r d = Inr (q, g, et)" by simp
  obtain i d1 where "insertFileFromRequest W q d et g (UserID 0) = (Inr i, d1)"
    using assms(2) h c upload_failed_not_200
    by (cases "insertFileFromRequest W q d et g (UserID 0)")
      (auto simp: guestEntryPost_halves guest_store_def split: sum.splits)
  from insertFile_fails [OF this] c' show ?thesis
    by (auto simp: h guestEntryPost_halves guest_store_def upload_failed_status)
qed

theorem database_failure_is_answered_400_witness:
  "sq_fault (wb_env (fails_inserting sample_web)) OpInsertEntry 0 \<and>
   rs_status (fst (entryPost (fails_inserting sample_web) new_response sample_week_upload sample_capped_db)) = 400"
proof -
  obtain d1 where "entryPost (fails_inserting sample_web) new_response sample_week_upload sample_capped_db =
      (http_Error new_response ''invalid request: '' (Some (WebDbError DriverError)) 400, d1)"
    using database_failure_is_answered_400 [OF disjI1 [OF refl] sample_week_accepted] by blast
  then show ?thesis by (simp add: fail_insert_def)
qed

end
