(* ===== verification/GuestProperties.thy ===== *)
theory GuestProperties
  imports SampleRun
begin

text \<open>
  Properties of guest links over whole runs: the limit on uploads, kept by requests that run one
  after another and overstepped by a known number when they overlap, and what becomes of an upload
  whose link is deleted meanwhile.
\<close>

text \<open>C11: A guest link never gets more files than it allows, as long as requests run one after another.
  In every state the server reaches, the entries that came through a link are at most as many as its
  limit, and no entry refers to a link that does not exist.\<close>

theorem guest_links_keep_their_limit:
  assumes "server_reach P c0 s"
  shows "list_all (\<lambda>r. check_null (\<lambda>n. entry_count (sv_db s) (glr_id r) \<le> n) (glr_max_file_uploads r))
      (guest_links (sv_db s)) \<and>
    list_all (\<lambda>e. check_null (\<lambda>g. list_ex (\<lambda>r. glr_id r = g) (guest_links (sv_db s))) (er_guest_link_id e))
      (entries (sv_db s))"
proof (intro conjI)
  note ok = server_within [OF assms]
  have "check_null (\<lambda>n. entry_count (sv_db s) (glr_id r) \<le> n) (glr_max_file_uploads r)"
    if "r \<in> set (guest_links (sv_db s))" for r
    using links_withinD [OF ok that] by (cases "glr_max_file_uploads r") fastforce+
  then show "list_all (\<lambda>r. check_null (\<lambda>n. entry_count (sv_db s) (glr_id r) \<le> n) (glr_max_file_uploads r))
      (guest_links (sv_db s))"
    by (simp add: list_all_iff)
  have "list_ex (\<lambda>r. glr_id r = g) (guest_links (sv_db s))"
    if "e \<in> set (entries (sv_db s))" "er_guest_link_id e = Some g" for e g
  proof -
    have "Some g \<in> set (entry_links (sv_db s))" using that by (force simp: entry_links_def)
    from links_within_refs [OF ok UNIV_I this] show ?thesis
      unfolding glr_id_limits [symmetric] by (auto simp: list_ex_iff)
  qed
  then show "list_all (\<lambda>e. check_null (\<lambda>g. list_ex (\<lambda>r. glr_id r = g) (guest_links (sv_db s))) (er_guest_link_id e))
      (entries (sv_db s))"
    by (auto simp: list_all_iff check_null_def split: option.split)
qed

theorem guest_links_keep_their_limit_witness:
  "guest_links (sv_db run_uploaded) = [guest_link_row_of run_link] \<and> gl_MaxFileUploads run_link = Some 1 \<and>
   entry_count (sv_db run_uploaded) ''abcdefghijkmnopq'' = 1 \<and>
   list_all (\<lambda>r. check_null (\<lambda>n. entry_count (sv_db run_uploaded) (glr_id r) \<le> n) (glr_max_file_uploads r))
     (guest_links (sv_db run_uploaded))"
  using guest_links_keep_their_limit [OF run_uploaded_reached] run_uploaded_db by (simp add: run_link_def)

text \<open>C12: Requests that overlap overstep the limit by less than their number. With at most \<open>K\<close> requests
  in flight at any time, in any interleaving of the checks and the insertions of guest uploads with
  whole requests, collections and restarts, the files that came through a link and the uploads that
  have passed its check together exceed its limit by at most \<open>K - 1\<close>.\<close>

theorem overlapping_uploads_are_bounded:
  assumes "overlapping_reach K P c0 s ps"
  shows "list_all (\<lambda>r. check_null (\<lambda>n. entry_count (sv_db s) (glr_id r) + in_flight ps (glr_id r) \<le> n + int K - 1)
      (glr_max_file_uploads r)) (guest_links (sv_db s))"
proof -
  have ok: "links_within {} K (in_flight ps) (sv_db s)" using overlapping_within [OF assms] by simp
  have "check_null (\<lambda>n. entry_count (sv_db s) (glr_id r) + in_flight ps (glr_id r) \<le> n + int K - 1) (glr_max_file_uploads r)"
    if "r \<in> set (guest_links (sv_db s))" for r
    using links_withinD [OF ok that] by (cases "glr_max_file_uploads r") fastforce+
  then show ?thesis by (simp add: list_all_iff)
qed

theorem overlapping_uploads_are_bounded_witness:
  "\<exists>s. overlapping_reach 2 run_params () s [] \<and> guest_links (sv_db s) = [guest_link_row_of run_link] \<and>
     gl_MaxFileUploads run_link = Some 1 \<and> entry_count (sv_db s) ''abcdefghijkmnopq'' = 1 + int 2 - 1 \<and>
     list_all (\<lambda>r. check_null (\<lambda>n. entry_count (sv_db s) (glr_id r) + in_flight [] (glr_id r) \<le> n + int 2 - 1)
       (glr_max_file_uploads r)) (guest_links (sv_db s))"
proof -
  obtain s where s: "overlapping_reach 2 run_params () s []" "guest_links (sv_db s) = [guest_link_row_of run_link]"
    "entry_count (sv_db s) ''abcdefghijkmnopq'' = 2" by (rule run_overlapping)
  have "gl_MaxFileUploads run_link = Some 1" by (simp add: run_link_def)
  moreover have "entry_count (sv_db s) ''abcdefghijkmnopq'' = 1 + int 2 - 1" using s(3) by simp
  ultimately show ?thesis using s(1,2) overlapping_uploads_are_bounded [OF s(1)] by blast
qed

lemma refused_check_not_200: "guest_check W w r d = Inl w1 \<Longrightarrow> rs_status w1 \<noteq> 200"
  by (auto simp: guest_check_def Let_def split: sum.splits if_splits)

lemma checked_link: "guest_check W w r d = Inr (q, g, et) \<Longrightarrow> mux_Var r ''guestLinkID'' = g"
  by (auto simp: guest_check_def Let_def parseGuestLinkID_iff split: sum.splits if_splits)

lemma GetGuestLink_recounted:
  assumes "GetGuestLink E d i = Inr gl" and "guest_links d1 = guest_links d"
  shows "GetGuestLink E d1 i = Inr (gl\<lparr>gl_FilesUploaded := entry_count d1 i\<rparr>)"
proof -
  obtain r where st: "stmt E OpGetGuestLink 0 = Inr ()" and r: "first_row (filter (\<lambda>r. glr_id r = i) (guest_links d)) = Some r"
    and gl: "guestLinkFromRow r (entry_count d (glr_id r)) = Inr gl"
    using assms(1) by (auto simp: GetGuestLink_def and_then_eq_Inr_iff split: option.splits)
  have "guestLinkFromRow r n = Inr (gl\<lparr>gl_FilesUploaded := n\<rparr>)" for n
    using gl by (auto simp: guestLinkFromRow_def and_then_eq_Inr_iff split: if_splits)
  moreover have "glr_id r = i" using first_row_filterD [OF r] by simp
  ultimately show ?thesis using st r by (simp add: GetGuestLink_def assms(2))
qed

text \<open>
  An upload that a database accepts is stored in another one as well, once it has passed the check,
  when its identifier is as unused there and the users are the same: nothing is checked again.
\<close>

lemma checked_upload_is_stored:
  assumes "rs_status (fst (guestEntryPost W w r d)) = 200" and "0 < st_chunkSize (wb_env W)"
    and "no_faults (wb_env W) OpInsertEntry" and "users d' = users d" and "mux_Var r ''guestLinkID'' = g"
    and "\<forall>x \<in> set (entries_data d'). cr_id x \<noteq> EntryID_value (NewEntryID (wb_draw W))"
    and "EntryID_value (NewEntryID (wb_draw W)) \<notin> er_id ` set (entries d')"
    and "guest_links d' = guest_links d \<or> g \<notin> glr_id ` set (guest_links d')"
  obtains q et a d2 where "guest_check W w r d = Inr (q, g, et)" "guest_store W w (q, g, et) d' = (a, d2)"
    "rs_status a = 200" "g \<noteq> []"
proof -
  let ?n = "EntryID_value (NewEntryID (wb_draw W))"
  obtain q g' et where c: "guest_check W w r d = Inr (q, g', et)"
    using assms(1) by (cases "guest_check W w r d") (auto simp: guestEntryPost_halves refused_check_not_200)
  have g': "g' = g" using checked_link [OF c] assms(5) by simp
  note c = c [unfolded g']
  have g: "g \<noteq> []" by (rule guest_check_Inr [OF c])
  obtain a0 d0 where st: "guest_store W w (q, g, et) d = (a0, d0)" "rs_status a0 = 200"
    using assms(1) c by (cases "guest_store W w (q, g, et) d") (simp add: guestEntryPost_halves)
  obtain src md where u: "upload_from_request W q et g (UserID 0) = Inr (src, md)"
    and I: "InsertEntry (wb_env W) d src md = (Inr (), d0)"
    by (rule guest_store_ok [OF st assms(2) g])
  have md1: "gl_ID (um_GuestLink md) = g" by (rule upload_from_request_ok [OF u])
  have md2: "um_ID md = NewEntryID (wb_draw W)" by (rule upload_from_request_ok [OF u])
  note ok = InsertEntry_ok [OF I assms(2)]
  have "inserted_owner d' md = inserted_owner d md \<or> inserted_owner d' md = None"
    using assms(8)
  proof
    assume "g \<notin> glr_id ` set (guest_links d')"
    then have "filter (\<lambda>x. glr_id x = g) (guest_links d') = []" by (auto simp: filter_empty_conv)
    then show ?thesis using g by (simp add: inserted_owner_def md1)
  qed (simp add: inserted_owner_def)
  then have "entry_ok (wb_env W) d' (entry_row_of d' md)"
    using ok(4) by (auto simp: entry_ok_def entry_checks_def entry_row_of_def assms(4))
  then obtain d2 where I': "InsertEntry (wb_env W) d' src md = (Inr (), d2)"
    using InsertEntry_succeeds [OF assms(2,3) ok(1), of d' md, unfolded md2, OF assms(6,7)] by blast
  have "rs_status w = 200" using st by (auto simp: guest_store_def insertFileFromRequest_def u I respondJSON_def split: if_splits)
  then have "rs_status (fst (guest_store W w (q, g, et) d')) = 200"
    by (simp add: guest_store_def insertFileFromRequest_def u I' respondJSON_def)
  with that [OF c _ _ g] show ?thesis by (metis prod.collapse)
qed

text \<open>A link with room for one more file is full after one more.\<close>

lemma full_link_refuses:
  assumes "guest_check W w r d = Inr (q, g, et)" and "GetGuestLink E d g = Inr gl"
    and "gl_MaxFileUploads gl = Some (gl_FilesUploaded gl + 1)"
    and "entry_count d1 g = entry_count d g + 1" and "guest_links d1 = guest_links d"
  shows "guestEntryPost W w r d1 = (http_Error w ''Guest link is no longer active'' None 401, d1)"
proof -
  have count: "gl_FilesUploaded gl = entry_count d g" by (rule GetGuestLink_Inr [OF assms(2)])
  have parse: "parseGuestLinkID (mux_Var r ''guestLinkID'') = Inr g"
    using assms(1) by (auto simp: guest_check_def Let_def split: sum.splits if_splits)
  then obtain gl2 where gl2: "GetGuestLink (wb_env W) d g = Inr gl2"
    using assms(1) by (auto simp: guest_check_def split: sum.splits)
  then have "gl2 = gl" using assms(2) by (auto simp: GetGuestLink_def and_then_eq_Inr_iff split: option.splits)
  with GetGuestLink_recounted [OF gl2 assms(5)] assms(3,4) count
  have "GetGuestLink (wb_env W) d1 g = Inr (gl\<lparr>gl_FilesUploaded := entry_count d g + 1\<rparr>)"
    "\<not> GuestLink_IsActive (wb_wall W) (gl\<lparr>gl_FilesUploaded := entry_count d g + 1\<rparr>)"
    by (simp_all add: GuestLink_IsActive_def GuestLink_CanAcceptMoreFiles_def)
  with parse show ?thesis by (simp add: guestEntryPost_def)
qed

text \<open>C13: The limit on uploads has a race. Take two uploads through one link with room for one more
  file, each of which would be accepted by itself. One after another, the second is refused. But when
  both have passed the check before either is stored, both are accepted, and the link has one file too
  many.\<close>

theorem overlapping_uploads_exceed_the_limit:
  assumes "guestEntryPost W1 w1 r1 d = (a1, d1)" and "rs_status a1 = 200"
    and "rs_status (fst (guestEntryPost W2 w2 r2 d)) = 200"
    and "mux_Var r1 ''guestLinkID'' = g" and "mux_Var r2 ''guestLinkID'' = g"
    and "GetGuestLink (wb_env W1) d g = Inr gl" and "gl_MaxFileUploads gl = Some (gl_FilesUploaded gl + 1)"
    and "0 < st_chunkSize (wb_env W1)" and "0 < st_chunkSize (wb_env W2)" and "no_faults (wb_env W2) OpInsertEntry"
    and "EntryID_value (NewEntryID (wb_draw W2)) \<noteq> EntryID_value (NewEntryID (wb_draw W1))"
    and "\<forall>x \<in> set (entries_data d). cr_id x \<noteq> EntryID_value (NewEntryID (wb_draw W2))"
    and "EntryID_value (NewEntryID (wb_draw W2)) \<notin> er_id ` set (entries d)"
  shows "guestEntryPost W2 w2 r2 d1 = (http_Error w2 ''Guest link is no longer active'' None 401, d1) \<and>
    (\<exists>c1 c2 a2 d2. guest_check W1 w1 r1 d = Inr c1 \<and> guest_check W2 w2 r2 d = Inr c2 \<and>
      guest_store W1 w1 c1 d = (a1, d1) \<and> guest_store W2 w2 c2 d1 = (a2, d2) \<and> rs_status a2 = 200 \<and>
      entry_count d2 g = the (gl_MaxFileUploads gl) + 1 \<and> guest_links d2 = guest_links d)"
proof -
  obtain q1 g1 et1 where c1: "guest_check W1 w1 r1 d = Inr (q1, g1, et1)"
    using assms(1,2) refused_check_not_200
    by (cases "guest_check W1 w1 r1 d") (auto simp: guestEntryPost_halves)
  have "g1 = g" using checked_link [OF c1] assms(4) by simp
  note c1 = c1 [unfolded this]
  have s1: "guest_store W1 w1 (q1, g, et1) d = (a1, d1)" using assms(1) c1 by (simp add: guestEntryPost_halves)
  have g: "g \<noteq> []" by (rule guest_check_Inr [OF c1])
  obtain src md where u: "upload_from_request W1 q1 et1 g (UserID 0) = Inr (src, md)"
    and I: "InsertEntry (wb_env W1) d src md = (Inr (), d1)"
    and n1: "entry_count d1 g = entry_count d g + 1" "guest_links d1 = guest_links d"
    by (rule guest_store_ok [OF s1 assms(2,8) g])
  have md: "um_ID md = NewEntryID (wb_draw W1)" by (rule upload_from_request_ok [OF u])
  note d1 = InsertEntry_ok(2) [OF I assms(8)]
  obtain q2 et2 a2 d2 where c2: "guest_check W2 w2 r2 d = Inr (q2, g, et2)"
    and s2: "guest_store W2 w2 (q2, g, et2) d1 = (a2, d2)" "rs_status a2 = 200"
  proof (rule checked_upload_is_stored [OF assms(3,9,10) _ assms(5)])
    show "users d1 = users d" by (simp add: d1)
    show "\<forall>x \<in> set (entries_data d1). cr_id x \<noteq> EntryID_value (NewEntryID (wb_draw W2))"
      using assms(11,12) by (auto simp: d1 md dest: file_rows_id)
    show "EntryID_value (NewEntryID (wb_draw W2)) \<notin> er_id ` set (entries d1)"
      using assms(11,13) by (auto simp: d1 md entry_row_of_def)
  qed (use n1 in simp_all)
  have n2: "entry_count d2 g = entry_count d1 g + 1" "guest_links d2 = guest_links d1"
    by (rule guest_store_ok [OF s2 assms(9) g], assumption)+
  have count: "gl_FilesUploaded gl = entry_count d g" by (rule GetGuestLink_Inr [OF assms(6)])
  have "guestEntryPost W2 w2 r2 d1 = (http_Error w2 ''Guest link is no longer active'' None 401, d1)"
    by (rule full_link_refuses [OF c2 assms(6,7) n1])
  with c1 c2 s1 s2 n1 n2 count assms(7) show ?thesis by auto
qed

text \<open>Two servers that draw different identifiers, and the uploads they accept.\<close>

lemma sample_link_upload_accepted:
  assumes "NewEntryID (wb_draw W) = EntryID i" and "wb_env W = sample_env" and "wb_wall W = sample_now"
  obtains a d1 where "guestEntryPost W new_response sample_guest_upload sample_link_db = (a, d1)" "rs_status a = 200"
    "guest_store W new_response (sample_guest_upload, ''abcdefghijkmnopq'', sample_week) sample_link_db = (a, d1)"
proof -
  obtain a d1 where st: "guest_store W new_response (sample_guest_upload, ''abcdefghijkmnopq'', sample_week) sample_link_db = (a, d1)"
      "rs_status a = 200"
    by (rule sample_guest_store [OF assms(2,1) _ _ sample_link_row_owner]) (simp_all add: sample_link_db_rows)
  with that show ?thesis by (simp add: guestEntryPost_halves sample_guest_check [OF assms(2,3)])
qed

lemma sample_link_var: "mux_Var sample_guest_upload ''guestLinkID'' = ''abcdefghijkmnopq''"
  by (rule checked_link [OF sample_guest_check [where W = sample_web and w = new_response]]) simp_all

theorem overlapping_uploads_exceed_the_limit_witness:
  "\<exists>a1 d1 a2 d2.
     guest_store sample_web new_response (sample_guest_upload, ''abcdefghijkmnopq'', sample_week) sample_link_db = (a1, d1) \<and>
     guest_store other_web new_response (sample_guest_upload, ''abcdefghijkmnopq'', sample_week) d1 = (a2, d2) \<and>
     rs_status a1 = 200 \<and> rs_status a2 = 200 \<and> entry_count d2 ''abcdefghijkmnopq'' = 2 \<and>
     gl_MaxFileUploads sample_link = Some 1 \<and>
     rs_status (fst (guestEntryPost other_web new_response sample_guest_upload d1)) = 401"
proof -
  have W: "wb_env sample_web = sample_env" "wb_wall sample_web = sample_now"
    "wb_env other_web = sample_env" "wb_wall other_web = sample_now"
    by simp_all
  obtain a1 d1 where 1: "guestEntryPost sample_web new_response sample_guest_upload sample_link_db = (a1, d1)"
    "rs_status a1 = 200"
    "guest_store sample_web new_response (sample_guest_upload, ''abcdefghijkmnopq'', sample_week) sample_link_db = (a1, d1)"
    by (rule sample_link_upload_accepted [OF run_new_ids(1) W(1,2)])
  obtain a d where "guestEntryPost other_web new_response sample_guest_upload sample_link_db = (a, d)" "rs_status a = 200"
    by (rule sample_link_upload_accepted [OF run_new_ids(2)]) simp_all
  then have 2: "rs_status (fst (guestEntryPost other_web new_response sample_guest_upload sample_link_db)) = 200" by simp
  have gl: "gl_MaxFileUploads (as_stored_guest_link sample_link 0) = Some (gl_FilesUploaded (as_stored_guest_link sample_link 0) + 1)"
    "the (gl_MaxFileUploads (as_stored_guest_link sample_link 0)) = 1" "gl_MaxFileUploads sample_link = Some 1"
    by (simp_all add: as_stored_guest_link_def sample_link_def)
  have "guestEntryPost other_web new_response sample_guest_upload d1 =
      (http_Error new_response ''Guest link is no longer active'' None 401, d1) \<and>
    (\<exists>c1 c2 a2 d2. guest_check sample_web new_response sample_guest_upload sample_link_db = Inr c1 \<and>
      guest_check other_web new_response sample_guest_upload sample_link_db = Inr c2 \<and>
      guest_store sample_web new_response c1 sample_link_db = (a1, d1) \<and>
      guest_store other_web new_response c2 d1 = (a2, d2) \<and> rs_status a2 = 200 \<and>
      entry_count d2 ''abcdefghijkmnopq'' = the (gl_MaxFileUploads (as_stored_guest_link sample_link 0)) + 1 \<and>
      guest_links d2 = guest_links sample_link_db)"
    by (rule overlapping_uploads_exceed_the_limit [OF 1(1,2) 2 sample_link_var sample_link_var _ gl(1)])
      (simp_all only: W sample_link_got sample_link_db_rows run_new_ids sample_env_simps, simp_all)
  with 1 gl(2,3) show ?thesis by (auto simp: sample_guest_check [OF W(1,2)] sample_guest_check [OF W(3,4)])
qed

text \<open>C28: An upload may outlive its link. Take an upload that would be accepted by itself. After its link
  is deleted it is refused with 404. But when the link is deleted between the check and the insertion,
  it is accepted all the same: its entry refers to a link that is not there, and has no owner.\<close>

theorem upload_outlives_its_link:
  assumes "rs_status (fst (guestEntryPost W w r d)) = 200" and "mux_Var r ''guestLinkID'' = g"
    and "DeleteGuestLink E d g = (Inr (), d1)"
    and "0 < st_chunkSize (wb_env W)" and "no_faults (wb_env W) OpInsertEntry" and "\<not> sq_fault (wb_env W) OpGetGuestLink 0"
    and "\<forall>x \<in> set (entries_data d). cr_id x \<noteq> EntryID_value (NewEntryID (wb_draw W))"
    and "EntryID_value (NewEntryID (wb_draw W)) \<notin> er_id ` set (entries d)"
  shows "guestEntryPost W w r d1 = (http_Error w ''Invalid guest link ID'' None 404, d1) \<and>
    (\<exists>c a d2 e. guest_check W w r d = Inr c \<and> guest_store W w c d1 = (a, d2) \<and> rs_status a = 200 \<and>
      entries d2 = entries d1 @ [e] \<and> er_guest_link_id e = Some g \<and> er_owner_user_id e = None \<and>
      g \<notin> glr_id ` set (guest_links d2))"
proof -
  note d1 = DeleteGuestLink_ok [OF assms(3)]
  have gone: "g \<notin> glr_id ` set (guest_links d1)" by (auto simp: d1)
  then have none: "filter (\<lambda>r. glr_id r = g) (guest_links d1) = []" by (auto simp: filter_empty_conv)
  have "map er_id (entries d1) = map er_id (entries d)" by (simp add: d1 comp_def if_distrib cong: if_cong)
  then have ids: "er_id ` set (entries d1) = er_id ` set (entries d)" by (metis set_map)
  obtain q et a d2 where c: "guest_check W w r d = Inr (q, g, et)"
    and st: "guest_store W w (q, g, et) d1 = (a, d2)" "rs_status a = 200" and g: "g \<noteq> []"
    by (rule checked_upload_is_stored [OF assms(1,4,5) _ assms(2), of d1])
      (use assms(7,8) gone ids in \<open>simp_all add: d1\<close>)
  obtain src md where u: "upload_from_request W q et g (UserID 0) = Inr (src, md)"
    and e: "er_guest_link_id (entry_row_of d1 md) = Some g" "entries d2 = entries d1 @ [entry_row_of d1 md]"
      "guest_links d2 = guest_links d1"
    by (rule guest_store_ok [OF st assms(4) g])
  have "gl_ID (um_GuestLink md) = g" by (rule upload_from_request_ok [OF u])
  then have "er_owner_user_id (entry_row_of d1 md) = None"
    using g none by (simp add: entry_row_of_def inserted_owner_def)
  moreover have "parseGuestLinkID (mux_Var r ''guestLinkID'') = Inr g"
    using c by (auto simp: guest_check_def Let_def split: sum.splits if_splits)
  then have "guestEntryPost W w r d1 = (http_Error w ''Invalid guest link ID'' None 404, d1)"
    using none assms(6) by (simp add: guestEntryPost_def GetGuestLink_def stmt_def is_guest_link_not_found_def)
  ultimately show ?thesis using c st e gone by auto
qed

theorem upload_outlives_its_link_witness:
  "\<exists>d1 a d2 e. DeleteGuestLink sample_env sample_link_db ''abcdefghijkmnopq'' = (Inr (), d1) \<and>
     guest_store sample_web new_response (sample_guest_upload, ''abcdefghijkmnopq'', sample_week) d1 = (a, d2) \<and>
     rs_status a = 200 \<and> entries d2 = [e] \<and> er_owner_user_id e = None \<and> guest_links d1 = [] \<and>
     rs_status (fst (guestEntryPost sample_web new_response sample_guest_upload d1)) = 404"
proof -
  let ?g = "''abcdefghijkmnopq''"
  have W: "wb_env sample_web = sample_env" "wb_wall sample_web = sample_now" by simp_all
  obtain d1 where del: "DeleteGuestLink sample_env sample_link_db ?g = (Inr (), d1)"
    by (simp add: DeleteGuestLink_def transaction_def and_then_def stmt_def)
  have d1: "entries d1 = []" "guest_links d1 = []"
    by (simp_all add: DeleteGuestLink_ok [OF del] sample_link_db_rows sample_link_def)
  obtain a d where "guestEntryPost sample_web new_response sample_guest_upload sample_link_db = (a, d)" "rs_status a = 200"
    by (rule sample_link_upload_accepted [OF run_new_ids(1) W])
  then have acc: "rs_status (fst (guestEntryPost sample_web new_response sample_guest_upload sample_link_db)) = 200" by simp
  have "guestEntryPost sample_web new_response sample_guest_upload d1 =
      (http_Error new_response ''Invalid guest link ID'' None 404, d1) \<and>
    (\<exists>c a d2 e. guest_check sample_web new_response sample_guest_upload sample_link_db = Inr c \<and>
      guest_store sample_web new_response c d1 = (a, d2) \<and> rs_status a = 200 \<and>
      entries d2 = entries d1 @ [e] \<and> er_guest_link_id e = Some ?g \<and> er_owner_user_id e = None \<and>
      ?g \<notin> glr_id ` set (guest_links d2))"
    by (rule upload_outlives_its_link [OF acc sample_link_var del]) (simp_all add: W sample_link_db_rows)
  with del d1 show ?thesis by (auto simp: sample_guest_check [OF W])
qed

end
