(* ===== verification/StartUp.thy ===== *)
theory StartUp
  imports Server
begin

text \<open>
  Starting a process: \<open>sqlite.New\<close> with its pragmas, and the part of \<open>main\<close> that runs before the
  server listens. What the operating system and the driver answer is in records; a fatal error or a
  panic is an outcome of its own.
\<close>

section \<open>Opening the database\<close>

text \<open>The scripts that are run on the handle, in the order they are issued.\<close>

datatype sqlite_statement =
  OpenDatabase string
| SetPragmas
| SetLitestreamPragmas
| ReadAutoVacuum
| VacuumIncrementally
| ApplyMigrations

text \<open>Which of them succeed, and the auto-vacuum mode the database reports.\<close>

record driver =
  drv_succeeds :: "sqlite_statement \<Rightarrow> bool"
  drv_auto_vacuum :: int

datatype start_error =
  OpenFailed | PragmasFailed | LitestreamPragmasFailed | AutoVacuumUnreadable | MigrationsFailed | SetupTokenFailed
| ResetFailed

record sqlite_params =
  pa_Path :: string
  pa_OptimizeForLitestream :: bool
  pa_PicoShareChunkSize :: nat

record sqlite_store =
  ss_chunkSize :: nat
  ss_optimizeForLitestream :: bool

text \<open>Issue a statement, and go on unless it fails.\<close>

definition issue ::
  "driver \<Rightarrow> sqlite_statement \<Rightarrow> start_error \<Rightarrow> (start_error + 'a) \<times> sqlite_statement list \<Rightarrow>
     (start_error + 'a) \<times> sqlite_statement list" where
  "issue D s e k = (if drv_succeeds D s then (fst k, s # snd k) else (Inl e, [s]))"

definition applyMigrations :: "driver \<Rightarrow> 'a \<Rightarrow> (start_error + 'a) \<times> sqlite_statement list" where
  "applyMigrations D x = issue D ApplyMigrations MigrationsFailed (Inr x, [])"

text \<open>The switch to incremental vacuuming may fail: the store is opened all the same.\<close>

definition enableIncrementalVacuum ::
  "driver \<Rightarrow> (start_error + 'a) \<times> sqlite_statement list \<Rightarrow> (start_error + 'a) \<times> sqlite_statement list" where
  "enableIncrementalVacuum D k =
     issue D ReadAutoVacuum AutoVacuumUnreadable
       (if drv_auto_vacuum D = 2 then k else (fst k, VacuumIncrementally # snd k))"

definition sqlite_New :: "driver \<Rightarrow> sqlite_params \<Rightarrow> (start_error + sqlite_store) \<times> sqlite_statement list" where
  "sqlite_New D p =
     issue D (OpenDatabase (pa_Path p)) OpenFailed
       (issue D SetPragmas PragmasFailed
         (let rest = enableIncrementalVacuum D
                (applyMigrations D
                  \<lparr>ss_chunkSize = New_chunkSize (pa_PicoShareChunkSize p),
                   ss_optimizeForLitestream = pa_OptimizeForLitestream p\<rparr>)
          in if pa_OptimizeForLitestream p then issue D SetLitestreamPragmas LitestreamPragmasFailed rest else rest))"

section \<open>The process\<close>

text \<open>\<open>filepath.Dir\<close> on Unix: the part before the last separator, cleaned lexically.\<close>

fun split_slash :: "string \<Rightarrow> string \<Rightarrow> string list" where
  "split_slash acc [] = [rev acc]"
| "split_slash acc (c # s) = (if c = CHR ''/'' then rev acc # split_slash [] s else split_slash (c # acc) s)"

fun clean_elements :: "bool \<Rightarrow> string list \<Rightarrow> string list \<Rightarrow> string list" where
  "clean_elements rooted stack [] = rev stack"
| "clean_elements rooted stack (e # es) =
     (if e = [] \<or> e = ''.'' then clean_elements rooted stack es
      else if e = ''..'' then
        (if stack \<noteq> [] \<and> hd stack \<noteq> ''..'' then clean_elements rooted (tl stack) es
         else clean_elements rooted (if rooted then stack else e # stack) es)
      else clean_elements rooted (e # stack) es)"

fun join_slash :: "string list \<Rightarrow> string" where
  "join_slash [] = []"
| "join_slash [e] = e"
| "join_slash (e # es) = e @ ''/'' @ join_slash es"

definition filepath_Clean :: "string \<Rightarrow> string" where
  "filepath_Clean path =
     (let rooted = has_prefix path ''/''; out = join_slash (clean_elements rooted [] (split_slash [] path))
      in if rooted then ''/'' @ out else if out = [] then ''.'' else out)"

definition filepath_Dir :: "string \<Rightarrow> string" where
  "filepath_Dir path = filepath_Clean (rev (dropWhile (\<lambda>c. c \<noteq> CHR ''/'') (rev path)))"

text \<open>Environment variables, whether a directory is missing, whether it can be made, and the driver.\<close>

record host =
  ho_Getenv :: "string \<Rightarrow> string"
  ho_missing :: "string \<Rightarrow> bool"
  ho_Mkdir :: "string \<Rightarrow> bool"
  ho_driver :: driver

record flags =
  fl_db :: string
  fl_resetOIDC :: bool

definition isLitestreamEnabled :: "host \<Rightarrow> bool" where
  "isLitestreamEnabled H \<longleftrightarrow> ho_Getenv H ''LITESTREAM_BUCKET'' \<noteq> []"

text \<open>\<open>ensureDirExists\<close>: \<^const>\<open>False\<close> is the panic.\<close>

definition ensureDirExists :: "host \<Rightarrow> string \<Rightarrow> bool" where
  "ensureDirExists H dir \<longleftrightarrow> \<not> (ho_missing H dir \<and> \<not> ho_Mkdir H dir)"

definition collection_interval :: int where "collection_interval = 7 * hour"

record 'c serving =
  se_address :: string
  se_behind_proxy :: bool
  se_store :: sqlite_store
  se_printed_token :: "setup_token option"
  se_state :: "'c server_state"

datatype 'c outcome =
  Serving "'c serving"
| ResetDone setup_token
| Fatal start_error
| Panicked

definition listen_address :: "host \<Rightarrow> string" where
  "listen_address H = '':'' @ (let port = ho_Getenv H ''PORT'' in if port = [] then ''4001'' else port)"

text \<open>
  The store's operations run in the environment \<open>E\<close>, with the chunk size the store was opened with.
  The result is the outcome, the database, and the statements \<open>sqlite.New\<close> issued.
\<close>

definition main :: "host \<Rightarrow> flags \<Rightarrow> 'c \<Rightarrow> env \<Rightarrow> db \<Rightarrow> 'c outcome \<times> db \<times> sqlite_statement list" where
  "main H opts c0 E d =
     (if \<not> ensureDirExists H (filepath_Dir (fl_db opts)) then (Panicked, d, [])
      else case sqlite_New (ho_driver H)
                  \<lparr>pa_Path = fl_db opts, pa_OptimizeForLitestream = isLitestreamEnabled H, pa_PicoShareChunkSize = 0\<rparr> of
             (Inl e, log) \<Rightarrow> (Fatal e, d, log)
           | (Inr store, log) \<Rightarrow>
               (let E1 = E\<lparr>st_chunkSize := ss_chunkSize store\<rparr> in
                if fl_resetOIDC opts
                then (case runResetOIDC E1 d of
                        (Inl _, d1) \<Rightarrow> (Fatal ResetFailed, d1, log)
                      | (Inr token, d1) \<Rightarrow> (ResetDone token, d1, log))
                else (case ensureSetupToken E1 d of
                        (Inl _, d1) \<Rightarrow> (Fatal SetupTokenFailed, d1, log)
                      | (Inr token, d1) \<Rightarrow>
                          (Serving \<lparr>se_address = listen_address H,
                                    se_behind_proxy = ho_Getenv H ''PS_BEHIND_PROXY'' \<noteq> [],
                                    se_store = store, se_printed_token = token,
                                    se_state = start_state c0 d1\<rparr>, d1, log))))"

text \<open>
  A serving process and what can happen to it: the first signal begins an orderly shutdown, which
  returns with or without an error (after at most five seconds); a second signal ends it at once.
\<close>

datatype process_event = Signal | ShutdownReturns bool

datatype process_state = Listening | ShuttingDown | Exited nat

fun process_step :: "process_state \<Rightarrow> process_event \<Rightarrow> process_state" where
  "process_step Listening Signal = ShuttingDown"
| "process_step ShuttingDown Signal = Exited 1"
| "process_step ShuttingDown (ShutdownReturns ok) = Exited (if ok then 0 else 1)"
| "process_step s e = s"

lemma exited_stays: "foldl process_step (Exited n) es = Exited n"
  by (induction es) simp_all

text \<open>Two signals end every process, whatever else happens, and none ends without a signal.\<close>

lemma two_signals_exit:
  "2 \<le> length (filter (\<lambda>e. e = Signal) es) \<Longrightarrow> \<exists>n. foldl process_step Listening es = Exited n"
proof -
  have one: "1 \<le> length (filter (\<lambda>e. e = Signal) es) \<Longrightarrow> \<exists>n. foldl process_step ShuttingDown es = Exited n" for es
  proof (induction es)
    case (Cons e es)
    then show ?case by (cases e) (simp_all add: exited_stays)
  qed simp
  show "2 \<le> length (filter (\<lambda>e. e = Signal) es) \<Longrightarrow> \<exists>n. foldl process_step Listening es = Exited n"
  proof (induction es)
    case (Cons e es)
    then show ?case using one [of es] by (cases e) simp_all
  qed simp
qed

lemma no_signal_no_exit: "Signal \<notin> set es \<Longrightarrow> foldl process_step Listening es = Listening"
proof (induction es)
  case (Cons e es)
  then show ?case by (cases e) simp_all
qed simp

text \<open>The clock of \<open>Params\<close> is the one of the environment, \<^const>\<open>st_now\<close>.\<close>

section \<open>What it takes to start\<close>

lemma issue_Inr: "fst (issue D s e k) = Inr x \<longleftrightarrow> drv_succeeds D s \<and> fst k = Inr x"
  by (simp add: issue_def)

lemma issue_log: "drv_succeeds D s \<Longrightarrow> snd (issue D s e k) = s # snd k"
  by (simp add: issue_def)

definition needed_statements :: "sqlite_params \<Rightarrow> sqlite_statement list" where
  "needed_statements p =
     [OpenDatabase (pa_Path p), SetPragmas] @ (if pa_OptimizeForLitestream p then [SetLitestreamPragmas] else []) @
     [ReadAutoVacuum, ApplyMigrations]"

lemma sqlite_New_Inr:
  "fst (sqlite_New D p) = Inr st \<longleftrightarrow>
     list_all (drv_succeeds D) (needed_statements p) \<and>
     st = \<lparr>ss_chunkSize = New_chunkSize (pa_PicoShareChunkSize p), ss_optimizeForLitestream = pa_OptimizeForLitestream p\<rparr>"
  by (auto simp: sqlite_New_def Let_def enableIncrementalVacuum_def applyMigrations_def issue_Inr needed_statements_def)

lemma sqlite_New_log:
  assumes "fst (sqlite_New D p) = Inr st"
  shows "filter (\<lambda>s. s \<noteq> VacuumIncrementally) (snd (sqlite_New D p)) = needed_statements p \<and>
    (VacuumIncrementally \<in> set (snd (sqlite_New D p)) \<longleftrightarrow> drv_auto_vacuum D \<noteq> 2)"
  using assms unfolding sqlite_New_Inr
  by (auto simp: sqlite_New_def Let_def enableIncrementalVacuum_def applyMigrations_def issue_log needed_statements_def)

lemma main_serving:
  assumes "main H opts c0 E d = (Serving v, d1, log)"
  defines "p \<equiv> \<lparr>pa_Path = fl_db opts, pa_OptimizeForLitestream = isLitestreamEnabled H, pa_PicoShareChunkSize = 0\<rparr>"
  shows "sqlite_New (ho_driver H) p = (Inr (se_store v), log)" and "\<not> fl_resetOIDC opts"
    and "ensureSetupToken (E\<lparr>st_chunkSize := ss_chunkSize (se_store v)\<rparr>) d = (Inr (se_printed_token v), d1)"
    and "se_state v = start_state c0 d1" and "se_address v = listen_address H"
  using assms by (auto simp: main_def Let_def split: if_splits prod.splits sum.splits)

text \<open>A default path has a default directory.\<close>

lemma default_directory: "filepath_Dir ''data/store.db'' = ''data''"
  by (simp add: filepath_Dir_def filepath_Clean_def Let_def has_prefix_def)

end
