(* ===== verification/Templates.thy ===== *)
theory Templates
  imports Views
begin

text \<open>
  The template sets that the pages are rendered with (\<open>handlers/views.go\<close> and the handlers of the
  other pages): for each page its files and the functions its templates may call, which is what the
  code hands to package \<open>html/template\<close>. The HTML files themselves and the template engine are not
  modelled, so neither is whether a set parses.
\<close>

section \<open>Functions of templates\<close>

text \<open>The text functions by their signatures; \<open>'v\<close> stands for the values \<open>toJSON\<close> and \<open>dict\<close> are given.\<close>

datatype 'v template_function =
  OfTime "time \<Rightarrow> string"
| OfExpiration "expiration_time \<Rightarrow> string \<Rightarrow> string"
| OfSizeLimit "u64 option \<Rightarrow> string \<Rightarrow> string option"
| OfCountLimit "int option \<Rightarrow> string \<Rightarrow> string"
| OfLifetime "file_lifetime \<Rightarrow> string"
| LifetimeName "file_lifetime \<Rightarrow> string \<Rightarrow> string"
| OfProgress "nat \<Rightarrow> int option \<Rightarrow> int"
| OfFileSize "file_size \<Rightarrow> string option"
| OfBytes "u64 \<Rightarrow> string option"
| OfShare "u64 \<Rightarrow> u64 \<Rightarrow> string"
| TestExpiration "expiration_time \<Rightarrow> bool"
| OfContentType "content_type \<Rightarrow> string"
| OfIndex "int \<Rightarrow> int \<Rightarrow> int"
| ToJSON "'v \<Rightarrow> string option"
| Dict "'v template_value list \<Rightarrow> dict_error + (string \<rightharpoonup> 'v template_value)"

type_synonym 'v func_map = "(string \<times> 'v template_function) list"

definition isNeverExpire :: "expiration_time \<Rightarrow> bool" where
  "isNeverExpire et \<longleftrightarrow> et = NeverExpire"

definition formatDownloadIndex :: "int \<Rightarrow> int \<Rightarrow> int" where
  "formatDownloadIndex i n = n - i"

section \<open>Template sets\<close>

record 'v template_set =
  ts_funcs :: "string \<rightharpoonup> 'v template_function"
  ts_files :: "string list"

text \<open>\<open>json.Marshal\<close> is a parameter: \<^const>\<open>None\<close> is its error.\<close>

definition baseFuncs :: "('v \<Rightarrow> string option) \<Rightarrow> 'v func_map" where
  "baseFuncs marshal = [(''toJSON'', ToJSON marshal), (''dict'', Dict dict)]"

definition parseTemplatesWithFuncs :: "('v \<Rightarrow> string option) \<Rightarrow> 'v func_map \<Rightarrow> string list \<Rightarrow> 'v template_set" where
  "parseTemplatesWithFuncs marshal fns templatePaths =
     (let merged = foldl (\<lambda>m (k, v). m(k \<mapsto> v)) (foldl (\<lambda>m (k, v). m(k \<mapsto> v)) Map.empty (baseFuncs marshal)) fns
      in \<lparr>ts_funcs = merged,
          ts_files = [''templates/layouts/base.html'', ''templates/partials/navbar.html'',
                      ''templates/custom-elements/snackbar-notifications.html''] @ templatePaths\<rparr>)"

definition parseTemplates :: "('v \<Rightarrow> string option) \<Rightarrow> string list \<Rightarrow> 'v template_set" where
  "parseTemplates marshal templatePaths = parseTemplatesWithFuncs marshal [] templatePaths"

text \<open>\<open>fileIndexGet\<close> and \<open>fileAllGet\<close> have the same functions, and so have \<open>uploadGet\<close> and \<open>guestUploadGet\<close>.\<close>

definition guestLinkIndex_funcs :: "web \<Rightarrow> 'v func_map" where
  "guestLinkIndex_funcs W =
     [(''formatDate'', OfTime format_date_only), (''formatSizeLimit'', OfSizeLimit (formatSizeLimit W)),
      (''formatCountLimit'', OfCountLimit (formatCountLimit W)),
      (''formatExpiration'', OfExpiration (formatExpiration_link W)),
      (''friendlyLifetime'', LifetimeName (friendlyLifetimeName W)),
      (''guestLinkUploadProgressPercent'', OfProgress guestLinkUploadProgressPercent)]"

definition guestLinksNew_funcs :: "web \<Rightarrow> 'v func_map" where
  "guestLinksNew_funcs W =
     [(''formatExpiration'', OfTime format_rfc3339), (''formatLifetime'', OfLifetime FileLifetime_String),
      (''friendlyLifetime'', LifetimeName (friendlyLifetimeName W))]"

definition fileIndex_funcs :: "web \<Rightarrow> 'v func_map" where
  "fileIndex_funcs W =
     [(''formatDate'', OfTime format_date_only), (''formatExpiration'', OfExpiration (formatExpiration_file W)),
      (''formatFileSize'', OfFileSize humanReadableFileSize),
      (''isExpiringSoon'', TestExpiration (\<lambda>et. isExpiringSoon et (server_now W))),
      (''fileTypeIcon'', OfContentType fileTypeIcon)]"

definition fileAll_funcs :: "web \<Rightarrow> 'v func_map" where
  "fileAll_funcs W =
     [(''formatDate'', OfTime format_date_only), (''formatExpiration'', OfExpiration (formatExpiration_file W)),
      (''formatFileSize'', OfFileSize humanReadableFileSize),
      (''isExpiringSoon'', TestExpiration (\<lambda>et. isExpiringSoon et (server_now W))),
      (''fileTypeIcon'', OfContentType fileTypeIcon)]"

definition fileEdit_funcs :: "web \<Rightarrow> 'v func_map" where
  "fileEdit_funcs W =
     [(''isNeverExpire'', TestExpiration isNeverExpire), (''formatExpiration'', OfExpiration (formatExpiration_edit W)),
      (''formatMaxDate'', OfTime formatTimeOrEmpty)]"

definition fileInfo_funcs :: "web \<Rightarrow> 'v func_map" where
  "fileInfo_funcs W =
     [(''formatExpiration'', OfExpiration (formatExpiration_file W)), (''formatTimestamp'', OfTime format_rfc3339),
      (''formatFileSize'', OfFileSize humanReadableFileSize), (''previewKind'', OfContentType previewKind)]"

definition fileDownloads_funcs :: "'v func_map" where
  "fileDownloads_funcs =
     [(''formatDownloadIndex'', OfIndex formatDownloadIndex), (''formatDownloadTime'', OfTime format_rfc3339)]"

definition upload_funcs :: "'v func_map" where
  "upload_funcs = [(''formatExpiration'', OfTime formatTimeOrEmpty)]"

definition guestUpload_funcs :: "'v func_map" where
  "guestUpload_funcs = [(''formatExpiration'', OfTime formatTimeOrEmpty)]"

definition systemInformation_funcs :: "'v func_map" where
  "systemInformation_funcs = [(''formatDiskUsage'', OfBytes humanReadableDiskUsage), (''percentage'', OfShare percentage)]"

definition index_templates :: "('v \<Rightarrow> string option) \<Rightarrow> 'v template_set" where
  "index_templates js = parseTemplates js [''templates/pages/index.html'']"

definition guestLinkIndex_templates :: "('v \<Rightarrow> string option) \<Rightarrow> web \<Rightarrow> 'v template_set" where
  "guestLinkIndex_templates js W =
     parseTemplatesWithFuncs js (guestLinkIndex_funcs W) [''templates/pages/guest-link-index.html'']"

definition guestLinksNew_templates :: "('v \<Rightarrow> string option) \<Rightarrow> web \<Rightarrow> 'v template_set" where
  "guestLinksNew_templates js W =
     parseTemplatesWithFuncs js (guestLinksNew_funcs W) [''templates/pages/guest-link-create.html'']"

definition fileIndex_templates :: "('v \<Rightarrow> string option) \<Rightarrow> web \<Rightarrow> 'v template_set" where
  "fileIndex_templates js W =
     parseTemplatesWithFuncs js (fileIndex_funcs W) [''templates/pages/file-index.html'']"

definition fileAll_templates :: "('v \<Rightarrow> string option) \<Rightarrow> web \<Rightarrow> 'v template_set" where
  "fileAll_templates js W =
     parseTemplatesWithFuncs js (fileAll_funcs W) [''templates/pages/file-index.html'']"

definition fileEdit_templates :: "('v \<Rightarrow> string option) \<Rightarrow> web \<Rightarrow> 'v template_set" where
  "fileEdit_templates js W =
     parseTemplatesWithFuncs js (fileEdit_funcs W)
       [''templates/custom-elements/expiration-picker.html'', ''templates/pages/file-edit.html'']"

definition fileInfo_templates :: "('v \<Rightarrow> string option) \<Rightarrow> web \<Rightarrow> 'v template_set" where
  "fileInfo_templates js W =
     parseTemplatesWithFuncs js (fileInfo_funcs W)
       [''templates/custom-elements/upload-link-box.html'', ''templates/custom-elements/qr-code-box.html'',
        ''templates/custom-elements/upload-links.html'', ''templates/pages/file-info.html'']"

definition fileDownloads_templates :: "('v \<Rightarrow> string option) \<Rightarrow> 'v template_set" where
  "fileDownloads_templates js =
     parseTemplatesWithFuncs js fileDownloads_funcs [''templates/pages/file-downloads.html'']"

definition fileConfirmDelete_templates :: "('v \<Rightarrow> string option) \<Rightarrow> 'v template_set" where
  "fileConfirmDelete_templates js = parseTemplates js [''templates/pages/file-delete.html'']"

definition auth_templates :: "('v \<Rightarrow> string option) \<Rightarrow> 'v template_set" where
  "auth_templates js = parseTemplates js [''templates/pages/auth.html'']"

definition upload_templates :: "('v \<Rightarrow> string option) \<Rightarrow> 'v template_set" where
  "upload_templates js =
     parseTemplatesWithFuncs js upload_funcs
       [''templates/custom-elements/expiration-picker.html'', ''templates/custom-elements/upload-link-box.html'',
        ''templates/custom-elements/qr-code-box.html'', ''templates/custom-elements/upload-links.html'',
        ''templates/pages/upload.html'']"

definition guestUpload_templates :: "('v \<Rightarrow> string option) \<Rightarrow> 'v template_set" where
  "guestUpload_templates js =
     parseTemplatesWithFuncs js guestUpload_funcs
       [''templates/custom-elements/expiration-picker.html'', ''templates/custom-elements/upload-link-box.html'',
        ''templates/custom-elements/qr-code-box.html'', ''templates/custom-elements/upload-links.html'',
        ''templates/pages/upload.html'']"

definition guestLinkInactive_templates :: "('v \<Rightarrow> string option) \<Rightarrow> 'v template_set" where
  "guestLinkInactive_templates js = parseTemplates js [''templates/pages/guest-link-inactive.html'']"

definition settings_templates :: "('v \<Rightarrow> string option) \<Rightarrow> 'v template_set" where
  "settings_templates js = parseTemplates js [''templates/pages/settings.html'']"

definition systemInformation_templates :: "('v \<Rightarrow> string option) \<Rightarrow> 'v template_set" where
  "systemInformation_templates js =
     parseTemplatesWithFuncs js systemInformation_funcs [''templates/pages/system-information.html'']"

definition members_templates :: "('v \<Rightarrow> string option) \<Rightarrow> 'v template_set" where
  "members_templates js = parseTemplates js [''templates/pages/members.html'']"

definition setup_templates :: "('v \<Rightarrow> string option) \<Rightarrow> 'v template_set" where
  "setup_templates js = parseTemplates js [''templates/pages/setup.html'']"

definition ssoSettings_templates :: "('v \<Rightarrow> string option) \<Rightarrow> 'v template_set" where
  "ssoSettings_templates js = parseTemplates js [''templates/pages/sso-settings.html'']"

definition entryUnlock_templates :: "('v \<Rightarrow> string option) \<Rightarrow> 'v template_set" where
  "entryUnlock_templates js = parseTemplates js [''templates/pages/entry-unlock.html'']"

section \<open>Facts\<close>

lemma foldl_update: "foldl (\<lambda>m (k, v). m(k \<mapsto> v)) m kvs = m ++ map_of (rev kvs)"
  by (induction kvs arbitrary: m) (auto simp: map_add_def fun_eq_iff split: option.splits)

text \<open>A page's own function takes the place of a base function of the same name.\<close>

lemma parseTemplatesWithFuncs_funcs:
  "ts_funcs (parseTemplatesWithFuncs js fns paths) = map_of (rev (baseFuncs js)) ++ map_of (rev fns)"
  by (simp add: parseTemplatesWithFuncs_def foldl_update)

lemma parseTemplatesWithFuncs_known:
  "(ts_funcs (parseTemplatesWithFuncs js fns paths) g \<noteq> None) \<longleftrightarrow> g \<in> set (''toJSON'' # ''dict'' # map fst fns)"
proof -
  have "g \<in> dom (map_of (rev fns)) \<longleftrightarrow> g \<in> set (map fst fns)" by (simp add: dom_map_of_conv_image_fst)
  then show ?thesis
    unfolding parseTemplatesWithFuncs_funcs by (auto simp: baseFuncs_def map_add_def dom_def split: option.splits)
qed

text \<open>So each page has its own functions, and those of every page that it does not redefine.\<close>

lemma parseTemplatesWithFuncs_lookup:
  "ts_funcs (parseTemplatesWithFuncs js fns paths) g =
     (case map_of (rev fns) g of
        Some f \<Rightarrow> Some f
      | None \<Rightarrow> if g = ''toJSON'' then Some (ToJSON js) else if g = ''dict'' then Some (Dict dict) else None)"
  unfolding parseTemplatesWithFuncs_funcs by (simp add: map_add_def baseFuncs_def split: option.split)

end
