(* ===== verification/Catalogs.thy ===== *)
theory Catalogs
  imports Http GoStrings
begin

text \<open>
  \<open>i18n/i18n.go\<close>: loading the message catalogs when the program starts, and listing the keys of one.
  Reading an embedded file and decoding its JSON object into names and texts are parameters.
\<close>

definition SupportedLanguages :: "string list" where
  "SupportedLanguages = [''en'', ''zh-TW'']"

text \<open>An object with a name twice decodes to the last text. \<^const>\<open>None\<close> is the panic.\<close>

type_synonym messages = "(string \<times> string) list"

definition locale_path :: "string \<Rightarrow> string" where
  "locale_path lang = ''locales/'' @ lang @ ''.json''"

fun load_languages ::
  "(string \<Rightarrow> string option) \<Rightarrow> (string \<Rightarrow> messages option) \<Rightarrow> (string \<rightharpoonup> messages) \<Rightarrow> string list \<Rightarrow> (string \<rightharpoonup> messages) option" where
  "load_languages ReadFile Unmarshal catalogs [] = Some catalogs"
| "load_languages ReadFile Unmarshal catalogs (lang # langs) =
     (case ReadFile (locale_path lang) of
        None \<Rightarrow> None
      | Some data \<Rightarrow>
          (case Unmarshal data of
             None \<Rightarrow> None
           | Some messages \<Rightarrow> load_languages ReadFile Unmarshal (catalogs(lang \<mapsto> messages)) langs))"

definition loadCatalogs ::
  "(string \<Rightarrow> string option) \<Rightarrow> (string \<Rightarrow> messages option) \<Rightarrow> (string \<rightharpoonup> messages) option" where
  "loadCatalogs ReadFile Unmarshal = load_languages ReadFile Unmarshal Map.empty SupportedLanguages"

text \<open>The catalogs of a server, as the handlers look messages up in them.\<close>

definition catalogs_of :: "(string \<rightharpoonup> messages) \<Rightarrow> string \<Rightarrow> (string \<Rightarrow> string option) option" where
  "catalogs_of catalogs lang = map_option (\<lambda>ms. map_of (rev ms)) (catalogs lang)"

text \<open>\<open>Keys\<close>: Go ranges over a map in no particular order; here it is that of the file.\<close>

definition catalog_Keys :: "(string \<rightharpoonup> messages) \<Rightarrow> string \<Rightarrow> string list" where
  "catalog_Keys catalogs lang =
     SliceStable text_less (remdups (map fst (case catalogs lang of None \<Rightarrow> [] | Some ms \<Rightarrow> ms)))"

section \<open>Facts\<close>

lemma load_languages_Some:
  "load_languages rd um m langs = Some cs \<Longrightarrow> distinct langs \<Longrightarrow>
     (\<forall>lang. cs lang = (if lang \<in> set langs then (case rd (locale_path lang) of None \<Rightarrow> None | Some s \<Rightarrow> um s)
        else m lang)) \<and> (\<forall>lang \<in> set langs. cs lang \<noteq> None)"
proof (induction langs arbitrary: m)
  case (Cons lang langs)
  then obtain s ms where s: "rd (locale_path lang) = Some s" "um s = Some ms"
    "load_languages rd um (m(lang \<mapsto> ms)) langs = Some cs"
    by (cases "rd (locale_path lang)"; cases "um (the (rd (locale_path lang)))") auto
  from Cons.IH [OF s(3)] Cons.prems(2) s(1,2) show ?case by auto
qed simp

lemma loadCatalogs_languages:
  assumes "loadCatalogs rd um = Some cs"
  shows "cs lang \<noteq> None \<longleftrightarrow> lang \<in> set SupportedLanguages"
  using load_languages_Some [OF assms [unfolded loadCatalogs_def]] by (auto simp: SupportedLanguages_def)

text \<open>A stable sort by a strict linear order is strictly sorted when nothing occurs twice.\<close>

lemma sift_strict:
  assumes "sorted_wrt (\<lambda>a b. text_less b a) ys" and "x \<notin> set ys"
  shows "sorted_wrt (\<lambda>a b. text_less b a) (sift text_less x ys)"
  using assms
proof (induction ys)
  case (Cons y ys)
  show ?case
  proof (cases "text_less x y")
    case True
    with Cons show ?thesis by auto
  next
    case False
    with Cons.prems(2) have "text_less y x" using text_less_linear [of x y] by auto
    with Cons.prems False show ?thesis using text_less_trans by auto
  qed
qed simp

lemma SliceStable_strict: "distinct xs \<Longrightarrow> sorted_wrt text_less (SliceStable text_less xs)"
proof -
  assume d: "distinct xs"
  have "sorted_wrt (\<lambda>a b. text_less b a) (foldl (\<lambda>sorted x. sift text_less x sorted) acc ys)"
    if "sorted_wrt (\<lambda>a b. text_less b a) acc" "distinct ys" "set acc \<inter> set ys = {}" for acc ys
    using that
  proof (induction ys arbitrary: acc)
    case (Cons y ys)
    then show ?case by (auto intro!: Cons.IH sift_strict)
  qed simp
  from this [of "[]" xs] d show ?thesis by (simp add: SliceStable_def sorted_wrt_rev)
qed

lemma catalog_Keys_sorted: "sorted_wrt text_less (catalog_Keys catalogs lang)"
  by (simp add: catalog_Keys_def SliceStable_strict)

lemma catalog_Keys_complete:
  "k \<in> set (catalog_Keys catalogs lang) \<longleftrightarrow>
     (case catalogs_of catalogs lang of None \<Rightarrow> False | Some m \<Rightarrow> m k \<noteq> None)"
proof -
  have "map_of (rev ms) k \<noteq> None \<longleftrightarrow> k \<in> fst ` set ms" for ms :: messages
    by (metis map_of_eq_None_iff set_rev)
  then show ?thesis by (simp add: catalog_Keys_def catalogs_of_def split: option.split)
qed

end
