(* ===== verification/StartProperties.thy ===== *)
theory StartProperties
  imports StartUp Catalogs WebProperties
begin

text \<open>Properties of the start of a process: the store, the runs and the message catalogs.\<close>

text \<open>The store opens exactly when every statement it needs succeeds. \<open>sqlite.New\<close> returns a store if
  and only if opening, the pragmas (those for Litestream where it is enabled), reading the vacuum mode
  and the migrations succeed; a failing switch to incremental vacuuming does not stop it. It then has
  issued them in that order, with foreign keys on before the migrations run, and its chunk size is the
  one asked for, or the default in place of zero, so never zero.\<close>

theorem store_opens_iff_its_statements_succeed:
  "((\<exists>st. fst (sqlite_New D p) = Inr st) \<longleftrightarrow> list_all (drv_succeeds D) (needed_statements p)) \<and>
   sqlite_New (D\<lparr>drv_succeeds := (drv_succeeds D)(VacuumIncrementally := b)\<rparr>) p = sqlite_New D p \<and>
   (case sqlite_New D p of
      (Inl e, log) \<Rightarrow> \<not> drv_succeeds D (last log) \<and> list_all (drv_succeeds D) (filter (\<lambda>s. s \<noteq> VacuumIncrementally) (butlast log))
    | (Inr st, log) \<Rightarrow>
        filter (\<lambda>s. s \<noteq> VacuumIncrementally) log = needed_statements p \<and> 0 < ss_chunkSize st \<and>
        ss_chunkSize st = (if pa_PicoShareChunkSize p = 0 then 327680 else pa_PicoShareChunkSize p))"
proof (intro conjI)
  show "(\<exists>st. fst (sqlite_New D p) = Inr st) \<longleftrightarrow> list_all (drv_succeeds D) (needed_statements p)"
    by (simp add: sqlite_New_Inr)
  show "sqlite_New (D\<lparr>drv_succeeds := (drv_succeeds D)(VacuumIncrementally := b)\<rparr>) p = sqlite_New D p"
    by (simp add: sqlite_New_def Let_def enableIncrementalVacuum_def applyMigrations_def issue_def)
  show "case sqlite_New D p of
      (Inl e, log) \<Rightarrow> \<not> drv_succeeds D (last log) \<and> list_all (drv_succeeds D) (filter (\<lambda>s. s \<noteq> VacuumIncrementally) (butlast log))
    | (Inr st, log) \<Rightarrow>
        filter (\<lambda>s. s \<noteq> VacuumIncrementally) log = needed_statements p \<and> 0 < ss_chunkSize st \<and>
        ss_chunkSize st = (if pa_PicoShareChunkSize p = 0 then 327680 else pa_PicoShareChunkSize p)"
    by (auto simp: sqlite_New_def Let_def enableIncrementalVacuum_def applyMigrations_def issue_def needed_statements_def
        New_chunkSize_def defaultChunkSize_def)
qed

text \<open>C17: Starting the program continues the runs of the server. Started on the database of any state a
  server reaches, with whatever flags, environment and failures, a process leaves a database of such a
  state; and if it comes to serve, it does so from a reachable state with chunks of 327680 bytes, was not
  asked to reset, and has printed a setup token exactly if no identity provider is set up.\<close>

theorem start_continues_the_runs:
  assumes "server_reach P c0 s" and "main H opts c0 E (sv_db s) = (out, d1, log)"
  shows "(\<exists>s1. server_reach P c0 s1 \<and> sv_db s1 = d1) \<and>
    (case out of
       Serving v \<Rightarrow> server_reach P c0 (se_state v) \<and> sv_db (se_state v) = d1 \<and> ss_chunkSize (se_store v) = 327680 \<and>
         \<not> fl_resetOIDC opts \<and> NeedsSetup (E\<lparr>st_chunkSize := 327680\<rparr>) (sv_db s) = Inr (se_printed_token v \<noteq> None)
     | ResetDone token \<Rightarrow> fl_resetOIDC opts
     | _ \<Rightarrow> True)"
proof -
  let ?E = "E\<lparr>st_chunkSize := 327680\<rparr>"
  let ?p = "\<lparr>pa_Path = fl_db opts, pa_OptimizeForLitestream = isLitestreamEnabled H, pa_PicoShareChunkSize = 0\<rparr>"
  have tok: "server_reach P c0 (start_state c0 (snd (ensureSetupToken ?E (sv_db s))))"
    by (rule server_reach.restart [OF assms(1)]) simp
  have res: "server_reach P c0 (start_state c0 (snd (runResetOIDC ?E (sv_db s))))"
    by (rule server_reach.reset [OF assms(1)]) simp
  have db: "sv_db (start_state c0 d) = d" for d by (simp add: start_state_def)
  have chunk: "ss_chunkSize st = 327680" if "sqlite_New (ho_driver H) ?p = (Inr st, log)" for st log
    using sqlite_New_Inr [of "ho_driver H" ?p st] that by (simp add: New_chunkSize_def defaultChunkSize_def)
  have needs: "NeedsSetup ?E (sv_db s) = Inr (t \<noteq> None)" if "ensureSetupToken ?E (sv_db s) = (Inr t, d2)" for t d2
    using that by (auto simp: ensureSetupToken_def split: sum.splits if_splits prod.splits)
  show ?thesis
  proof (cases "ensureDirExists H (filepath_Dir (fl_db opts))")
    case False
    then show ?thesis using assms by (auto simp: main_def)
  next
    case True
    obtain r lg where N: "sqlite_New (ho_driver H) ?p = (r, lg)" by (metis surj_pair)
    show ?thesis
    proof (cases r)
      case (Inl e)
      then show ?thesis using assms True N by (auto simp: main_def)
    next
      case (Inr st)
      note st = chunk [OF N [unfolded Inr]]
      show ?thesis
        using assms(2) True N Inr st tok res db needs
        by (auto simp: main_def Let_def split: if_splits prod.splits sum.splits)
    qed
  qed
qed

definition sample_host :: host where
  "sample_host =
     \<lparr>ho_Getenv = (\<lambda>_. []), ho_missing = (\<lambda>_. True), ho_Mkdir = (\<lambda>_. True),
      ho_driver = \<lparr>drv_succeeds = (\<lambda>s. s \<noteq> VacuumIncrementally), drv_auto_vacuum = 0\<rparr>\<rparr>"

theorem start_continues_the_runs_witness:
  "\<exists>v d1 log. main sample_host \<lparr>fl_db = ''data/store.db'', fl_resetOIDC = False\<rparr> () sample_env initial_db =
      (Serving v, d1, log) \<and>
    server_reach sample_params () (se_state v) \<and> se_address v = '':4001'' \<and> se_printed_token v \<noteq> None"
proof -
  let ?E = "sample_env\<lparr>st_chunkSize := 327680\<rparr>"
  have needs: "NeedsSetup ?E initial_db = Inr True"
    by (simp add: NeedsSetup_def stmt_def initial_db_def empty_oidc_row_def sample_env_def)
  have "\<exists>d1. GenerateSetupToken ?E initial_db = (Inr (NewSetupToken (\<lambda>i. i)), d1)"
    by (simp add: GenerateSetupToken_def initial_db_def oidc_ok_def Let_def SetupToken_Hash_def
      rune_count_ascii ascii_hex length_hex_encode check_null_def empty_oidc_row_def)
  then obtain t d1 where tok: "ensureSetupToken ?E initial_db = (Inr (Some t), d1)"
    using needs by (auto simp: ensureSetupToken_def)
  have start: "server_reach sample_params () (start_state () initial_db)" by (rule server_reach.first_start)
  obtain v log where M: "main sample_host \<lparr>fl_db = ''data/store.db'', fl_resetOIDC = False\<rparr> () sample_env initial_db =
      (Serving v, d1, log)" "se_address v = '':4001''" "se_printed_token v = Some t"
    using tok by (auto simp: main_def sample_host_def ensureDirExists_def sqlite_New_def enableIncrementalVacuum_def
        applyMigrations_def issue_def isLitestreamEnabled_def listen_address_def New_chunkSize_def defaultChunkSize_def)
  then have "main sample_host \<lparr>fl_db = ''data/store.db'', fl_resetOIDC = False\<rparr> () sample_env
      (sv_db (start_state () initial_db)) = (Serving v, d1, log)"
    by (simp add: start_state_def)
  from start_continues_the_runs [OF start this] M show ?thesis by simp
qed

text \<open>The two packages that list languages agree. With the catalogs loaded at the start, the interface
  can be shown in a language exactly if the domain accepts it as one; a localizer falls back to a
  supported one; and the keys listed for a language are sorted, without repetition, and exactly those
  its catalog has a text for.\<close>

theorem interface_languages_agree:
  assumes "loadCatalogs rd um = Some cs" and "wb_catalogs W = catalogs_of cs"
  shows "(IsSupported W raw \<longleftrightarrow> (\<exists>l. NewLanguage raw = Inr l)) \<and> NewLanguage (Localizer_New W raw) \<noteq> Inl e \<and>
    sorted_wrt text_less (catalog_Keys cs raw) \<and> distinct (catalog_Keys cs raw) \<and>
    (k \<in> set (catalog_Keys cs raw) \<longleftrightarrow> catalog W raw k \<noteq> None)"
proof -
  have supp: "IsSupported W lang \<longleftrightarrow> lang = ''en'' \<or> lang = ''zh-TW''" for lang
    using loadCatalogs_languages [OF assms(1), of lang]
    by (simp add: IsSupported_def assms(2) catalogs_of_def SupportedLanguages_def)
  have dom: "(\<exists>l. NewLanguage lang = Inr l) \<longleftrightarrow> lang = ''en'' \<or> lang = ''zh-TW''" for lang
    by (simp add: NewLanguage_def supportedLanguages_def LanguageEnglish_def LanguageTraditionalChinese_def)
  have "Localizer_New W raw = ''en'' \<or> Localizer_New W raw = ''zh-TW''"
    using supp [of raw] by (auto simp: Localizer_New_def)
  then have "NewLanguage (Localizer_New W raw) \<noteq> Inl e" using dom [of "Localizer_New W raw"] by auto
  moreover have "k \<in> set (catalog_Keys cs raw) \<longleftrightarrow> catalog W raw k \<noteq> None"
    by (simp add: catalog_Keys_complete catalog_def assms(2) split: option.split)
  moreover have "IsSupported W raw \<longleftrightarrow> (\<exists>l. NewLanguage raw = Inr l)" using supp dom by simp
  moreover have "distinct (catalog_Keys cs raw)"
    by (metis catalog_Keys_def distinct_remdups mset_SliceStable mset_eq_imp_distinct_iff)
  ultimately show ?thesis using catalog_Keys_sorted [of cs raw] by (intro conjI)
qed

theorem interface_languages_agree_witness:
  "\<exists>cs. loadCatalogs (\<lambda>_. Some []) (\<lambda>_. Some [(''b'', ''2''), (''a'', ''1'')]) = Some cs \<and>
     sorted_wrt text_less (catalog_Keys cs ''en'') \<and> set (catalog_Keys cs ''en'') = {''a'', ''b''} \<and>
     IsSupported (sample_web\<lparr>wb_catalogs := catalogs_of cs\<rparr>) ''zh-TW''"
proof -
  obtain cs where L: "loadCatalogs (\<lambda>_. Some []) (\<lambda>_. Some [(''b'', ''2''), (''a'', ''1'')]) = Some cs"
    by (simp add: loadCatalogs_def SupportedLanguages_def)
  have "cs ''en'' = Some [(''b'', ''2''), (''a'', ''1'')]"
    using L by (auto simp: loadCatalogs_def SupportedLanguages_def)
  then have "set (catalog_Keys cs ''en'') = {''a'', ''b''}" by (auto simp: catalog_Keys_def)
  moreover have "\<exists>l. NewLanguage ''zh-TW'' = Inr l"
    by (simp add: NewLanguage_def supportedLanguages_def LanguageEnglish_def LanguageTraditionalChinese_def)
  moreover let ?W = "sample_web\<lparr>wb_catalogs := catalogs_of cs\<rparr>"
  have W: "wb_catalogs ?W = catalogs_of cs" by simp
  have "IsSupported ?W ''zh-TW'' \<longleftrightarrow> (\<exists>l. NewLanguage ''zh-TW'' = Inr l)" "sorted_wrt text_less (catalog_Keys cs ''en'')"
    using interface_languages_agree [OF L W, of "''zh-TW''"] interface_languages_agree [OF L W, of "''en''"] by blast+
  ultimately show ?thesis using L by blast
qed

end
