(* ===== verification/Spec2Isabelle.thy ===== *)
theory Spec2Isabelle
  imports Prelude GoText GoTime GoFloat GoDuration Codec Domain Parse Schema Chunks FileReader
    StoreGuestLinks StoreEntries StoreUsers StoreSettings StorePurge Store FileSpec StoreRefs Collector Http Auth
    Ownership Upload Download GuestLinkHandlers Admin Oidc
    Setup GoStrings LanguageHandlers Space Build ViewText Views Server Requests Safety Samples WebSamples StoreProperties
    RecordProperties WebProperties SiteProperties GuestCounts SampleRun GuestProperties StartUp Templates Catalogs StartProperties
begin

text \<open>
  PicoShare is a file sharing server written in Go. People upload files, get a link for each, and
  hand the links out; the server keeps everything in one SQLite database. This development models
  the server's own code (\<open>src/\<close>, packages \<open>picoshare\<close>, \<open>store/sqlite\<close>, \<open>handlers\<close>, \<open>garbagecollect\<close>,
  \<open>space\<close>, \<open>i18n\<close>, \<open>build\<close> and the start-up in \<open>cmd/picoshare\<close>) as HOL functions and proves what
  makes it correct.

  \<^bold>\<open>How the program works.\<close> A request goes through \<open>http.CrossOriginProtection\<close>, then through
  \<open>loadSession\<close>, which finds the user of the session cookie, then through the middleware of the
  route's subrouter (login, administrator rights, language, content security policy, upgrade to
  HTTPS), then into a handler. Handlers parse the request into validated domain values, check who
  may do what, and call the store, one SQL statement or transaction per call. An upload is cut
  into chunks of a fixed size, each one a row; a download is read back through a seekable reader over
  these rows. Users log in through an OpenID Connect provider, which is set up once with a token
  printed at start-up; guests upload through guest links with limits of their own. A scheduler runs
  a collector that purges what has expired.

  \<^bold>\<open>How the model is made.\<close> Go functions that return a value and an error are functions into
  \<open>error + value\<close>; those that change the database take it and return it. A panic is an error value.
  The database (theory \<open>Schema\<close>) is a record of tables, each a list of rows with the columns and CHECK
  constraints that the migrations leave. A handler is a function of the response written so far, the
  request and the database, to a response and a database; middleware maps handlers to handlers.
  Integers keep their Go width (\<open>u16\<close>, \<open>u64\<close>, \<open>sint\<close> for conversions to signed types) where they can
  wrap, and are \<open>int\<close> with explicit bounds otherwise. Strings are lists of bytes. What is not under
  \<open>src/\<close> is a parameter: record \<open>env\<close> holds SQLite's \<open>datetime\<close> and \<open>length\<close>, whether foreign keys are
  enforced, the statement of each operation that fails (\<open>sq_fault\<close>), the clock (read once per operation, and again
  after a purge), the chunk size, the URL parser and the random source; record \<open>web\<close> adds what handlers are given (catalogs, wall clock,
  build mode); record \<open>oidc_lib\<close> holds go-oidc and oauth2. What is assumed of them is named where it is
  used: \<open>datetime_law\<close>, \<open>length_law\<close>, \<open>no_faults\<close>, \<open>reads_ok\<close>, and \<open>sample_env\<close> (theory \<open>Samples\<close>)
  satisfies all of it.

  \<^bold>\<open>Theories, from the bottom up.\<close>
  \<^item> \<open>Prelude\<close>: errors as values, bytes, generic lemmas. \<open>GoText\<close>, \<open>GoTime\<close>, \<open>GoFloat\<close>, \<open>GoStrings\<close>,
    \<open>GoDuration\<close>, \<open>Codec\<close>: the parts of Go's standard library the program computes with (decimal
    numbers, UTF-8, RFC 3339 and calendar arithmetic, correctly rounded doubles, \<open>ParseFloat\<close>,
    durations, base64, hex, SHA-256).
  \<^item> \<open>Domain\<close>: package \<open>picoshare\<close> and \<open>random\<close>, every type with its validating constructor.
    \<open>Parse\<close>: \<open>handlers/parse\<close>. \<open>Build\<close>: \<open>build/build.go\<close>.
  \<^item> \<open>Schema\<close>: the tables and formats of \<open>store/sqlite/sqlite.go\<close> and the migrations. \<open>Chunks\<close> and
    \<open>FileReader\<close>: \<open>store/sqlite/file\<close>, the chunk writer (proved in locale \<open>sql_exec\<close> for any statement
    that inserts a chunk, interpreted on the table) and the reader. \<open>StoreEntries\<close>,
    \<open>StoreGuestLinks\<close>, \<open>StoreUsers\<close>, \<open>StoreSettings\<close>, \<open>StorePurge\<close>: one theory per group of store
    operations (\<open>entries.go\<close> and \<open>downloads.go\<close>, \<open>guest_links.go\<close>, \<open>users.go\<close> and \<open>sessions.go\<close>,
    \<open>settings.go\<close> and \<open>oidc_settings.go\<close>, \<open>cleanup.go\<close>).
  \<^item> \<open>Store\<close>: all operations that write as one transition relation, and its invariant. \<open>FileSpec\<close>:
    the abstract specification, a map from IDs to contents, and the refinement. \<open>StoreRefs\<close>:
    references between tables. \<open>Collector\<close>: \<open>garbagecollect\<close>, over locale \<open>database_purger\<close>. \<open>Space\<close>:
    package \<open>space\<close>, over locale \<open>metadata_reader\<close>.
  \<^item> \<open>Http\<close>: requests, responses, JSON bodies and the helpers every handler uses. \<open>Auth\<close>,
    \<open>Ownership\<close>, \<open>Upload\<close>, \<open>Download\<close>, \<open>GuestLinkHandlers\<close>, \<open>Admin\<close>, \<open>Oidc\<close>, \<open>Setup\<close> (with locales
    \<open>setup_token_validator\<close> and \<open>oidc_settings_reader\<close>, as the code has these interfaces),
    \<open>LanguageHandlers\<close>: the files of \<open>handlers/\<close> of these names. \<open>ViewText\<close>, \<open>Views\<close>: \<open>views.go\<close>, the
    text functions of the templates and the data of every page.
    \<open>Templates\<close>: the template sets the code asks for, with the functions of each page.
    \<open>Catalogs\<close>: loading the message catalogs (\<open>i18n/i18n.go\<close>).
  \<^item> \<open>Server\<close>: every route with its middleware (\<open>routes.go\<close>, \<open>static.go\<close>), the protection against
    cross-origin requests, setup token and reset (\<open>main.go\<close>), and the runs of the server. \<open>StartUp\<close>:
    opening the store with its pragmas (\<open>sqlite.New\<close>), \<open>main\<close> up to serving, and how a process ends.
  \<^item> \<open>Requests\<close> and \<open>Safety\<close>: what each handler can do to the database, so that the facts about the
    store carry over to runs of the server. Each handler is a sequence of store calls, and an insertion
    that counts for a guest link is guarded by what its handler checked.
  \<^item> \<open>GuestCounts\<close>: the handler of a guest's upload cut into check and insertion, the runs in which
    other requests come in between, and what they can do to the number of files of a link.
  \<^item> \<open>Samples\<close>, \<open>WebSamples\<close>, \<open>SampleRun\<close>: a concrete store, server, requests and run, on which the properties are
    tried. \<open>StoreProperties\<close>, \<open>RecordProperties\<close>, \<open>WebProperties\<close>, \<open>SiteProperties\<close>,
    \<open>GuestProperties\<close>, \<open>StartProperties\<close> and this theory: the properties.

  \<^bold>\<open>What is shown.\<close> For files: an accepted upload is downloaded byte for byte or in the range asked
  for, through the whole server; the store refines the map of files, whatever fails; purging deletes
  exactly what has expired; failed uploads leave only chunks that the next purge removes; deletion is
  atomic. For permissions: a request without administrator rights leaves settings, roles and
  everything of others in place; a file with a passphrase is shown only to who may see it; foreign
  files look missing; requests of other sites are refused, save GET requests, which record a download or
  take part in a login; the last administrator stays. For limits:
  caps on lifetimes and the limits of guest links are kept; a link never gets more files than it
  allows while requests run one after another, at most \<open>K - 1\<close> more while \<open>K\<close> overlap, and it does get
  more when two checks precede both insertions. For logins: a session
  identifies its user for thirty days, a login answers an attempt of the same browser, the printed
  token completes the setup once. For data: everything stored reads back. For runs: every sequence of
  requests, ticks, restarts and resets, with any failures, keeps the keys, the references, the rows of
  the settings and an administrator; starting the program continues such a run.

  \<^bold>\<open>Loops and bounds.\<close> Recursion is structural or has a proved measure (the writer's loop, the
  division by 1024 that finds the unit of a size, the decoding of UTF-8, the blocks of SHA-256). The
  loops that read a file are \<open>partial_function (option)\<close>, where \<open>None\<close> stands for not returning, and
  \<open>inserted_file_reads_back\<close> and \<open>uploaded_file_is_downloaded\<close> include that they return. One loop
  carries a bound on its turns, the one over the lifetimes of the upload form: it gets 30, as many as
  the threshold before it lets through, and \<open>lifetime_option_loop_ends\<close> shows that a larger bound
  gives the same, and that without the threshold the loop might not end.

  \<^bold>\<open>Not modelled.\<close> What the migrations and pragmas do (SQL; the schema they leave is modelled, and
  that they are issued), the test doubles (\<open>store/test_sqlite\<close>, \<open>wrapped\<close>), listening, logging, and the
  proxy headers and access log of \<open>gorilla-handlers\<close>: input and output. Which route a path matches is
  the router's decision (package \<open>mux\<close>), so facts hold for every route. The bodies of HTML
  templates and scripts: a page is the data it is rendered with. go-oidc, oauth2, the network and
  the file system are parameters. Of \<open>http.ServeContent\<close>, one byte range and the size are modelled,
  not conditional requests, several ranges or the modification time. The local time zone is a parameter. For more than 12
  elements \<open>sort.Slice\<close> leaves the order of equal ones open: it is a parameter (\<open>wb_ties\<close>), and any order is
  possible (\<open>sort_Slice_any\<close>). The writer of chunks counts written bytes without the bound of Go's \<open>int\<close>,
  which no file reaches. In the runs of the server requests follow one another; of the interleavings, that of
  guest uploads with everything else is modelled (\<open>overlapping_reach\<close>), where an insertion is one step.
  The invariants of the store hold after every single store call, whichever request it belongs to.
\<close>

section \<open>Runs of the server\<close>

text \<open>C6: Whatever requests a server answers, in any order with ticks of its scheduler, restarts and
  resets of the identity provider, and whatever statements fail on the way, its database keeps its
  keys unique, its settings rows, and an administrator as soon as there are users.\<close>

theorem server_runs_keep_the_database_ok:
  assumes "server_reach P c0 s"
  shows "keys_ok (sv_db s) \<and> (users (sv_db s) = [] \<or> (\<exists>u \<in> set (users (sv_db s)). ur_is_admin u)) \<and>
    settings_table (sv_db s) \<noteq> None \<and> oidc_table (sv_db s) \<noteq> None"
  using reachable_db_ok [OF server_reach_db [OF assms]]
  by (auto simp: db_ok_def has_admin_def singletons_ok_def list_ex_iff)

theorem server_runs_keep_the_database_ok_witness:
  "keys_ok (sv_db (scheduler_tick sample_env (snd (protectedRouter sample_params IndexGet sample_web sample_request
     (start_state () initial_db)))))"
proof -
  have "server_reach sample_params () (start_state () initial_db)" by (rule server_reach.first_start)
  then have "server_reach sample_params ()
      (snd (protectedRouter sample_params IndexGet sample_web sample_request (start_state () initial_db)))"
    by (rule server_reach.request) (simp_all add: registered_def)
  then have "server_reach sample_params () (scheduler_tick sample_env
      (snd (protectedRouter sample_params IndexGet sample_web sample_request (start_state () initial_db))))"
    by (rule server_reach.tick) simp
  from server_runs_keep_the_database_ok [OF this] show ?thesis by simp
qed

text \<open>The context of a request does not touch its token, nor the form that it carries.\<close>

lemma request_token_context: "request_token (r\<lparr>rq_user := u, rq_localizer := l, rq_nonce := n\<rparr>) = request_token r"
  by (simp add: request_token_def request_Cookie_def)

lemma setup_token_context:
  "setup_token_shown E (r\<lparr>rq_user := u, rq_localizer := l, rq_nonce := n\<rparr>) d = setup_token_shown E r d"
proof -
  have "decode_json (r\<lparr>rq_user := u, rq_localizer := l, rq_nonce := n\<rparr>) = decode_json r"
    by (simp add: decode_json_def within_limit_def split: request_body.split option.split)
  then show ?thesis unfolding setup_token_shown_def parseOIDCSettingsRequest_def by (simp only:)
qed

text \<open>C2: A request without administrator rights can only hurt its own sender. Take, in any state that a
  server reaches, a request of anyone who is not an administrator, to any route but the callback of a
  login and the routes that only development builds have. It leaves the settings and everybody's rights
  alone, and everything of every other user in place: the account with its language, the sessions but
  the one whose token the request carries, the files with their content and their history, the guest
  links; only files that came through a guest link of the sender's are detached when the sender deletes
  that link. It adds files and guest links only under the sender's name or nobody's, or, files, under the
  name of whoever made the guest link they came through. And it changes the identity provider only through
  the setup form, with the setup token.\<close>

theorem nonadmin_requests_are_harmless:
  assumes "server_reach P c0 s" and "fresh_request r" and "\<not> login_or_debug rt"
    and "not_admin (session_user (wb_env W) r (sv_db s))"
  shows "harmless (request_token r) (session_user (wb_env W) r (sv_db s)) (sv_db s) (sv_db (snd (serve P rt W r s))) \<and>
    (oidc_table (sv_db (snd (serve P rt W r s))) \<noteq> oidc_table (sv_db s) \<longrightarrow>
       rt = SetupPost \<and> setup_token_shown (wb_env W) r (sv_db s))"
proof -
  have keys: "keys_ok (sv_db s)" using reachable_db_ok [OF server_reach_db [OF assms(1)]] by (simp add: db_ok_def)
  from assms(2) show ?thesis
  proof (cases rule: serve_cases [where P = P and rt = rt and W = W and s = s])
    case (refused w1)
    then show ?thesis by simp
  next
    case (handled w0 r0)
    have r0: "request_token r0 = request_token r" "setup_token_shown E r0 d = setup_token_shown E r d" for E d
      by (subst handled(4), rule request_token_context setup_token_context)+
    have user: "not_admin (rq_user r0)" using assms(4) handled(2) by simp
    show ?thesis
      using handler_harmless [OF keys user assms(3) handled(3), of P W w0]
        handler_oidc [OF user assms(3) handled(3), of P W w0 s]
      unfolding r0 handled(1,2) by blast
  qed
qed

text \<open>The second user of the run tries to delete a file of the first one.\<close>

definition run_delete_request :: request where
  "run_delete_request = sample_request\<lparr>rq_cookies := [(sessionCookieName, SessionToken_String (NewSessionToken (\<lambda>i. i)))],
     rq_vars := [(''id'', ''vwxyzABCDE'')]\<rparr>"

lemma run_delete_fresh: "fresh_request run_delete_request"
  by (simp add: fresh_request_def run_delete_request_def sample_request_def)

theorem nonadmin_requests_are_harmless_witness:
  "\<exists>u. session_user sample_env run_delete_request (sv_db run_second_login) = Some u \<and> usr_ID u = UserID 2 \<and>
     er_owner_user_id run_entry = Some 1 \<and>
     run_entry \<in> set (entries (sv_db run_second_login)) \<and>
     run_entry \<in> set (entries (sv_db (snd (serve run_params EntryDelete other_web run_delete_request run_second_login))))"
proof -
  have "request_Cookie run_delete_request sessionCookieName = Some (SessionToken_String (NewSessionToken (\<lambda>i. i)))"
    by (simp add: request_Cookie_def run_delete_request_def)
  then obtain u where u: "session_user sample_env run_delete_request (sv_db run_second_login) = Some u"
    "usr_ID u = UserID 2" "\<not> usr_IsAdmin u"
    using run_second_login_db by blast
  have owner: "er_owner_user_id run_entry = Some 1" by (rule run_entry_owner)
  have "keeps_entries (Some u) (sv_db run_second_login)
      (sv_db (snd (serve run_params EntryDelete other_web run_delete_request run_second_login)))"
    using nonadmin_requests_are_harmless [OF run_second_login_reached run_delete_fresh, of EntryDelete other_web] u
    by (simp add: login_or_debug_def not_admin_def harmless_def)
  then have "run_entry \<in> set (entries (sv_db (snd (serve run_params EntryDelete other_web run_delete_request run_second_login))))"
    using run_second_login_db u(2) owner by (auto simp: keeps_entries_def owned_by_def run_link_fields)
  with u owner run_second_login_db show ?thesis by auto
qed

text \<open>C20: A route behind a login changes nothing without one. A request that the middleware of its
  route does not admit, for want of a session or of administrator rights, is answered with an error
  (or sent to HTTPS), shows no file, and leaves the state of the server as it was.\<close>

theorem unadmitted_requests_change_nothing:
  assumes "fresh_request r" and "\<not> admitted (fst (registration rt)) (session_user (wb_env W) r (sv_db s))"
  shows "\<exists>w1. serve P rt W r s = (w1, s) \<and> rs_status w1 \<in> {301, 401, 403} \<and> \<not> serves_file w1"
  using assms(1)
proof (cases rule: serve_cases [where P = P and rt = rt and W = W and s = s])
  case (refused w1)
  then show ?thesis by blast
next
  case (handled w0 r0)
  with assms(2) show ?thesis by simp
qed

theorem unadmitted_requests_change_nothing_witness:
  "snd (serve sample_params SettingsPut sample_web sample_request (start_state () sample_db)) =
     start_state () sample_db"
  using unadmitted_requests_change_nothing [OF sample_request_fresh, of SettingsPut sample_web
      "start_state () sample_db" sample_params]
  by (auto simp: admitted_def)

text \<open>C7: Other sites cannot act through a visitor's browser. When the browser says that a request comes
  from another site, by \<open>Sec-Fetch-Site\<close> or, if it does not send this, by an \<open>Origin\<close> that is not the
  host, every route that is not a GET route is refused with 403 and leaves the server as it was, whatever
  session cookie the request carries. A GET route but the login callback changes the database at most by
  one row of the download history, and only the beginning of a login changes what the OpenID Connect
  client keeps. The login callback, where the identity provider, another site, sends the browser, changes
  the database only by the login of an identity that the client accepted.\<close>

theorem cross_site_requests_are_harmless:
  assumes "fresh_request r" and "from_other_site W r" and "protectedRouter P rt W r s = (w1, s1)"
  shows "(fst (snd (registration rt)) \<noteq> GET \<longrightarrow> s1 = s \<and> rs_status w1 = 403) \<and>
    sv_collector s1 = sv_collector s \<and>
    (rt \<noteq> OidcCallbackGet \<longrightarrow> only_records_download (sv_db s) (sv_db s1) \<and>
       (sv_client s1 \<noteq> sv_client s \<longrightarrow> rt = OidcLoginGet)) \<and>
    (rt = OidcCallbackGet \<longrightarrow> sv_db s1 = sv_db s \<or>
       (\<exists>w0 u l n identity w2. fst (idp_Callback (sp_IdentityProvider P) W w0
            (r\<lparr>rq_user := u, rq_localizer := l, rq_nonce := n\<rparr>) (sv_client s, sv_db s)) = Inr identity \<and>
          only_logs_in W r identity (sv_db s) (sv_db s1)))"
proof (cases "fst (snd (registration rt)) = GET")
  case True
  then have S: "serve P rt W r s = (w1, s1)" using assms(3) by (simp add: protectedRouter_def cross_origin_allowed_def)
  from assms(1) show ?thesis
  proof (cases rule: serve_cases [where P = P and rt = rt and W = W and s = s])
    case (refused w)
    then show ?thesis using S True by simp
  next
    case (handled w0 r0)
    show ?thesis
    proof (cases "rt = OidcCallbackGet")
      case False
      with get_handler_records [OF True False, of s P W w0 r0] S True handled(1) show ?thesis by simp
    next
      case callback: True
      have "only_logs_in W r0 identity d d1 \<Longrightarrow> only_logs_in W r identity d d1" for identity d d1
        unfolding only_logs_in_def by (subst (asm) handled(4)) (simp only: completeLogin_context)
      moreover have "on_client (oidcCallbackGet (sp_IdentityProvider P)) W w0 r0 s = (w1, s1)"
        using S handled(1) callback by simp
      note callback_logs_in [OF this]
      ultimately show ?thesis using True callback handled(4) by metis
    qed
  qed
next
  case False
  then have "\<not> cross_origin_allowed W (fst (snd (registration rt))) r" using from_other_site_refused [OF assms(2)] by simp
  with False assms(3) show ?thesis by (auto simp: protectedRouter_def)
qed

text \<open>A browser that sends only \<open>Origin\<close>, and one that sends \<open>Sec-Fetch-Site\<close>, with the cookie of a user.\<close>

theorem cross_site_requests_are_harmless_witness:
  "list_all (\<lambda>h. rs_status (fst (protectedRouter sample_params EntryDelete sample_web (sample_upload\<lparr>rq_headers := [h]\<rparr>)
       (start_state () sample_db2))) = 403 \<and>
     only_records_download sample_db2 (sv_db (snd (protectedRouter sample_params EntryGet sample_web
       (sample_upload\<lparr>rq_headers := [h]\<rparr>) (start_state () sample_db2)))))
     [(''Sec-Fetch-Site'', ''cross-site''), (''Origin'', ''https://evil'')]"
  unfolding list_all_iff
proof
  fix h :: "string \<times> string"
  assume h: "h \<in> set [(''Sec-Fetch-Site'', ''cross-site''), (''Origin'', ''https://evil'')]"
  let ?r = "sample_upload\<lparr>rq_headers := [h]\<rparr>"
  have "fresh_request ?r" by (simp add: fresh_request_def sample_upload_def sample_request_def)
  moreover have "rq_host ?r = ''p''" "env_url_parse sample_env ''https://evil'' = Some (''https'', ''idp'')"
    by (simp_all add: sample_upload_def sample_request_def sample_env_def has_prefix_def)
  then have "from_other_site sample_web ?r"
    using h by (auto simp: from_other_site_def header_Get_def lookup_or_empty_def)
  ultimately have r: "fresh_request ?r" "from_other_site sample_web ?r" by simp_all
  obtain w1 s1 where D: "protectedRouter sample_params EntryDelete sample_web ?r (start_state () sample_db2) = (w1, s1)"
    by (metis surj_pair)
  obtain w2 s2 where G: "protectedRouter sample_params EntryGet sample_web ?r (start_state () sample_db2) = (w2, s2)"
    by (metis surj_pair)
  have "rs_status w1 = 403" using cross_site_requests_are_harmless [OF r D] by simp
  moreover have "only_records_download sample_db2 (sv_db s2)"
    using cross_site_requests_are_harmless [OF r G] by (simp add: start_fields)
  ultimately show "rs_status (fst (protectedRouter sample_params EntryDelete sample_web ?r (start_state () sample_db2))) = 403 \<and>
      only_records_download sample_db2 (sv_db (snd (protectedRouter sample_params EntryGet sample_web ?r (start_state () sample_db2))))"
    by (simp add: D G)
qed

text \<open>C3: A protected file is shown only to who may see it. If a route that serves files answers with
  content, the entry exists and it has no passphrase, or the session belongs to a user who manages
  it, or the request is a submitted unlock form of at most 4096 bytes with exactly its passphrase.\<close>

theorem protected_files_need_their_passphrase:
  assumes "fresh_request r" and "rt \<in> {EntryGet, EntryGetFilename, EntryPreviewGet, EntryUnlockPost}"
    and "serves_file (fst (serve P rt W r s))"
  shows "\<exists>i entry. EntryIDFromString (mux_Var r ''id'') = Inr i \<and>
    GetEntryMetadata (wb_env W) (sv_db s) i = Inr entry \<and>
    (may_bypass (session_user (wb_env W) r (sv_db s)) entry \<or>
     rt = EntryUnlockPost \<and> (\<exists>form. ParseForm (MaxBytesReader r 4096) = Some form \<and>
       um_DownloadPassphrase entry = DownloadPassphrase (Passphrase (lookup_or_empty form ''passphrase''))))"
  using assms(1)
proof (cases rule: serve_cases [where P = P and rt = rt and W = W and s = s])
  case (refused w1)
  then show ?thesis using assms(3) by simp
next
  case (handled w0 r0)
  have nf: "\<not> serves_file w0" using handled(6) by (simp add: serves_file_def)
  obtain u l n where r0: "r0 = r\<lparr>rq_user := u, rq_localizer := l, rq_nonce := n\<rparr>" using handled(4) by blast
  have var: "mux_Var r0 ''id'' = mux_Var r ''id''" by (simp add: r0 body_context)
  note sf = assms(3) [unfolded handled(1)]
  have form: "ParseForm (MaxBytesReader r0 4096) = ParseForm (MaxBytesReader r 4096)"
    by (simp add: r0 body_context)
  consider "rt \<in> {EntryGet, EntryGetFilename}" | "rt = EntryPreviewGet" | "rt = EntryUnlockPost" using assms(2) by blast
  then show ?thesis
  proof cases
    case 1
    then have "serves_file (fst (entryGet W w0 r0 (sv_db s)))" using sf by (auto simp: on_db_def split: prod.splits)
    from entryGet_serves [OF this nf] show ?thesis using var handled(2) by metis
  next
    case 2
    then have "serves_file (fst (entryPreviewGet W w0 r0 (sv_db s)))" using sf by (auto simp: on_db_def split: prod.splits)
    from entryPreviewGet_serves [OF this nf] show ?thesis using var handled(2) by metis
  next
    case 3
    then have "serves_file (fst (entryUnlockPost W w0 r0 (sv_db s)))" using sf by (auto simp: on_db_def split: prod.splits)
    from entryUnlockPost_serves [OF this nf] show ?thesis
      using var 3 form unfolding maxEntryUnlockRequestBytes_def by metis
  qed
qed

lemma sample_public_file:
  "serves_file (fst (serve sample_params EntryGet sample_web
     (sample_request\<lparr>rq_vars := [(''id'', ''abcdefghij'')]\<rparr>) (start_state () sample_db)))"
proof -
  let ?r = "sample_request\<lparr>rq_vars := [(''id'', ''abcdefghij'')]\<rparr>"
  let ?e = "as_stored_entry initial_db sample_md 5 NoGuestLink (NoOwner, Username [])"
  have r: "fresh_request ?r" "header_Get ?r ''X-Forwarded-Proto'' \<noteq> ''http''" "mux_Var ?r ''id'' = ''abcdefghij''"
    "rq_range ?r = None"
    by (simp_all add: fresh_request_def sample_request_def header_Get_def mux_Var_def lookup_or_empty_def)
  obtain w0 l n where S: "serve sample_params EntryGet sample_web ?r (start_state () sample_db) =
      handler_of sample_params EntryGet sample_web w0
        (?r\<lparr>rq_user := session_user (wb_env sample_web) ?r (sv_db (start_state () sample_db)), rq_localizer := l,
          rq_nonce := n\<rparr>) (start_state () sample_db)" (is "_ = handler_of _ _ _ _ ?q _")
    using public_view_handled [OF r(1) _ r(2), of EntryGet sample_params sample_web "start_state () sample_db"] by auto
  have q: "mux_Var ?q ''id'' = ''abcdefghij''" "rq_range ?q = None"
    by (simp_all only: body_context r(3)) (simp add: sample_request_def)
  have i: "EntryIDFromString ''abcdefghij'' = Inr sample_id"
    by (auto simp: EntryIDFromString_iff sample_id_def entryIDCharacters_def)
  have e: "DownloadPassphrase_Empty (um_DownloadPassphrase ?e)" "um_ID ?e = sample_id"
    by (simp_all add: as_stored_entry_def sample_md_def DownloadPassphrase_Empty_def NoDownloadPassphrase_def Passphrase_Empty_def)
  have st: "stored sample_db (EntryID_value sample_id) 4 ''hello''"
    using stored_inserted [OF sample_inserted] by simp
  have "rs_body (writeEntryContent sample_web w0 ?q ?e sample_db) = FileBody (range_bytes (rq_range ?q) ''hello'')"
    using st e(2) q(2) by (intro writeEntryContent_stored(1)) (simp_all add: range_ok_def)
  moreover have "lookup_entry sample_web w0 sample_db sample_id = Inr ?e"
    by (simp add: lookup_entry_Inr sample_metadata)
  then have "entryGet sample_web w0 ?q sample_db = serveEntryContent sample_web w0 ?q ?e sample_db"
    unfolding entryGet_def q(1) i sum.case using e(1) by simp
  moreover have "sv_db (start_state () sample_db) = sample_db" by (simp add: start_state_def)
  ultimately have "rs_body (fst (on_db entryGet sample_web w0 ?q (start_state () sample_db))) =
      FileBody (range_bytes (rq_range ?q) ''hello'')"
    by (simp add: on_db_def serveEntryContent_def split: prod.splits)
  then show ?thesis unfolding S handler_of.simps serves_file_def by (simp only: resp_body.case)
qed

theorem protected_files_need_their_passphrase_witness:
  "\<exists>entry. GetEntryMetadata sample_env sample_db sample_id = Inr entry \<and> may_bypass None entry"
proof -
  let ?r = "sample_request\<lparr>rq_vars := [(''id'', ''abcdefghij'')]\<rparr>"
  have "fresh_request ?r" by (simp add: fresh_request_def sample_request_def)
  from protected_files_need_their_passphrase [OF this _ sample_public_file]
  obtain i entry where i: "EntryIDFromString (mux_Var ?r ''id'') = Inr i" "GetEntryMetadata sample_env sample_db i = Inr entry"
    "may_bypass (session_user sample_env ?r sample_db) entry"
    by (auto simp: start_state_def)
  have "i = sample_id" using i(1) by (simp add: mux_Var_def lookup_or_empty_def EntryIDFromString_iff sample_id_def)
  moreover have "session_user sample_env ?r sample_db = None"
    by (rule no_cookie_no_user) (simp add: request_Cookie_def sample_request_def)
  ultimately show ?thesis using i by auto
qed

section \<open>Setting up\<close>

text \<open>A setup form that carries a token and settings.\<close>

definition setup_form :: "request \<Rightarrow> setup_token \<Rightarrow> oidc_settings \<Rightarrow> bool" where
  "setup_form r token st =
     (case decode_json r of
        None \<Rightarrow> False
      | Some fs \<Rightarrow>
          string_field ''setupToken'' fs = Some (SetupToken_String token) \<and>
          string_field ''issuerUrl'' fs = Some (OIDCIssuerURL_String (os_IssuerURL st)) \<and>
          string_field ''expectedIssuer'' fs = Some (os_ExpectedIssuer st) \<and>
          string_field ''clientId'' fs = Some (OIDCClientID_String (os_ClientID st)) \<and>
          string_field ''clientSecret'' fs = Some (OIDCClientSecret_String (os_ClientSecret st)) \<and>
          string_field ''redirectUrl'' fs = Some (OIDCRedirectURL_String (os_RedirectURL st)) \<and>
          string_field ''caCertPem'' fs = Some (os_CACertPEM st))"

lemma setup_form_parsed:
  assumes "setup_form r token st" and "valid_oidc_settings E st" and "validate token = Inr True"
    and "SetupToken_String token \<noteq> []"
  shows "\<exists>q. parseOIDCSettingsRequest (env_url_parse E) r validate = Inr q \<and> oidcSettingsFromRequest q = st"
proof -
  obtain fs where fs: "decode_json r = Some fs" using assms(1) by (auto simp: setup_form_def split: option.splits)
  have again: "NewOIDCIssuerURL (env_url_parse E) (OIDCIssuerURL_String (os_IssuerURL st)) = Inr (os_IssuerURL st)"
    "NewOIDCRedirectURL (env_url_parse E) (OIDCRedirectURL_String (os_RedirectURL st)) = Inr (os_RedirectURL st)"
    "NewOIDCClientID (OIDCClientID_String (os_ClientID st)) = Inr (os_ClientID st)"
    "NewOIDCClientSecret (OIDCClientSecret_String (os_ClientSecret st)) = Inr (os_ClientSecret st)"
    using assms(2) by (auto simp: valid_oidc_settings_def
        dest: issuer_again redirect_again client_id_again client_secret_again)
  have tok: "SetupTokenFromString (SetupToken_String token) = Inr token"
    using assms(4) by (cases token) (simp add: SetupTokenFromString_def)
  note fields = assms(1) [unfolded setup_form_def fs option.case]
  let ?q = "\<lparr>osr_SetupToken = token, osr_IssuerURL = os_IssuerURL st, osr_ExpectedIssuer = os_ExpectedIssuer st,
      osr_ClientID = os_ClientID st, osr_ClientSecret = os_ClientSecret st, osr_RedirectURL = os_RedirectURL st,
      osr_CACertPEM = os_CACertPEM st\<rparr>"
  have "parseOIDCSettingsRequest (env_url_parse E) r validate = Inr ?q"
    using fields by (simp add: parseOIDCSettingsRequest_def fs tok assms(3) again of_option_def
        and_then_def map_error_def ensure_def)
  moreover have "oidcSettingsFromRequest ?q = st" by (cases st) (simp add: oidcSettingsFromRequest_def)
  ultimately show ?thesis by blast
qed

text \<open>C16: A new installation can always be set up. When a server starts without an identity provider and
  prints a setup token, then the setup form with that token and any settings that pass their
  validation is accepted, unless a statement fails: the settings in it are the ones logins use from
  then on, the server no longer needs a setup, and the token is spent.\<close>

theorem printed_token_completes_the_setup:
  assumes "server_reach P c0 s" and "ensureSetupToken E (sv_db s) = (Inr (Some token), d1)"
    and "fresh_request r" and "setup_form r token st" and "valid_oidc_settings (wb_env W) st"
    and "no_faults (wb_env W) OpValidateSetupToken" "no_faults (wb_env W) OpUpdateOIDCSettings"
      "no_faults (wb_env W) OpReadOIDCSettings" "no_faults (wb_env W) OpNeedsSetup"
  shows "\<exists>s1. serve P SetupPost W r (start_state c0 d1) = (new_response, s1) \<and>
    ReadOIDCSettings (wb_env W) (sv_db s1) = Inr st \<and> NeedsSetup (wb_env W) (sv_db s1) = Inr False \<and>
    ValidateSetupToken (wb_env W) (sv_db s1) token = Inr False"
proof -
  let ?r = "r\<lparr>rq_user := session_user (wb_env W) r d1\<rparr>"
  have row: "oidc_table (sv_db s) \<noteq> None"
    using reachable_db_ok [OF server_reach_db [OF assms(1)]] by (simp add: db_ok_def singletons_ok_def)
  have gen: "GenerateSetupToken E (sv_db s) = (Inr token, d1)"
    using assms(2) by (auto simp: ensureSetupToken_def split: sum.splits if_splits prod.splits)
  then have token: "token = NewSetupToken (env_draw E)" and row1: "oidc_table d1 \<noteq> None"
    using row by (auto simp: GenerateSetupToken_def Let_def split: if_splits option.splits)
  have "ValidateSetupToken (wb_env W) d1 token = Inr True"
    using GenerateSetupToken_valid [OF gen row, of "wb_env W" token] assms(6) by (simp add: no_faults_def)
  moreover have "SetupToken_String token \<noteq> []"
    using length_b64_encode [of "random_Bytes (env_draw E) 32"] by (auto simp: token NewSetupToken_def)
  moreover have "decode_json ?r = decode_json r"
    by (simp add: decode_json_def within_limit_def split: request_body.split option.split)
  then have "setup_form ?r token st" using assms(4) unfolding setup_form_def by (simp only:)
  ultimately obtain q where q: "parseOIDCSettingsRequest (env_url_parse (wb_env W)) ?r (ValidateSetupToken (wb_env W) d1) = Inr q"
    "oidcSettingsFromRequest q = st"
    using setup_form_parsed [OF _ assms(5)] by blast
  obtain d2 where U: "UpdateOIDCSettings (wb_env W) d1 st = (Inr (), d2)"
    using assms(7) by (simp add: UpdateOIDCSettings_def no_faults_def)
  then have "setupPost W new_response ?r d1 = (new_response, d2)" by (simp add: setupPost_def q)
  then have "serve P SetupPost W r (start_state c0 d1) = (new_response, (start_state c0 d1)\<lparr>sv_db := d2\<rparr>)"
    using root_handled [OF assms(3), of SetupPost P W "start_state c0 d1"] by (simp add: on_db_def start_state_def)
  then show ?thesis using setup_is_done_once [OF U row1 assms(5) refl assms(8,9,6)] by simp
qed

theorem printed_token_completes_the_setup_witness:
  "\<exists>s1. serve sample_params SetupPost sample_web (sample_request\<lparr>rq_body := JsonBody (JObject sample_setup_form)\<rparr>)
      (start_state () sample_setup_db) = (new_response, s1) \<and> NeedsSetup sample_env (sv_db s1) = Inr False"
proof -
  let ?r = "sample_request\<lparr>rq_body := JsonBody (JObject sample_setup_form)\<rparr>"
  let ?t = "NewSetupToken (\<lambda>i. i)"
  have gen: "GenerateSetupToken sample_env initial_db = (Inr ?t, sample_setup_db)"
    by (simp add: sample_setup_db_def GenerateSetupToken_def initial_db_def oidc_ok_def Let_def SetupToken_Hash_def
      rune_count_ascii ascii_hex length_hex_encode check_null_def empty_oidc_row_def)
  have needs: "NeedsSetup sample_env initial_db = Inr True"
    by (simp add: NeedsSetup_def stmt_def initial_db_def empty_oidc_row_def)
  have start: "ensureSetupToken sample_env (sv_db (start_state () initial_db)) = (Inr (Some ?t), sample_setup_db)"
    by (simp add: ensureSetupToken_def start_state_def gen needs)
  have form: "setup_form ?r ?t sample_oidc"
    by (simp add: setup_form_def decode_json_def within_limit_def json_fields_def sample_request_def
        sample_setup_values sample_oidc_def)
  have fresh: "fresh_request ?r" by (simp add: fresh_request_def sample_request_def)
  from printed_token_completes_the_setup [OF server_reach.first_start [of sample_params "()"] start fresh form, of sample_web]
    sample_oidc_valid show ?thesis by auto
qed

section \<open>From upload to download\<close>

lemma session_user_owner:
  assumes "session_user E r d = Some u" and "keys_ok d" and "um_OwnerID md = usr_ID u" and "gl_ID (um_GuestLink md) = []"
  shows "\<exists>own. ownerFromColumns (inserted_owner d md) (owner_username d (inserted_owner d md)) = Inr own"
proof -
  obtain x where x: "x \<in> set (users d)" "userFromRow x = Inr u" "usr_ID u = UserID (ur_id x)"
    using session_user_row [OF assms(1)] by metis
  have row: "first_row (filter (\<lambda>y. ur_id y = ur_id x) (users d)) = Some x"
    using first_row_filter_distinct [of ur_id "users d" x] x(1) assms(2) by (simp add: keys_ok_def)
  obtain name where "NewUsername (ur_username x) = Inr name"
    using x(2) by (auto simp: userFromRow_def and_then_eq_Inr_iff wrap_domain_def split: sum.splits option.splits)
  then show ?thesis
    using row by (simp add: inserted_owner_def assms(3,4) x(3) owner_column_def ownerFromColumns_def owner_username_def)
qed

lemma upload_passphrase_storable:
  "upload_passphrase g raw = Inr p \<Longrightarrow> p = NoDownloadPassphrase \<or> (\<exists>raw. NewDownloadPassphrase raw = Inr p)"
  by (auto simp: upload_passphrase_def split: if_splits)

lemma entry_post_accepted:
  assumes "serve P EntryPost W r s = (w1, s1)" and "rs_status w1 = 200" and "fresh_request r"
  obtains u src md where "session_user (wb_env W) r (sv_db s) = Some u"
    "parse_Expiration (query_Get r ''expiration'') (server_now W) = Inr (um_Expires md)"
    "enforceMaxFileLifetimeForUser W (sv_db s) u (um_Expires md) = Inr ()"
    "upload_from_request W r (um_Expires md) [] (usr_ID u) = Inr (src, md)"
    "InsertEntry (wb_env W) (sv_db s) src md = (Inr (), sv_db s1)" "rs_body w1 = IDBody (EntryID_value (um_ID md))"
  using assms(3)
proof (cases rule: serve_cases [where P = P and rt = EntryPost and W = W and s = s])
  case (refused w)
  then show ?thesis using assms(1,2) by auto
next
  case (handled w0 r0)
  obtain u l n where r0: "r0 = r\<lparr>rq_user := u, rq_localizer := l, rq_nonce := n\<rparr>" using handled(4) by blast
  obtain v where u: "u = Some v" using handled(3) by (auto simp: r0 admitted_def)
  obtain d1 where p: "entryPost W w0 r0 (sv_db s) = (w1, d1)" "sv_db s1 = d1"
    using assms(1) handled(1) by (auto simp: on_db_def split: prod.splits)
  have q: "query_Get r0 = query_Get r" "ParseMultipartForm r0 = ParseMultipartForm r"
    by (simp_all add: r0 body_context)
  have up: "upload_from_request W r0 = upload_from_request W r"
    by (intro ext) (simp add: upload_from_request_def q)
  obtain src md where "parse_Expiration (query_Get r0 ''expiration'') (server_now W) = Inr (um_Expires md)"
    "enforceMaxFileLifetimeForUser W (sv_db s) (fst (currentUser r0)) (um_Expires md) = Inr ()"
    "upload_from_request W r0 (um_Expires md) [] (usr_ID (fst (currentUser r0))) = Inr (src, md)"
    "InsertEntry (wb_env W) (sv_db s) src md = (Inr (), d1)" "rs_body w1 = IDBody (EntryID_value (um_ID md))"
    using entryPost_stores [OF p(1) assms(2)] .
  moreover have "session_user (wb_env W) r (sv_db s) = Some v" using handled(2) u r0 by auto
  moreover have "fst (currentUser r0) = v" by (simp add: currentUser_def r0 u)
  ultimately show ?thesis using that [of v md src] p(2) unfolding q up by simp
qed

text \<open>C1: What was uploaded is what is downloaded. When the server accepts an upload without a
  passphrase (status 200), it answers with the new entry's ID, and a request for that ID, by anyone,
  is answered with exactly the uploaded bytes, whatever pieces they arrived in and whatever the size
  of the chunks, or with the part of them that the request asks for.\<close>

theorem uploaded_file_is_downloaded:
  assumes up: "serve P EntryPost W r s = (w1, s1)" "rs_status w1 = 200" "fresh_request r"
    and db: "keys_ok (sv_db s)" "0 < st_chunkSize (wb_env W)"
      "\<forall>c \<in> set (entries_data (sv_db s)). cr_id c \<noteq> EntryID_value (NewEntryID (wb_draw W))"
    and form: "ParseMultipartForm r = Some (Some part, form)" "lookup_or_empty form ''downloadPassphrase'' = []"
      "concat (src_pieces (fp_reader part)) = content" "content \<noteq> []" "length content < 2 ^ 64"
    and times: "text_range (server_now W)" "parse_rfc3339 (query_Get r ''expiration'') = Some et" "text_range et"
    and down: "fresh_request r'" "mux_Var r' ''id'' = EntryID_value (NewEntryID (wb_draw W))"
      "header_Get r' ''X-Forwarded-Proto'' \<noteq> ''http''" "range_ok (rq_range r') content"
    and ok: "reads_ok (wb_env W')" "\<not> sq_fault (wb_env W') OpGetEntryMetadata 0"
  shows "rs_body w1 = IDBody (EntryID_value (NewEntryID (wb_draw W))) \<and>
    rs_body (fst (serve P' EntryGet W' r' s1)) = FileBody (range_bytes (rq_range r') content)"
proof -
  obtain u src md where u: "session_user (wb_env W) r (sv_db s) = Some u"
    and et: "parse_Expiration (query_Get r ''expiration'') (server_now W) = Inr (um_Expires md)"
    and md: "upload_from_request W r (um_Expires md) [] (usr_ID u) = Inr (src, md)"
    and ins: "InsertEntry (wb_env W) (sv_db s) src md = (Inr (), sv_db s1)"
    and body: "rs_body w1 = IDBody (EntryID_value (um_ID md))"
    using entry_post_accepted [OF up] by metis
  obtain src: "src = fp_reader part" and i: "um_ID md = NewEntryID (wb_draw W)"
    and own: "um_OwnerID md = usr_ID u" "gl_ID (um_GuestLink md) = []" and upl: "um_Uploaded md = server_now W"
    and pass: "upload_passphrase [] (lookup_or_empty form ''downloadPassphrase'') = Inr (um_DownloadPassphrase md)"
    by (rule upload_from_request_ok [OF md]) (use form(1) in simp)
  have nopass: "um_DownloadPassphrase md = NoDownloadPassphrase" using pass form(2) by (simp add: upload_passphrase_def)
  have "um_Expires md = et" using et times(2) by (simp add: parse_Expiration_iff)
  then have st: "storable_entry md" using times upl by (simp add: storable_entry_def nopass)
  have fresh: "\<forall>c \<in> set (entries_data (sv_db s)). cr_id c \<noteq> EntryID_value (um_ID md)" using db(3) i by simp
  have gl: "entry_guest_link (wb_env W') (sv_db s1) (entry_row_of (sv_db s) md) = Inr NoGuestLink"
    by (simp add: entry_guest_link_def entry_row_of_def own(2))
  obtain own' where owner: "ownerFromColumns (inserted_owner (sv_db s) md)
      (owner_username (sv_db s) (inserted_owner (sv_db s) md)) = Inr own'"
    using session_user_owner [OF u db(1) own] by blast
  have c: "concat (src_pieces src) = content" using src form(3) by simp
  have get: "GetEntryMetadata (wb_env W') (sv_db s1) (um_ID md) =
      Inr (as_stored_entry (sv_db s) md (length content) NoGuestLink own')"
    using GetEntryMetadata_inserted [OF ins db(2) fresh _ _ st ok(2) gl owner] c form(4,5) by simp
  have stored: "stored (sv_db s1) (EntryID_value (um_ID md)) (st_chunkSize (wb_env W)) content"
    using stored_inserted [OF ins db(2) fresh] c form(4) by simp
  let ?e = "as_stored_entry (sv_db s) md (length content) NoGuestLink own'"
  have e: "um_ID ?e = um_ID md" "DownloadPassphrase_Empty (um_DownloadPassphrase ?e)"
    by (simp_all add: as_stored_entry_def nopass DownloadPassphrase_Empty_def NoDownloadPassphrase_def Passphrase_Empty_def)
  have idok: "EntryIDFromString (EntryID_value (um_ID md)) = Inr (um_ID md)"
    by (simp add: i NewEntryID_accepted)
  obtain w0 l n where "serve P' EntryGet W' r' s1 = handler_of P' EntryGet W' w0
      (r'\<lparr>rq_user := session_user (wb_env W') r' (sv_db s1), rq_localizer := l, rq_nonce := n\<rparr>) s1"
    using public_view_handled [OF down(1) _ down(3), of EntryGet P' W' s1] by auto
  then have "rs_body (fst (serve P' EntryGet W' r' s1)) = FileBody (range_bytes (rq_range r') content)"
    using writeEntryContent_stored(1) [of "sv_db s1" ?e _ content W'] stored ok(1) down(2,4) i
    by (simp add: on_db_def entryGet_def mux_Var_def idok [unfolded i] lookup_entry_Inr [THEN iffD2, OF get [unfolded i]]
        e serveEntryContent_def split: prod.splits)
  with body i show ?thesis by simp
qed

lemma sample_upload_accepted:
  "rs_status (fst (serve sample_params EntryPost sample_web sample_upload (start_state () sample_db2))) = 200"
proof -
  let ?r = "sample_upload\<lparr>rq_user := Some sample_user\<rparr>"
  have "rq_user sample_upload = None" by (simp add: sample_upload_def sample_request_def)
  then have "serve sample_params EntryPost sample_web sample_upload (start_state () sample_db2) =
      on_db entryPost sample_web new_response ?r (start_state () sample_db2)"
    by (simp add: serve_def loadSession_user middleware_def requireAuthentication_def isAuthenticated_def start_state_def)
  moreover obtain d1 where "InsertEntry sample_env sample_db2 sample_src sample_up_md = (Inr (), d1)"
    using sample_up_stored by blast
  moreover have "query_Get ?r ''expiration'' = formatTime NeverExpire"
    by (simp add: query_Get_def lookup_or_empty_def sample_upload_def)
  ultimately show ?thesis
    using sample_upload_parts [of "Some sample_user"] sample_parse_expiration
    by (simp add: on_db_def entryPost_def parseExpirationFromRequest_def enforceMaxFileLifetimeForUser_def
        insertFileFromRequest_def sample_server_now start_state_def new_response_def sample_user_def)
qed

theorem uploaded_file_is_downloaded_witness:
  "rs_body (fst (serve sample_params EntryGet sample_web sample_download
     (snd (serve sample_params EntryPost sample_web sample_upload (start_state () sample_db2))))) = FileBody ''llo''"
proof -
  let ?s = "start_state () sample_db2"
  obtain w1 s1 where S: "serve sample_params EntryPost sample_web sample_upload ?s = (w1, s1)" by (metis surj_pair)
  have "rs_status w1 = 200" using sample_upload_accepted S by simp
  have "rs_body w1 = IDBody (EntryID_value (NewEntryID (wb_draw sample_web))) \<and>
    rs_body (fst (serve sample_params EntryGet sample_web sample_download s1)) =
      FileBody (range_bytes (rq_range sample_download) ''hello'')"
    by (rule uploaded_file_is_downloaded [OF S \<open>rs_status w1 = 200\<close>, where et = "NeverExpire"
          and part = "\<lparr>fp_filename = ''hello.txt'', fp_content_type = ''text/plain'', fp_size = 5, fp_reader = sample_src\<rparr>"
          and form = "[(''expiration'', formatTime NeverExpire)]"])
      (use sample_db2_keys sample_up_fresh in \<open>simp_all add: start_state_def sample_new_id sample_server_now
        formatTime_def parse_format_utc trunc_NeverExpire\<close>,
       simp_all add: sample_upload_def sample_download_def sample_request_def ParseMultipartForm_def within_limit_def
        lookup_or_empty_def query_Get_def mux_Var_def header_Get_def fresh_request_def range_ok_def
        formatTime_def parse_format_utc trunc_NeverExpire)
  then show ?thesis using S by (simp add: range_bytes_def sample_download_def)
qed

end
